(* ===== verification/Prelude.thy ===== *)
theory Prelude
  imports Main "HOL-Library.Word"
begin

text \<open>
  What every component shares: the machine types of the runtime, the shape of the result of
  a Rust function that mutates state and may return early with an error, the theorem
  collections the components fill, reachability over a step relation with its invariant
  rule, and two lemmas on sums over finite maps.
\<close>

section \<open>Machine types\<close>

text \<open>
  The widths are those the runtime fixes: \<^verbatim>\<open>Moment = u64\<close>, \<^verbatim>\<open>Balance = u128\<close> and a
  parachain id that wraps a \<^verbatim>\<open>u32\<close>.
\<close>

type_synonym byte = "8 word"
type_synonym moment = "64 word"
type_synonym balance = "128 word"
type_synonym para_id = "32 word"

section \<open>Theorem collections\<close>

named_theorems operation_defs \<open>definitions of the operations of the components\<close>
named_theorems frame_simps \<open>what an operation leaves untouched\<close>

section \<open>Results of operations\<close>

text \<open>
  An operation returns its result and the state it leaves behind, also when the result is an
  error: a FRAME dispatchable of this version is not rolled back when it returns \<^verbatim>\<open>Err\<close>, so
  writes made before an early return stay. \<open>and_then r k\<close> is the \<^verbatim>\<open>?\<close> operator on a call
  that mutates the state, \<open>try_pure r s k\<close> the same operator on a call that does not.
\<close>

type_synonym ('e, 'a, 's) outcome = "('e + 'a) \<times> 's"

definition and_then ::
  "('e, 'a, 's) outcome \<Rightarrow> ('a \<Rightarrow> 's \<Rightarrow> ('e, 'b, 's) outcome) \<Rightarrow> ('e, 'b, 's) outcome" where
  "and_then r k = (case r of (Inl e, s) \<Rightarrow> (Inl e, s) | (Inr a, s) \<Rightarrow> k a s)"

definition try_pure ::
  "'e + 'a \<Rightarrow> 's \<Rightarrow> ('a \<Rightarrow> ('e, 'b, 's) outcome) \<Rightarrow> ('e, 'b, 's) outcome" where
  "try_pure r s k = (case r of Inl e \<Rightarrow> (Inl e, s) | Inr a \<Rightarrow> k a)"

definition ok_or :: "'a option \<Rightarrow> 'e \<Rightarrow> 'e + 'a" where
  "ok_or x e = (case x of None \<Rightarrow> Inl e | Some a \<Rightarrow> Inr a)"

lemma and_then_simps [simp]:
  "and_then (Inl e, s) k = (Inl e, s)"
  "and_then (Inr a, s) k = k a s"
  by (simp_all add: and_then_def)

lemma try_pure_simps [simp]:
  "try_pure (Inl e) s k = (Inl e, s)"
  "try_pure (Inr a) s k = k a"
  by (simp_all add: try_pure_def)

lemma ok_or_simps [simp]:
  "ok_or None e = Inl e"
  "ok_or (Some a) e = Inr a"
  by (simp_all add: ok_or_def)

text \<open>
  How a predicate on the final state passes through the two forms of \<^verbatim>\<open>?\<close>: whatever the
  first part leaves on an error, or the continuation leaves after a success.
\<close>

lemma and_then_split:
  "P (and_then r k) \<longleftrightarrow>
    (\<forall>e s. r = (Inl e, s) \<longrightarrow> P (Inl e, s)) \<and> (\<forall>a s. r = (Inr a, s) \<longrightarrow> P (k a s))"
  by (cases r; cases "fst r") auto

lemma try_pure_split:
  "P (try_pure r s k) \<longleftrightarrow>
    (\<forall>e. r = Inl e \<longrightarrow> P (Inl e, s)) \<and> (\<forall>a. r = Inr a \<longrightarrow> P (k a))"
  by (cases r) auto

lemma ok_or_eq_Inl [simp]: "ok_or x e = Inl e' \<longleftrightarrow> x = None \<and> e' = e"
  by (cases x) auto

lemma ok_or_eq_Inr [simp]: "ok_or x e = Inr a \<longleftrightarrow> x = Some a"
  by (cases x) auto

lemmas result_splits = and_then_split try_pure_split

section \<open>Reachable states\<close>

inductive reachable :: "('s \<Rightarrow> bool) \<Rightarrow> ('s \<Rightarrow> 's \<Rightarrow> bool) \<Rightarrow> 's \<Rightarrow> bool"
  for init :: "'s \<Rightarrow> bool" and step :: "'s \<Rightarrow> 's \<Rightarrow> bool" where
  reachable_init: "init s \<Longrightarrow> reachable init step s"
| reachable_step: "reachable init step s \<Longrightarrow> step s t \<Longrightarrow> reachable init step t"

text \<open>
  The contract between a component and the theorems about its runs: a predicate that the
  initial states satisfy and every step keeps. Each component interprets it on its own step
  relation.
\<close>

locale invariant_system =
  fixes init :: "'s \<Rightarrow> bool"
    and step :: "'s \<Rightarrow> 's \<Rightarrow> bool"
    and inv :: "'s \<Rightarrow> bool"
  assumes inv_init: "init s \<Longrightarrow> inv s"
    and inv_step: "inv s \<Longrightarrow> step s t \<Longrightarrow> inv t"
begin

lemma reachable_inv: "reachable init step s \<Longrightarrow> inv s"
  by (induction rule: reachable.induct) (auto intro: inv_init inv_step)

lemma inv_rtranclp: "step\<^sup>*\<^sup>* s t \<Longrightarrow> inv s \<Longrightarrow> inv t"
  by (induction rule: rtranclp_induct) (auto intro: inv_step)

end

section \<open>Sums over finite maps\<close>

lemma sum_dom_upd_fresh:
  fixes f :: "'k \<Rightarrow> 'v \<Rightarrow> nat"
  assumes "finite (dom m)" and "m k = None"
  shows "(\<Sum>x\<in>dom (m(k \<mapsto> v)). f x (the ((m(k \<mapsto> v)) x)))
    = f k v + (\<Sum>x\<in>dom m. f x (the (m x)))"
proof -
  have "k \<notin> dom m" using assms(2) by auto
  moreover have "(\<Sum>x\<in>dom m. f x (the ((m(k \<mapsto> v)) x))) = (\<Sum>x\<in>dom m. f x (the (m x)))"
    using assms(2) by (intro sum.cong) auto
  ultimately show ?thesis using assms(1) by simp
qed

lemma sum_dom_split:
  fixes f :: "'k \<Rightarrow> 'v \<Rightarrow> nat"
  assumes "finite (dom m)" and "m k = Some v"
  shows "(\<Sum>x\<in>dom m. f x (the (m x)))
    = f k v + (\<Sum>x\<in>dom (m(k := None)). f x (the ((m(k := None)) x)))"
proof -
  have fresh: "finite (dom (m(k := None)))" "(m(k := None)) k = None"
    using assms(1) by (simp_all add: dom_fun_upd)
  have upd: "(m(k := None))(k \<mapsto> v) = m" using assms(2) by auto
  show ?thesis using sum_dom_upd_fresh [OF fresh, of f v] by (simp only: upd)
qed

end
