(* ===== verification/Common.thy ===== *)
theory Common
  imports Prelude
begin

text \<open>
  The crate \<^verbatim>\<open>pallet-common\<close> (\<^verbatim>\<open>pallets/common/src/lib.rs\<close>): the device states, the order as a
  client submits it (\<^verbatim>\<open>OrderBase\<close>), the order as a chain stores it (\<^verbatim>\<open>Order\<close>), the conversions
  between the two, and the messages the two parachains exchange (\<^verbatim>\<open>XCMPMessage\<close>).
\<close>

section \<open>Device state\<close>

datatype device_state =
    Off        \<comment> \<open>device is off\<close>
  | Ready      \<comment> \<open>device is ready to accept orders\<close>
  | Busy       \<comment> \<open>device has an order\<close>
  | Busy2      \<comment> \<open>device has accepted the order\<close>
  | Timewait   \<comment> \<open>device is abandoned\<close>

definition default_device_state :: device_state where
  "default_device_state = Off"

text \<open>
  The states in the order of their declaration, which is also the order of the variant
  indices that the derived codec writes.
\<close>

fun state_index :: "device_state \<Rightarrow> nat" where
  "state_index Off = 0"
| "state_index Ready = 1"
| "state_index Busy = 2"
| "state_index Busy2 = 3"
| "state_index Timewait = 4"

lemma state_index_inj: "state_index a = state_index b \<Longrightarrow> a = b"
  by (cases a; cases b) auto

instantiation device_state :: linorder
begin

definition less_eq_device_state :: "device_state \<Rightarrow> device_state \<Rightarrow> bool" where
  "less_eq_device_state a b \<longleftrightarrow> state_index a \<le> state_index b"

definition less_device_state :: "device_state \<Rightarrow> device_state \<Rightarrow> bool" where
  "less_device_state a b \<longleftrightarrow> state_index a < state_index b"

instance
  by standard
    (auto simp: less_eq_device_state_def less_device_state_def intro: state_index_inj)

end

text \<open>The switch every operation with an \<^verbatim>\<open>onoff\<close> flag uses.\<close>

definition state_of_onoff :: "bool \<Rightarrow> device_state" where
  "state_of_onoff onoff = (if onoff then Ready else Off)"

lemma state_of_onoff_cases [simp]:
  "state_of_onoff True = Ready" "state_of_onoff False = Off"
  by (simp_all add: state_of_onoff_def)

lemma state_of_onoff_neq [simp]:
  "state_of_onoff b \<noteq> Busy" "state_of_onoff b \<noteq> Busy2" "state_of_onoff b \<noteq> Timewait"
  by (cases b; simp)+

lemma case_state_of_onoff [simp]:
  "(case state_of_onoff b of Off \<Rightarrow> x | Ready \<Rightarrow> y | Busy \<Rightarrow> z | Busy2 \<Rightarrow> u | Timewait \<Rightarrow> v)
    = (if b then y else x)"
  by (cases b) simp_all

section \<open>Orders\<close>

record ('a, 'p) order_base =
  ob_until :: moment
  ob_data :: 'p
  ob_fee :: balance
  ob_device :: 'a

record ('a, 'p) order =
  o_until :: moment
  o_data :: 'p
  o_fee :: balance
  o_client :: 'a
  o_paraid :: para_id

text \<open>
  \<^verbatim>\<open>OrderBase::convert\<close> drops the device and zeroes the parachain id; \<^verbatim>\<open>Order::convert\<close>
  drops the client and the parachain id.
\<close>

definition order_base_convert :: "('a, 'p) order_base \<Rightarrow> 'a \<Rightarrow> ('a, 'p) order" where
  "order_base_convert ob client =
    \<lparr>o_until = ob_until ob, o_data = ob_data ob, o_fee = ob_fee ob,
     o_client = client, o_paraid = 0\<rparr>"

definition order_convert :: "('a, 'p) order \<Rightarrow> 'a \<Rightarrow> ('a, 'p) order_base" where
  "order_convert od device =
    \<lparr>ob_until = o_until od, ob_data = o_data od, ob_fee = o_fee od, ob_device = device\<rparr>"

lemma order_convert_base_convert [simp]:
  "order_convert (order_base_convert ob client) device = ob\<lparr>ob_device := device\<rparr>"
  by (simp add: order_convert_def order_base_convert_def)

lemma order_base_convert_fields [simp]:
  "o_until (order_base_convert ob c) = ob_until ob"
  "o_data (order_base_convert ob c) = ob_data ob"
  "o_fee (order_base_convert ob c) = ob_fee ob"
  "o_client (order_base_convert ob c) = c"
  "o_paraid (order_base_convert ob c) = 0"
  by (simp_all add: order_base_convert_def)

section \<open>Messages\<close>

datatype ('a, 'p) xcmp_message =
    NewOrder 'a "('a, 'p) order_base"   \<comment> \<open>client, order: sent to the device\<close>
  | OrderAccept 'a 'a                   \<comment> \<open>client, device\<close>
  | OrderReject 'a 'a bool              \<comment> \<open>client, device, on/off\<close>
  | OrderDone 'a 'a bool                \<comment> \<open>client, device, on/off\<close>

end
