(* ===== verification/Codec.thy ===== *)
theory Codec
  imports Common "HOL-Library.Monad_Syntax"
begin

text \<open>
  The byte encoding of the exchanged types. \<^verbatim>\<open>pallets/common/src/lib.rs\<close> derives \<^verbatim>\<open>Encode\<close> and
  \<^verbatim>\<open>Decode\<close> for its enums and structs: an enum is the index of its variant, one byte, followed
  by the variant's fields; a struct is its fields in the order of declaration; decoding reads
  a prefix of the input and leaves the rest. The codecs of the field types (account, balance,
  moment, payload, bool, parachain id) are library code: they are parameters, collected in
  \<open>prims\<close>, and what is relied on is the round trip, stated as the locales \<open>prefix_codec\<close> and
  \<open>canonical_codec\<close>.
\<close>

section \<open>Codecs and their laws\<close>

datatype 'a codec =
  Codec (enc: "'a \<Rightarrow> byte list") (dec: "byte list \<Rightarrow> ('a \<times> byte list) option")

locale prefix_codec =
  fixes c :: "'a codec"
  assumes dec_enc: "dec c (enc c x @ r) = Some (x, r)"
begin

lemma dec_enc_nil: "dec c (enc c x) = Some (x, [])"
  using dec_enc [of x "[]"] by simp

lemma enc_prefix_free: "enc c x @ r = enc c y @ t \<Longrightarrow> x = y \<and> r = t"
  by (metis dec_enc option.inject prod.inject)

lemma enc_inj: "enc c x = enc c y \<Longrightarrow> x = y"
  using enc_prefix_free [of x "[]" y "[]"] by blast

end

text \<open>A codec is canonical when only encodings decode.\<close>

locale canonical_codec = prefix_codec +
  assumes dec_some: "dec c bs = Some (x, r) \<Longrightarrow> bs = enc c x @ r"
begin

lemma dec_iff: "dec c bs = Some (x, r) \<longleftrightarrow> bs = enc c x @ r"
  using dec_some dec_enc by auto

lemma dec_consumes: "dec c bs = Some (x, r) \<Longrightarrow> length bs = length (enc c x) + length r"
  by (auto dest: dec_some)

end

section \<open>Parameters\<close>

record ('a, 'p) prims =
  acct_c :: "'a codec"
  payload_c :: "'p codec"
  balance_c :: "balance codec"
  moment_c :: "moment codec"
  para_c :: "para_id codec"
  bool_c :: "bool codec"

section \<open>Derived codecs\<close>

definition enc_device_state :: "device_state \<Rightarrow> byte list" where
  "enc_device_state st = [of_nat (state_index st)]"

fun dec_device_state :: "byte list \<Rightarrow> (device_state \<times> byte list) option" where
  "dec_device_state [] = None"
| "dec_device_state (b # bs) =
    (if b = 0 then Some (Off, bs) else if b = 1 then Some (Ready, bs)
     else if b = 2 then Some (Busy, bs) else if b = 3 then Some (Busy2, bs)
     else if b = 4 then Some (Timewait, bs) else None)"

definition enc_order_base :: "('a, 'p) prims \<Rightarrow> ('a, 'p) order_base \<Rightarrow> byte list" where
  "enc_order_base P ob =
    enc (moment_c P) (ob_until ob) @ enc (payload_c P) (ob_data ob) @
    enc (balance_c P) (ob_fee ob) @ enc (acct_c P) (ob_device ob)"

definition dec_order_base ::
  "('a, 'p) prims \<Rightarrow> byte list \<Rightarrow> (('a, 'p) order_base \<times> byte list) option" where
  "dec_order_base P bs = do {
     (u, bs) \<leftarrow> dec (moment_c P) bs;
     (d, bs) \<leftarrow> dec (payload_c P) bs;
     (f, bs) \<leftarrow> dec (balance_c P) bs;
     (dev, bs) \<leftarrow> dec (acct_c P) bs;
     Some (\<lparr>ob_until = u, ob_data = d, ob_fee = f, ob_device = dev\<rparr>, bs)
   }"

definition enc_order :: "('a, 'p) prims \<Rightarrow> ('a, 'p) order \<Rightarrow> byte list" where
  "enc_order P od =
    enc (moment_c P) (o_until od) @ enc (payload_c P) (o_data od) @
    enc (balance_c P) (o_fee od) @ enc (acct_c P) (o_client od) @
    enc (para_c P) (o_paraid od)"

definition dec_order ::
  "('a, 'p) prims \<Rightarrow> byte list \<Rightarrow> (('a, 'p) order \<times> byte list) option" where
  "dec_order P bs = do {
     (u, bs) \<leftarrow> dec (moment_c P) bs;
     (d, bs) \<leftarrow> dec (payload_c P) bs;
     (f, bs) \<leftarrow> dec (balance_c P) bs;
     (cl, bs) \<leftarrow> dec (acct_c P) bs;
     (par, bs) \<leftarrow> dec (para_c P) bs;
     Some (\<lparr>o_until = u, o_data = d, o_fee = f, o_client = cl, o_paraid = par\<rparr>, bs)
   }"

fun enc_message :: "('a, 'p) prims \<Rightarrow> ('a, 'p) xcmp_message \<Rightarrow> byte list" where
  "enc_message P (NewOrder cl ob) = 0 # enc (acct_c P) cl @ enc_order_base P ob"
| "enc_message P (OrderAccept cl dev) = 1 # enc (acct_c P) cl @ enc (acct_c P) dev"
| "enc_message P (OrderReject cl dev b) =
    2 # enc (acct_c P) cl @ enc (acct_c P) dev @ enc (bool_c P) b"
| "enc_message P (OrderDone cl dev b) =
    3 # enc (acct_c P) cl @ enc (acct_c P) dev @ enc (bool_c P) b"

definition dec_two_accounts ::
  "('a, 'p) prims \<Rightarrow> byte list \<Rightarrow> (('a \<times> 'a) \<times> byte list) option" where
  "dec_two_accounts P bs = do {
     (cl, bs) \<leftarrow> dec (acct_c P) bs;
     (dev, bs) \<leftarrow> dec (acct_c P) bs;
     Some ((cl, dev), bs)
   }"

fun dec_message ::
  "('a, 'p) prims \<Rightarrow> byte list \<Rightarrow> (('a, 'p) xcmp_message \<times> byte list) option" where
  "dec_message P [] = None"
| "dec_message P (t # bs) =
    (if t = 0 then do {
       (cl, bs) \<leftarrow> dec (acct_c P) bs;
       (ob, bs) \<leftarrow> dec_order_base P bs;
       Some (NewOrder cl ob, bs)
     } else if t = 1 then do {
       ((cl, dev), bs) \<leftarrow> dec_two_accounts P bs;
       Some (OrderAccept cl dev, bs)
     } else if t = 2 then do {
       ((cl, dev), bs) \<leftarrow> dec_two_accounts P bs;
       (b, bs) \<leftarrow> dec (bool_c P) bs;
       Some (OrderReject cl dev b, bs)
     } else if t = 3 then do {
       ((cl, dev), bs) \<leftarrow> dec_two_accounts P bs;
       (b, bs) \<leftarrow> dec (bool_c P) bs;
       Some (OrderDone cl dev b, bs)
     } else None)"

definition device_state_codec :: "device_state codec" where
  "device_state_codec = Codec enc_device_state dec_device_state"

definition order_base_codec :: "('a, 'p) prims \<Rightarrow> ('a, 'p) order_base codec" where
  "order_base_codec P = Codec (enc_order_base P) (dec_order_base P)"

definition order_codec :: "('a, 'p) prims \<Rightarrow> ('a, 'p) order codec" where
  "order_codec P = Codec (enc_order P) (dec_order P)"

definition message_codec :: "('a, 'p) prims \<Rightarrow> ('a, 'p) xcmp_message codec" where
  "message_codec P = Codec (enc_message P) (dec_message P)"

text \<open>
  \<^verbatim>\<open>XCMPMessage::encode\<close> and \<^verbatim>\<open>XCMPMessage::decode(&mut blob.as_slice())\<close> as the pallets call
  them: bytes left over after the message are ignored.
\<close>

definition encode_with :: "'a codec \<Rightarrow> 'a \<Rightarrow> byte list" where
  "encode_with c m = enc c m"

definition decode_with :: "'a codec \<Rightarrow> byte list \<Rightarrow> 'a option" where
  "decode_with c bs = map_option fst (dec c bs)"

section \<open>The laws of the derived codecs\<close>

lemma dec_device_state_some:
  "dec_device_state bs = Some (st, r) \<Longrightarrow> bs = enc_device_state st @ r"
  by (cases bs) (auto simp: enc_device_state_def split: if_splits)

interpretation device_state: canonical_codec device_state_codec
proof unfold_locales
  fix st r
  show "dec device_state_codec (enc device_state_codec st @ r) = Some (st, r)"
    by (cases st) (simp_all add: device_state_codec_def enc_device_state_def)
next
  fix bs st r
  assume "dec device_state_codec bs = Some (st, r)"
  then show "bs = enc device_state_codec st @ r"
    by (simp add: device_state_codec_def dec_device_state_some)
qed

text \<open>
  The message types inherit the laws from the primitives: the locale fixes primitives with
  the laws and the derived codecs are shown to be codecs inside it.
\<close>

locale prim_codecs =
  fixes P :: "('a, 'p) prims"
  assumes acct: "canonical_codec (acct_c P)"
    and payload: "canonical_codec (payload_c P)"
    and balance: "canonical_codec (balance_c P)"
    and moment: "canonical_codec (moment_c P)"
    and para: "canonical_codec (para_c P)"
    and bool: "canonical_codec (bool_c P)"
begin

lemmas prim_dec_enc [simp] =
  acct [THEN canonical_codec.axioms(1), THEN prefix_codec.dec_enc]
  payload [THEN canonical_codec.axioms(1), THEN prefix_codec.dec_enc]
  balance [THEN canonical_codec.axioms(1), THEN prefix_codec.dec_enc]
  moment [THEN canonical_codec.axioms(1), THEN prefix_codec.dec_enc]
  para [THEN canonical_codec.axioms(1), THEN prefix_codec.dec_enc]
  bool [THEN canonical_codec.axioms(1), THEN prefix_codec.dec_enc]

lemmas prim_dec_some =
  acct [THEN canonical_codec.dec_some] payload [THEN canonical_codec.dec_some]
  balance [THEN canonical_codec.dec_some] moment [THEN canonical_codec.dec_some]
  para [THEN canonical_codec.dec_some] bool [THEN canonical_codec.dec_some]

lemma dec_enc_order_base [simp]: "dec_order_base P (enc_order_base P ob @ r) = Some (ob, r)"
  by (simp add: dec_order_base_def enc_order_base_def)

lemma dec_order_base_some:
  "dec_order_base P bs = Some (ob, r) \<Longrightarrow> bs = enc_order_base P ob @ r"
  by (auto simp: dec_order_base_def enc_order_base_def bind_eq_Some_conv dest!: prim_dec_some)

lemma dec_enc_order: "dec_order P (enc_order P od @ r) = Some (od, r)"
  by (simp add: dec_order_def enc_order_def)

lemma dec_order_some: "dec_order P bs = Some (od, r) \<Longrightarrow> bs = enc_order P od @ r"
  by (auto simp: dec_order_def enc_order_def bind_eq_Some_conv dest!: prim_dec_some)

lemma dec_enc_two_accounts [simp]:
  "dec_two_accounts P (enc (acct_c P) cl @ enc (acct_c P) dev @ r) = Some ((cl, dev), r)"
  by (simp add: dec_two_accounts_def)

lemma dec_two_accounts_some:
  "dec_two_accounts P bs = Some ((cl, dev), r) \<Longrightarrow>
    bs = enc (acct_c P) cl @ enc (acct_c P) dev @ r"
  by (auto simp: dec_two_accounts_def bind_eq_Some_conv dest!: prim_dec_some)

lemma dec_enc_message: "dec_message P (enc_message P m @ r) = Some (m, r)"
  by (cases m) simp_all

lemma dec_message_some: "dec_message P bs = Some (m, r) \<Longrightarrow> bs = enc_message P m @ r"
  by (cases bs)
    (auto simp: bind_eq_Some_conv split: if_splits
      dest!: prim_dec_some dec_order_base_some dec_two_accounts_some)

sublocale order_base: canonical_codec "order_base_codec P"
  by unfold_locales (simp_all add: order_base_codec_def dec_order_base_some)

sublocale stored_order: canonical_codec "order_codec P"
  by unfold_locales (simp_all add: order_codec_def dec_enc_order dec_order_some)

sublocale message: canonical_codec "message_codec P"
  by unfold_locales (simp_all add: message_codec_def dec_enc_message dec_message_some)

lemma decode_encode_message:
  "decode_with (message_codec P) (encode_with (message_codec P) m @ r) = Some m"
  by (simp add: decode_with_def encode_with_def message.dec_enc)

end

end
