(* ===== verification/Frame.thy ===== *)
theory Frame
  imports Codec
begin

text \<open>
  What the two pallets use of the libraries they are built on, as parameters: the
  \<^verbatim>\<open>ReservableCurrency\<close> behind \<^verbatim>\<open>T::Currency\<close>, \<^verbatim>\<open>T::XcmpMessageSender\<close>, \<^verbatim>\<open>ensure_signed\<close>, the
  message codec and the hash function. Nothing is assumed about them here; the laws the proofs
  rely on are the locale \<open>currency\<close> of theory \<open>Currency\<close> and \<open>prefix_codec\<close> of theory
  \<open>Codec\<close>.
\<close>

section \<open>Errors\<close>

text \<open>
  A \<^verbatim>\<open>DispatchError\<close> is an error of the pallet itself or one that \<^verbatim>\<open>?\<close> passes on from a
  library (\<^verbatim>\<open>BadOrigin\<close>, \<^verbatim>\<open>InsufficientBalance\<close>, ...), kept as its name.
\<close>

datatype 'e dispatch_error = Pallet 'e | Foreign string

definition foreign :: "string + 'a \<Rightarrow> 'e dispatch_error + 'a" where
  "foreign r = (case r of Inl e \<Rightarrow> Inl (Foreign e) | Inr a \<Rightarrow> Inr a)"

lemma foreign_simps [simp]:
  "foreign (Inl e) = Inl (Foreign e)" "foreign (Inr a) = Inr a"
  by (simp_all add: foreign_def)

lemma foreign_eq_Inr [simp]: "foreign r = Inr a \<longleftrightarrow> r = Inr a"
  by (cases r) simp_all

lemma foreign_eq_Inl: "foreign r = Inl e \<longleftrightarrow> (\<exists>x. r = Inl x \<and> e = Foreign x)"
  by (cases r) auto

section \<open>The libraries as parameters\<close>

datatype balance_status = Free | Reserved

datatype service_quality = Ordered | Fast

record ('a, 'c) currency_ops =
  can_reserve :: "'a \<Rightarrow> balance \<Rightarrow> 'c \<Rightarrow> bool"
  reserve :: "'a \<Rightarrow> balance \<Rightarrow> 'c \<Rightarrow> (string, unit, 'c) outcome"
  unreserve :: "'a \<Rightarrow> balance \<Rightarrow> 'c \<Rightarrow> balance \<times> 'c"
  repatriate_reserved ::
    "'a \<Rightarrow> 'a \<Rightarrow> balance \<Rightarrow> balance_status \<Rightarrow> 'c \<Rightarrow> (string, balance, 'c) outcome"

text \<open>A \<^verbatim>\<open>VersionedXcm\<close> is represented by its encoding, an \<^verbatim>\<open>H256\<close> hash by its bytes.\<close>

type_synonym hash = "byte list"
type_synonym versioned_xcm = "byte list"
type_synonym xcm = "byte list"

record ('o, 'a, 'p, 'c, 'q) env =
  ensure_signed :: "'o \<Rightarrow> string + 'a"
  currency_impl :: "('a, 'c) currency_ops"
  send_blob_message ::
    "para_id \<Rightarrow> byte list \<Rightarrow> service_quality \<Rightarrow> 'q \<Rightarrow> (string, nat, 'q) outcome"
  message_impl :: "('a, 'p) xcmp_message codec"
  hashing :: "byte list \<Rightarrow> hash"
  xcm_try_from :: "versioned_xcm \<Rightarrow> string + xcm"

section \<open>The part of the chain state the libraries own\<close>

record ('c, 'q) host =
  h_now :: moment        \<comment> \<open>\<^verbatim>\<open>pallet_timestamp::Now\<close>, read by \<^verbatim>\<open>Timestamp::get\<close>\<close>
  h_currency :: 'c       \<comment> \<open>what \<^verbatim>\<open>T::Currency\<close> stores\<close>
  h_outbox :: 'q         \<comment> \<open>the outbound XCMP queues\<close>

text \<open>The calls of the pallets into the libraries, on the state of the chain.\<close>

definition can_reserve_now ::
  "('o, 'a, 'p, 'c, 'q, 'x) env_scheme \<Rightarrow> 'a \<Rightarrow> balance \<Rightarrow> ('c, 'q, 'z) host_scheme \<Rightarrow> bool" where
  "can_reserve_now env a v s = can_reserve (currency_impl env) a v (h_currency s)"

definition reserve_now ::
  "('o, 'a, 'p, 'c, 'q, 'x) env_scheme \<Rightarrow> 'a \<Rightarrow> balance \<Rightarrow> ('c, 'q, 'z) host_scheme \<Rightarrow>
   ('e dispatch_error, unit, ('c, 'q, 'z) host_scheme) outcome" where
  "reserve_now env a v s =
    (case reserve (currency_impl env) a v (h_currency s) of
      (r, c) \<Rightarrow> (foreign r, s\<lparr>h_currency := c\<rparr>))"

definition unreserve_now ::
  "('o, 'a, 'p, 'c, 'q, 'x) env_scheme \<Rightarrow> 'a \<Rightarrow> balance \<Rightarrow> ('c, 'q, 'z) host_scheme \<Rightarrow>
   ('c, 'q, 'z) host_scheme" where
  "unreserve_now env a v s =
    s\<lparr>h_currency := snd (unreserve (currency_impl env) a v (h_currency s))\<rparr>"

definition repatriate_now ::
  "('o, 'a, 'p, 'c, 'q, 'x) env_scheme \<Rightarrow> 'a \<Rightarrow> 'a \<Rightarrow> balance \<Rightarrow> ('c, 'q, 'z) host_scheme \<Rightarrow>
   ('e dispatch_error, balance, ('c, 'q, 'z) host_scheme) outcome" where
  "repatriate_now env slashed beneficiary v s =
    (case repatriate_reserved (currency_impl env) slashed beneficiary v Free (h_currency s) of
      (r, c) \<Rightarrow> (foreign r, s\<lparr>h_currency := c\<rparr>))"

text \<open>
  \<^verbatim>\<open>T::XcmpMessageSender::send_blob_message(para, msg.encode(), ServiceQuality::Ordered)\<close> with
  the pallet's own error in place of the sender's (\<^verbatim>\<open>map_err\<close>).
\<close>

definition send_blob_now ::
  "('o, 'a, 'p, 'c, 'q, 'x) env_scheme \<Rightarrow> para_id \<Rightarrow> byte list \<Rightarrow> 'e \<Rightarrow>
   ('c, 'q, 'z) host_scheme \<Rightarrow> ('e dispatch_error, unit, ('c, 'q, 'z) host_scheme) outcome" where
  "send_blob_now env para blob err s =
    (case send_blob_message env para blob Ordered (h_outbox s) of
      (Inl _, q) \<Rightarrow> (Inl (Pallet err), s\<lparr>h_outbox := q\<rparr>)
    | (Inr _, q) \<Rightarrow> (Inr (), s\<lparr>h_outbox := q\<rparr>))"

definition send_message_now ::
  "('o, 'a, 'p, 'c, 'q, 'x) env_scheme \<Rightarrow> para_id \<Rightarrow> ('a, 'p) xcmp_message \<Rightarrow> 'e \<Rightarrow>
   ('c, 'q, 'z) host_scheme \<Rightarrow> ('e dispatch_error, unit, ('c, 'q, 'z) host_scheme) outcome" where
  "send_message_now env para msg err s =
    send_blob_now env para (encode_with (message_impl env) msg) err s"

section \<open>What the calls leave untouched\<close>

text \<open>
  Each call returns the state with one field of the host part replaced. The lemmas say it for
  the whole record, so that a pallet's own storage is seen to be untouched whatever it is.
\<close>

lemma reserve_now_updates:
  "reserve_now env a v s = (r, t) \<Longrightarrow> t = s\<lparr>h_currency := h_currency t\<rparr>"
  by (auto simp: reserve_now_def split: prod.splits)

lemma repatriate_now_updates:
  "repatriate_now env a b v s = (r, t) \<Longrightarrow> t = s\<lparr>h_currency := h_currency t\<rparr>"
  by (auto simp: repatriate_now_def split: prod.splits)

lemma unreserve_now_updates:
  "unreserve_now env a v s = s\<lparr>h_currency := h_currency (unreserve_now env a v s)\<rparr>"
  by (simp add: unreserve_now_def)

lemma send_message_now_updates:
  "send_message_now env para msg err s = (r, t) \<Longrightarrow> t = s\<lparr>h_outbox := h_outbox t\<rparr>"
  by (auto simp: send_message_now_def send_blob_now_def split: prod.splits sum.splits)

lemma send_message_now_error:
  "send_message_now env para msg err s = (Inl e, t) \<Longrightarrow> e = Pallet err"
  by (auto simp: send_message_now_def send_blob_now_def split: prod.splits sum.splits)

lemma unreserve_now_host [simp]:
  "h_now (unreserve_now env a v s) = h_now s"
  "h_outbox (unreserve_now env a v s) = h_outbox s"
  by (simp_all add: unreserve_now_def)

lemma updates_host:
  assumes "t = s\<lparr>h_currency := c\<rparr>"
  shows "h_now t = h_now s" "h_outbox t = h_outbox s"
  using assms by simp_all

end
