(* ===== verification/Client.thy ===== *)
theory Client
  imports Frame
begin

text \<open>
  The crate \<^verbatim>\<open>pallet-client\<close> (\<^verbatim>\<open>pallets/client/src/lib.rs\<close>): the order desk of the client
  parachain. It keeps a profile for every remote device and the open order of each, holds the
  deposits of both sides, sends the order to the chain of the device and settles it when that
  chain reports back. Operations carry the suffix \<open>_cli\<close>.
\<close>

section \<open>Storage, events, errors, configuration\<close>

record device_profile_cli =
  dvc_state :: device_state
  dvc_penalty :: balance
  dvc_wcd :: moment
  dvc_paraid :: para_id

datatype 'a client_event =
    CeNewDevice 'a
  | CeNewOrder 'a 'a
  | CeAccept 'a 'a
  | CeReject 'a 'a
  | CeDone 'a 'a
  | CeBadVersion hash

datatype client_error =
    CliNoneValue | CliOrderExists | CliIllegalState | CliOverdue | CliDeviceLowBail
  | CliDeviceExists | CliBadOrderDetails | CliNoDevice | CliNoOrder | CliProhibited
  | CliCannotReachDestination

record ('a, 'p, 'c, 'q) client_state = "('c, 'q) host" +
  c_devices :: "'a \<Rightarrow> device_profile_cli option"
  c_orders :: "'a \<Rightarrow> ('a, 'p) order option"
  c_events :: "'a client_event list"

type_synonym ('a, 'p, 'c, 'q) client_result =
  "(client_error dispatch_error, unit, ('a, 'p, 'c, 'q) client_state) outcome"

text \<open>Writes to the pallet's storage.\<close>

definition put_device_cli ::
  "'a \<Rightarrow> device_profile_cli \<Rightarrow> ('a, 'p, 'c, 'q) client_state \<Rightarrow> ('a, 'p, 'c, 'q) client_state"
  where
  "put_device_cli d p s = s\<lparr>c_devices := (c_devices s)(d \<mapsto> p)\<rparr>"

definition remove_device_cli ::
  "'a \<Rightarrow> ('a, 'p, 'c, 'q) client_state \<Rightarrow> ('a, 'p, 'c, 'q) client_state" where
  "remove_device_cli d s = s\<lparr>c_devices := (c_devices s)(d := None)\<rparr>"

definition put_order_cli ::
  "'a \<Rightarrow> ('a, 'p) order \<Rightarrow> ('a, 'p, 'c, 'q) client_state \<Rightarrow> ('a, 'p, 'c, 'q) client_state" where
  "put_order_cli d od s = s\<lparr>c_orders := (c_orders s)(d \<mapsto> od)\<rparr>"

definition remove_order_cli ::
  "'a \<Rightarrow> ('a, 'p, 'c, 'q) client_state \<Rightarrow> ('a, 'p, 'c, 'q) client_state" where
  "remove_order_cli d s = s\<lparr>c_orders := (c_orders s)(d := None)\<rparr>"

definition deposit_event_cli ::
  "'a client_event \<Rightarrow> ('a, 'p, 'c, 'q) client_state \<Rightarrow> ('a, 'p, 'c, 'q) client_state" where
  "deposit_event_cli ev s = s\<lparr>c_events := c_events s @ [ev]\<rparr>"

lemmas storage_cli_defs =
  put_device_cli_def remove_device_cli_def put_order_cli_def remove_order_cli_def
  deposit_event_cli_def

section \<open>The dispatchables\<close>

text \<open>\<^verbatim>\<open>test\<close> needs no signature and sends two fixed bytes to parachain 200.\<close>

definition test_cli ::
  "('o, 'a, 'p, 'c, 'q) env \<Rightarrow> 'o \<Rightarrow> ('a, 'p, 'c, 'q) client_state \<Rightarrow>
   ('a, 'p, 'c, 'q) client_result" where
  "test_cli cfg origin s = send_blob_now cfg 200 [0x00, 0x20] CliCannotReachDestination s"

text \<open>
  The order is stored, with the parachain id that \<^verbatim>\<open>convert\<close> leaves at zero, before the
  message is sent; the device becomes \<open>Busy\<close> only after it.
\<close>

definition order_cli ::
  "('o, 'a, 'p, 'c, 'q) env \<Rightarrow> 'o \<Rightarrow> ('a, 'p) order_base \<Rightarrow> ('a, 'p, 'c, 'q) client_state \<Rightarrow>
   ('a, 'p, 'c, 'q) client_result" where
  "order_cli cfg origin ob s =
    try_pure (foreign (ensure_signed cfg origin)) s (\<lambda>who.
      let now = h_now s
      in if ob_until ob \<le> now then (Inl (Pallet CliOverdue), s)
         else if c_orders s (ob_device ob) \<noteq> None then (Inl (Pallet CliIllegalState), s)
         else try_pure (ok_or (c_devices s (ob_device ob)) (Pallet CliNoDevice)) s (\<lambda>dev.
           if dvc_state dev \<noteq> Ready then (Inl (Pallet CliIllegalState), s)
           else if ob_until ob < now + dvc_wcd dev then (Inl (Pallet CliBadOrderDetails), s)
           else if \<not> can_reserve_now cfg who (ob_fee ob) s then (Inl (Pallet CliDeviceLowBail), s)
           else and_then (reserve_now cfg (ob_device ob) (dvc_penalty dev) s) (\<lambda>_ s.
             and_then (reserve_now cfg who (ob_fee ob) s) (\<lambda>_ s.
               let device = ob_device ob;
                   od = order_base_convert ob who;
                   s = put_order_cli device od s
               in and_then
                    (send_message_now cfg (dvc_paraid dev) (NewOrder who (order_convert od device))
                      CliCannotReachDestination s)
                    (\<lambda>_ s. (Inr (),
                       deposit_event_cli (CeNewOrder who device)
                         (put_device_cli device (dev\<lparr>dvc_state := Busy\<rparr>) s)))))))"

definition order_reject_cli ::
  "('o, 'a, 'p, 'c, 'q) env \<Rightarrow> 'a \<Rightarrow> ('a, 'p) order \<Rightarrow> moment \<Rightarrow> 'a \<Rightarrow> device_profile_cli \<Rightarrow>
   ('a, 'p, 'c, 'q) client_state \<Rightarrow> ('a, 'p, 'c, 'q) client_result" where
  "order_reject_cli cfg who od now device dev s =
    (let s = unreserve_now cfg who (o_fee od) s
     in and_then
          (if now < o_until od
           then (Inr (), unreserve_now cfg device (dvc_penalty dev) s)
           else and_then (repatriate_now cfg device (o_client od) (dvc_penalty dev) s)
                  (\<lambda>_ s. (Inr (), s)))
          (\<lambda>_ s. (Inr (),
             deposit_event_cli (CeReject who device)
               (put_device_cli device dev (remove_order_cli device s)))))"

definition cancel_cli ::
  "('o, 'a, 'p, 'c, 'q) env \<Rightarrow> 'o \<Rightarrow> 'a \<Rightarrow> ('a, 'p, 'c, 'q) client_state \<Rightarrow>
   ('a, 'p, 'c, 'q) client_result" where
  "cancel_cli cfg origin device s =
    try_pure (foreign (ensure_signed cfg origin)) s (\<lambda>who.
    try_pure (ok_or (c_orders s device) (Pallet CliNoOrder)) s (\<lambda>od.
      let now = h_now s
      in if now < o_until od \<or> o_client od \<noteq> who then (Inl (Pallet CliProhibited), s)
         else try_pure (ok_or (c_devices s device) (Pallet CliNoDevice)) s (\<lambda>dev.
                order_reject_cli cfg who od now device dev s)))"

definition register_cli ::
  "('o, 'a, 'p, 'c, 'q) env \<Rightarrow> 'o \<Rightarrow> para_id \<Rightarrow> balance \<Rightarrow> moment \<Rightarrow> bool \<Rightarrow>
   ('a, 'p, 'c, 'q) client_state \<Rightarrow> ('a, 'p, 'c, 'q) client_result" where
  "register_cli cfg origin paraid penalty wcd onoff s =
    try_pure (foreign (ensure_signed cfg origin)) s (\<lambda>device.
      if c_orders s device \<noteq> None then (Inl (Pallet CliDeviceExists), s)
      else (Inr (),
        deposit_event_cli (CeNewDevice device)
          (put_device_cli device
            \<lparr>dvc_state = (if onoff then Ready else Off), dvc_penalty = penalty, dvc_wcd = wcd,
             dvc_paraid = paraid\<rparr>
            s)))"

section \<open>The reports of the other chain\<close>

definition on_accept_cli ::
  "'a \<Rightarrow> 'a \<Rightarrow> ('a, 'p, 'c, 'q) client_state \<Rightarrow> ('a, 'p, 'c, 'q) client_result" where
  "on_accept_cli who device s = (Inr (), deposit_event_cli (CeAccept who device) s)"

definition on_reject_cli ::
  "('o, 'a, 'p, 'c, 'q) env \<Rightarrow> 'a \<Rightarrow> 'a \<Rightarrow> bool \<Rightarrow> ('a, 'p, 'c, 'q) client_state \<Rightarrow>
   ('a, 'p, 'c, 'q) client_result" where
  "on_reject_cli cfg who device onoff s =
    try_pure (ok_or (c_orders s device) (Pallet CliNoOrder)) s (\<lambda>od.
      let now = h_now s
      in try_pure (ok_or (c_devices s device) (Pallet CliNoDevice)) s (\<lambda>dev.
           order_reject_cli cfg who od now device
             (dev\<lparr>dvc_state := (if \<not> onoff then Off else Ready)\<rparr>) s))"

definition on_done_cli ::
  "('o, 'a, 'p, 'c, 'q) env \<Rightarrow> 'a \<Rightarrow> 'a \<Rightarrow> bool \<Rightarrow> ('a, 'p, 'c, 'q) client_state \<Rightarrow>
   ('a, 'p, 'c, 'q) client_result" where
  "on_done_cli cfg who device onoff s =
    try_pure (ok_or (c_orders s device) (Pallet CliNoOrder)) s (\<lambda>od.
      let now = h_now s
      in try_pure (ok_or (c_devices s device) (Pallet CliNoDevice)) s (\<lambda>dev.
           and_then (repatriate_now cfg who device (o_fee od) s) (\<lambda>_ s.
             and_then
               (if now < o_until od
                then (Inr (), unreserve_now cfg device (dvc_penalty dev) s)
                else and_then (repatriate_now cfg device who (dvc_penalty dev) s)
                       (\<lambda>_ s. (Inr (), s)))
               (\<lambda>_ s.
                 let s = remove_order_cli device s;
                     dev = dev\<lparr>dvc_state := (if \<not> onoff then Off else Ready)\<rparr>;
                     s = put_device_cli device dev s
                 in (Inr (), deposit_event_cli (CeDone who device) s)))))"

section \<open>Hooks and message handlers\<close>

definition on_killed_account_cli ::
  "'a \<Rightarrow> ('a, 'p, 'c, 'q) client_state \<Rightarrow> ('a, 'p, 'c, 'q) client_state" where
  "on_killed_account_cli who s =
    (case c_devices s who of
      None \<Rightarrow> s
    | Some dev \<Rightarrow>
        if dvc_state dev = Off then remove_device_cli who s
        else put_device_cli who (dev\<lparr>dvc_state := Timewait\<rparr>) s)"

definition handle_xcm_message_cli ::
  "('o, 'a, 'p, 'c, 'q) env \<Rightarrow> para_id \<Rightarrow> nat \<Rightarrow> versioned_xcm \<Rightarrow>
   ('a, 'p, 'c, 'q) client_state \<Rightarrow> ('a, 'p, 'c, 'q) client_state" where
  "handle_xcm_message_cli cfg sender sent_at xcm s =
    (let h = hashing cfg xcm
     in case xcm_try_from cfg xcm of
          Inr _ \<Rightarrow> s
        | Inl _ \<Rightarrow> deposit_event_cli (CeBadVersion h) s)"

text \<open>The results of the three reactions are dropped, the state they leave is not.\<close>

definition handle_blob_message_cli ::
  "('o, 'a, 'p, 'c, 'q) env \<Rightarrow> para_id \<Rightarrow> nat \<Rightarrow> byte list \<Rightarrow>
   ('a, 'p, 'c, 'q) client_state \<Rightarrow> ('a, 'p, 'c, 'q) client_state" where
  "handle_blob_message_cli cfg sender sent_at blob s =
    (case decode_with (message_impl cfg) blob of
      None \<Rightarrow> s
    | Some (OrderAccept client devid) \<Rightarrow> snd (on_accept_cli client devid s)
    | Some (OrderReject client devid onoff) \<Rightarrow> snd (on_reject_cli cfg client devid onoff s)
    | Some (OrderDone client devid onoff) \<Rightarrow> snd (on_done_cli cfg client devid onoff s)
    | Some (NewOrder _ _) \<Rightarrow> s)"

section \<open>Everything that can happen to the pallet\<close>

datatype ('o, 'a, 'p) client_input =
    CliTest 'o
  | CliOrder 'o "('a, 'p) order_base"
  | CliCancel 'o 'a
  | CliRegister 'o para_id balance moment bool
  | CliKilled 'a
  | CliXcm para_id nat versioned_xcm
  | CliBlob para_id nat "byte list"

fun dispatch_cli ::
  "('o, 'a, 'p, 'c, 'q) env \<Rightarrow> ('o, 'a, 'p) client_input \<Rightarrow> ('a, 'p, 'c, 'q) client_state \<Rightarrow>
   ('a, 'p, 'c, 'q) client_result" where
  "dispatch_cli cfg (CliTest o') s = test_cli cfg o' s"
| "dispatch_cli cfg (CliOrder o' ob) s = order_cli cfg o' ob s"
| "dispatch_cli cfg (CliCancel o' d) s = cancel_cli cfg o' d s"
| "dispatch_cli cfg (CliRegister o' n p w b) s = register_cli cfg o' n p w b s"
| "dispatch_cli cfg (CliKilled a) s = (Inr (), on_killed_account_cli a s)"
| "dispatch_cli cfg (CliXcm p n x) s = (Inr (), handle_xcm_message_cli cfg p n x s)"
| "dispatch_cli cfg (CliBlob p n b) s = (Inr (), handle_blob_message_cli cfg p n b s)"

end
