(* ===== verification/Scale.thy ===== *)
theory Scale
  imports Codec
begin

text \<open>
  A concrete instance of the primitive codecs at the widths of the runtime: unsigned integers
  as fixed-width little-endian bytes, a boolean as one byte \<open>0\<close> or \<open>1\<close>, an account as its 32
  bytes. It shows that the laws the message codec is proved under can hold, and it is the
  instance on which messages are evaluated.
\<close>

section \<open>Little-endian bytes\<close>

primrec le_bytes :: "nat \<Rightarrow> nat \<Rightarrow> byte list" where
  "le_bytes 0 k = []"
| "le_bytes (Suc n) k = word_of_nat (k mod 256) # le_bytes n (k div 256)"

primrec le_value :: "byte list \<Rightarrow> nat" where
  "le_value [] = 0"
| "le_value (b # bs) = unat b + 256 * le_value bs"

lemma length_le_bytes [simp]: "length (le_bytes n k) = n"
  by (induction n arbitrary: k) simp_all

lemma unat_byte_of_mod [simp]: "unat (word_of_nat (k mod 256) :: byte) = k mod 256"
  by (simp add: unat_of_nat)

lemma le_value_le_bytes: "le_value (le_bytes n k) = k mod 256 ^ n"
proof (induction n arbitrary: k)
  case (Suc n)
  have "k mod 256 + 256 * (k div 256 mod 256 ^ n) = k mod (256 * 256 ^ n)"
    by (simp add: mod_mult2_eq)
  with Suc show ?case by simp
qed simp

lemma le_bytes_le_value: "le_bytes (length bs) (le_value bs) = bs"
proof (induction bs)
  case (Cons b bs)
  have "unat b < 256" using unsigned_less [of b, where 'a = nat] by simp
  then have "(unat b + 256 * le_value bs) mod 256 = unat b"
    and "(unat b + 256 * le_value bs) div 256 = le_value bs" by simp_all
  with Cons show ?case by simp
qed simp

lemma le_value_bound: "le_value bs < 256 ^ length bs"
proof (induction bs)
  case (Cons b bs)
  have "unat b < 256" using unsigned_less [of b, where 'a = nat] by simp
  with Cons show ?case by simp
qed simp

section \<open>Unsigned integers\<close>

definition uint_codec :: "nat \<Rightarrow> 'w::len word codec" where
  "uint_codec n =
    Codec (\<lambda>w. le_bytes n (unat w))
      (\<lambda>bs. if length bs < n then None else Some (word_of_nat (le_value (take n bs)), drop n bs))"

lemma uint_codec_canonical:
  assumes "LENGTH('w::len) = 8 * n"
  shows "canonical_codec (uint_codec n :: 'w word codec)"
proof unfold_locales
  have width: "(256::nat) ^ n = 2 ^ LENGTH('w)"
    by (simp add: assms power_mult)
  fix w :: "'w word" and r
  have "le_value (le_bytes n (unat w)) = unat w"
    using unsigned_less [of w, where 'a = nat] by (simp add: le_value_le_bytes width)
  then show "dec (uint_codec n) (enc (uint_codec n) w @ r) = Some (w, r)"
    by (simp add: uint_codec_def)
next
  have width: "(256::nat) ^ n = 2 ^ LENGTH('w)"
    by (simp add: assms power_mult)
  fix bs and w :: "'w word" and r
  assume "dec (uint_codec n) bs = Some (w, r)"
  then have len: "length (take n bs) = n" and w: "w = word_of_nat (le_value (take n bs))"
    and r: "r = drop n bs"
    by (auto simp: uint_codec_def split: if_splits)
  have "unat w = le_value (take n bs)"
    using le_value_bound [of "take n bs"] w len by (simp add: unat_of_nat width)
  then have "enc (uint_codec n) w = take n bs"
    using le_bytes_le_value [of "take n bs"] len by (simp add: uint_codec_def)
  then show "bs = enc (uint_codec n) w @ r" by (simp add: r)
qed

section \<open>Booleans\<close>

definition bool_codec :: "bool codec" where
  "bool_codec =
    Codec (\<lambda>b. [if b then 1 else 0])
      (\<lambda>bs. case bs of [] \<Rightarrow> None
        | b # bs \<Rightarrow> if b = 0 then Some (False, bs) else if b = 1 then Some (True, bs) else None)"

interpretation bool: canonical_codec bool_codec
  by unfold_locales (auto simp: bool_codec_def split: list.splits if_splits)

section \<open>The runtime's types\<close>

type_synonym account_id = "256 word"
type_synonym order_payload = "64 word"

definition runtime_prims :: "(account_id, order_payload) prims" where
  "runtime_prims =
    \<lparr>acct_c = uint_codec 32, payload_c = uint_codec 8, balance_c = uint_codec 16,
     moment_c = uint_codec 8, para_c = uint_codec 4, bool_c = bool_codec\<rparr>"

interpretation runtime: prim_codecs runtime_prims
  by unfold_locales
    (simp_all add: runtime_prims_def canonical_codec.axioms canonical_codec.dec_some
      prefix_codec.dec_enc uint_codec_canonical bool.canonical_codec_axioms)

abbreviation runtime_messages :: "(account_id, order_payload) xcmp_message codec" where
  "runtime_messages \<equiv> message_codec runtime_prims"

end
