(* ===== verification/Currency.thy ===== *)
theory Currency
  imports Frame
begin

text \<open>
  The contract of \<^verbatim>\<open>ReservableCurrency\<close> as the pallets rely on it, with the existential
  deposit the runtime configures: reserving and unreserving move funds between the free and
  the reserved balance of one account, repatriating moves funds from the reserved balance of
  one account to the free balance of another that must exist, and an account whose total
  falls below the minimum balance is reaped. \<open>ledger_ops\<close> is a ledger that satisfies it.
\<close>

section \<open>The contract\<close>

locale currency =
  fixes cur :: "('a, 'c) currency_ops"
    and free :: "'c \<Rightarrow> 'a \<Rightarrow> nat"
    and reserved :: "'c \<Rightarrow> 'a \<Rightarrow> nat"
    and alive :: "'c \<Rightarrow> 'a \<Rightarrow> bool"
    and ed :: nat
  assumes dead_zero: "\<not> alive c a \<Longrightarrow> free c a = 0 \<and> reserved c a = 0"
    and can_reserve_iff: "can_reserve cur a v c \<longleftrightarrow> (\<exists>c'. reserve cur a v c = (Inr (), c'))"
    and reserve_ok: "reserve cur a v c = (Inr (), c') \<Longrightarrow>
      unat v \<le> free c a \<and> free c' = (free c)(a := free c a - unat v) \<and>
      reserved c' = (reserved c)(a := reserved c a + unat v) \<and> alive c' = alive c"
    and reserve_err: "reserve cur a v c = (Inl e, c') \<Longrightarrow> c' = c"
    and can_reserve_local: "reserve cur a w c = (Inr (), c') \<Longrightarrow> a \<noteq> b \<Longrightarrow>
      can_reserve cur b v c' = can_reserve cur b v c"
    and unreserve_moves: "unreserve cur a v c = (rest, c') \<Longrightarrow>
      free c' = (free c)(a := free c a + min (unat v) (reserved c a)) \<and>
      reserved c' = (reserved c)(a := reserved c a - min (unat v) (reserved c a)) \<and>
      alive c' = alive c"
    and repatriate_err:
      "repatriate_reserved cur a b v Free c = (Inl e, c') \<Longrightarrow> c' = c \<and> \<not> alive c b"
    and repatriate_keeps: "repatriate_reserved cur a b v Free c = (Inr rest, c') \<Longrightarrow>
      m = min (unat v) (reserved c a) \<Longrightarrow>
      m = 0 \<or> a = b \<or> ed \<le> free c a + reserved c a - m \<Longrightarrow>
      free c' = (free c)(b := free c b + m) \<and>
      reserved c' = (reserved c)(a := reserved c a - m) \<and> alive c' = alive c"
    and repatriate_reaps: "repatriate_reserved cur a b v Free c = (Inr rest, c') \<Longrightarrow>
      m = min (unat v) (reserved c a) \<Longrightarrow>
      m \<noteq> 0 \<Longrightarrow> a \<noteq> b \<Longrightarrow> free c a + reserved c a - m < ed \<Longrightarrow>
      free c' = (free c)(a := 0, b := free c b + m) \<and>
      reserved c' = (reserved c)(a := 0) \<and> alive c' = (alive c)(a := False)"
begin

lemma alive_if_reserved: "0 < reserved c a \<Longrightarrow> alive c a"
  using dead_zero [of c a] by fastforce

lemma repatriate_alive:
  assumes "alive c b"
  obtains rest c' where "repatriate_reserved cur a b v Free c = (Inr rest, c')"
proof (cases "repatriate_reserved cur a b v Free c")
  case (Pair r c')
  then show ?thesis using that repatriate_err assms by (cases r) blast+
qed

text \<open>
  What the pallets need of a repatriation, whether or not it reaps the slashed account: the
  accounts other than the slashed one keep their reserves, nobody comes to life, and a
  slashed account that survives has lost exactly the amount moved.
\<close>

lemma repatriate_reserved_le:
  assumes "repatriate_reserved cur a b v Free c = (r, c')"
  shows "alive c' x \<Longrightarrow> alive c x"
    and "x \<noteq> a \<Longrightarrow> reserved c' x = reserved c x"
    and "x \<noteq> a \<Longrightarrow> alive c' x = alive c x"
    and "alive c' a \<Longrightarrow> reserved c a - unat v \<le> reserved c' a"
proof -
  let ?m = "min (unat v) (reserved c a)"
  consider (err) e where "r = Inl e" "c' = c"
    | (keep) rest where "r = Inr rest" "reserved c' = (reserved c)(a := reserved c a - ?m)"
        "alive c' = alive c"
    | (reap) rest where "r = Inr rest" "reserved c' = (reserved c)(a := 0)"
        "alive c' = (alive c)(a := False)"
  proof (cases r)
    case (Inl e)
    with assms repatriate_err show ?thesis by (intro err) auto
  next
    case (Inr rest)
    show ?thesis
    proof (cases "?m = 0 \<or> a = b \<or> ed \<le> free c a + reserved c a - ?m")
      case True
      from repatriate_keeps [OF assms [unfolded Inr] refl True] Inr
      show ?thesis by (intro keep) auto
    next
      case False
      then have "?m \<noteq> 0" "a \<noteq> b" "free c a + reserved c a - ?m < ed" by auto
      from repatriate_reaps [OF assms [unfolded Inr] refl this] Inr
      show ?thesis by (intro reap) auto
    qed
  qed
  then show "alive c' x \<Longrightarrow> alive c x"
    and "x \<noteq> a \<Longrightarrow> reserved c' x = reserved c x"
    and "x \<noteq> a \<Longrightarrow> alive c' x = alive c x"
    and "alive c' a \<Longrightarrow> reserved c a - unat v \<le> reserved c' a"
    by (cases; auto split: if_splits)+
qed

lemma unreserve_effect:
  "free (snd (unreserve cur a v c)) = (free c)(a := free c a + min (unat v) (reserved c a))"
  "reserved (snd (unreserve cur a v c)) =
    (reserved c)(a := reserved c a - min (unat v) (reserved c a))"
  "alive (snd (unreserve cur a v c)) = alive c"
  using unreserve_moves [OF surjective_pairing [of "unreserve cur a v c"]] by auto

lemma reserve_alive: "reserve cur a v c = (r, c') \<Longrightarrow> alive c' = alive c"
  by (cases r) (auto dest: reserve_ok reserve_err)

lemma reserve_reserved_le: "reserve cur a v c = (r, c') \<Longrightarrow> reserved c x \<le> reserved c' x"
  by (cases r) (auto dest: reserve_ok reserve_err)

end

text \<open>
  Two more documented facts, for the properties that follow a repatriation to an account that
  may have been reaped: moving a positive amount to such an account is refused, and moving
  nothing is never refused.
\<close>

locale strict_currency = currency +
  assumes repatriate_dead: "v \<noteq> 0 \<Longrightarrow> a \<noteq> b \<Longrightarrow> \<not> alive c b \<Longrightarrow>
      \<exists>e. repatriate_reserved cur a b v Free c = (Inl e, c)"
    and repatriate_zero: "repatriate_reserved cur a b 0 Free c = (Inr 0, c)"

section \<open>A ledger that meets the contract\<close>

text \<open>
  Accounts hold a free and a reserved amount; an absent account is dead. It is the instance
  on which the theorems that assume the contract are evaluated.
\<close>

record account_data =
  acc_free :: nat
  acc_reserved :: nat

type_synonym 'a ledger = "'a \<Rightarrow> account_data option"

definition ledger_free :: "'a ledger \<Rightarrow> 'a \<Rightarrow> nat" where
  "ledger_free l a = (case l a of None \<Rightarrow> 0 | Some d \<Rightarrow> acc_free d)"

definition ledger_reserved :: "'a ledger \<Rightarrow> 'a \<Rightarrow> nat" where
  "ledger_reserved l a = (case l a of None \<Rightarrow> 0 | Some d \<Rightarrow> acc_reserved d)"

definition ledger_alive :: "'a ledger \<Rightarrow> 'a \<Rightarrow> bool" where
  "ledger_alive l a \<longleftrightarrow> l a \<noteq> None"

definition ledger_reserve ::
  "'a \<Rightarrow> balance \<Rightarrow> 'a ledger \<Rightarrow> (string, unit, 'a ledger) outcome" where
  "ledger_reserve a v l =
    (if v = 0 then (Inr (), l)
     else case l a of
       None \<Rightarrow> (Inl ''InsufficientBalance'', l)
     | Some d \<Rightarrow>
         if acc_free d < unat v then (Inl ''InsufficientBalance'', l)
         else (Inr (), l(a \<mapsto> \<lparr>acc_free = acc_free d - unat v,
                               acc_reserved = acc_reserved d + unat v\<rparr>)))"

definition ledger_can_reserve :: "'a \<Rightarrow> balance \<Rightarrow> 'a ledger \<Rightarrow> bool" where
  "ledger_can_reserve a v l \<longleftrightarrow> v = 0 \<or> (case l a of None \<Rightarrow> False | Some d \<Rightarrow> unat v \<le> acc_free d)"

definition ledger_unreserve :: "'a \<Rightarrow> balance \<Rightarrow> 'a ledger \<Rightarrow> balance \<times> 'a ledger" where
  "ledger_unreserve a v l =
    (case l a of
      None \<Rightarrow> (v, l)
    | Some d \<Rightarrow>
        let m = min (unat v) (acc_reserved d)
        in (of_nat (unat v - m),
            l(a \<mapsto> \<lparr>acc_free = acc_free d + m, acc_reserved = acc_reserved d - m\<rparr>)))"

definition ledger_repatriate ::
  "nat \<Rightarrow> 'a \<Rightarrow> 'a \<Rightarrow> balance \<Rightarrow> balance_status \<Rightarrow> 'a ledger \<Rightarrow> (string, balance, 'a ledger) outcome"
  where
  "ledger_repatriate ed a b v st l =
    (if v = 0 then (Inr 0, l)
     else if a = b then
       (case st of
          Free \<Rightarrow> (case ledger_unreserve a v l of (rest, l') \<Rightarrow> (Inr rest, l'))
        | Reserved \<Rightarrow> (Inr (of_nat (unat v - ledger_reserved l a)), l))
     else case l b of
       None \<Rightarrow> (Inl ''DeadAccount'', l)
     | Some e \<Rightarrow>
         let m = min (unat v) (ledger_reserved l a);
             e' = (case st of Free \<Rightarrow> e\<lparr>acc_free := acc_free e + m\<rparr>
                            | Reserved \<Rightarrow> e\<lparr>acc_reserved := acc_reserved e + m\<rparr>);
             f = ledger_free l a; r = ledger_reserved l a - m
         in (Inr (of_nat (unat v - m)),
             if m = 0 then l
             else if f + r < ed then l(a := None, b \<mapsto> e')
             else l(a \<mapsto> \<lparr>acc_free = f, acc_reserved = r\<rparr>, b \<mapsto> e')))"

definition ledger_ops :: "nat \<Rightarrow> ('a, 'a ledger) currency_ops" where
  "ledger_ops ed =
    \<lparr>can_reserve = ledger_can_reserve, reserve = ledger_reserve,
     unreserve = ledger_unreserve, repatriate_reserved = ledger_repatriate ed\<rparr>"

lemmas ledger_observers = ledger_free_def ledger_reserved_def ledger_alive_def

interpretation ledger: currency "ledger_ops ed" ledger_free ledger_reserved ledger_alive ed
  for ed
proof unfold_locales
  fix l :: "'a ledger" and a
  show "\<not> ledger_alive l a \<Longrightarrow> ledger_free l a = 0 \<and> ledger_reserved l a = 0"
    by (simp add: ledger_observers)
next
  fix l :: "'a ledger" and a v
  show "can_reserve (ledger_ops ed) a v l \<longleftrightarrow> (\<exists>l'. reserve (ledger_ops ed) a v l = (Inr (), l'))"
    by (auto simp: ledger_ops_def ledger_can_reserve_def ledger_reserve_def split: option.splits)
next
  fix l l' :: "'a ledger" and a v
  assume "reserve (ledger_ops ed) a v l = (Inr (), l')"
  then show "unat v \<le> ledger_free l a \<and>
      ledger_free l' = (ledger_free l)(a := ledger_free l a - unat v) \<and>
      ledger_reserved l' = (ledger_reserved l)(a := ledger_reserved l a + unat v) \<and>
      ledger_alive l' = ledger_alive l"
    by (auto simp: ledger_ops_def ledger_reserve_def ledger_observers
        split: option.splits if_splits intro!: ext)
next
  fix l l' :: "'a ledger" and a v e
  show "reserve (ledger_ops ed) a v l = (Inl e, l') \<Longrightarrow> l' = l"
    by (auto simp: ledger_ops_def ledger_reserve_def split: option.splits if_splits)
next
  fix l l' :: "'a ledger" and a b v w
  show "reserve (ledger_ops ed) a w l = (Inr (), l') \<Longrightarrow> a \<noteq> b \<Longrightarrow>
      can_reserve (ledger_ops ed) b v l' = can_reserve (ledger_ops ed) b v l"
    by (auto simp: ledger_ops_def ledger_reserve_def ledger_can_reserve_def
        split: option.splits if_splits)
next
  fix l l' :: "'a ledger" and a v rest
  assume "unreserve (ledger_ops ed) a v l = (rest, l')"
  then show "ledger_free l' =
        (ledger_free l)(a := ledger_free l a + min (unat v) (ledger_reserved l a)) \<and>
      ledger_reserved l' =
        (ledger_reserved l)(a := ledger_reserved l a - min (unat v) (ledger_reserved l a)) \<and>
      ledger_alive l' = ledger_alive l"
    by (auto simp: ledger_ops_def ledger_unreserve_def ledger_observers Let_def
        split: option.splits if_splits intro!: ext)
next
  fix l l' :: "'a ledger" and a b v e
  assume "repatriate_reserved (ledger_ops ed) a b v Free l = (Inl e, l')"
  then show "l' = l \<and> \<not> ledger_alive l b"
    by (auto simp: ledger_ops_def ledger_repatriate_def ledger_observers Let_def
        split: option.splits if_splits prod.splits)
next
  fix l l' :: "'a ledger" and a b v rest m
  assume "repatriate_reserved (ledger_ops ed) a b v Free l = (Inr rest, l')"
    and "m = min (unat v) (ledger_reserved l a)"
    and "m = 0 \<or> a = b \<or> ed \<le> ledger_free l a + ledger_reserved l a - m"
  then show "ledger_free l' = (ledger_free l)(b := ledger_free l b + m) \<and>
      ledger_reserved l' = (ledger_reserved l)(a := ledger_reserved l a - m) \<and>
      ledger_alive l' = ledger_alive l"
    by (auto simp: ledger_ops_def ledger_repatriate_def ledger_unreserve_def ledger_observers
        Let_def min_def unat_eq_zero split: option.splits if_splits prod.splits intro!: ext)
next
  fix l l' :: "'a ledger" and a b v rest m
  assume "repatriate_reserved (ledger_ops ed) a b v Free l = (Inr rest, l')"
    and "m = min (unat v) (ledger_reserved l a)" and "m \<noteq> 0" and "a \<noteq> b"
    and "ledger_free l a + ledger_reserved l a - m < ed"
  then show "ledger_free l' = (ledger_free l)(a := 0, b := ledger_free l b + m) \<and>
      ledger_reserved l' = (ledger_reserved l)(a := 0) \<and>
      ledger_alive l' = (ledger_alive l)(a := False)"
    by (auto simp: ledger_ops_def ledger_repatriate_def ledger_observers
        Let_def min_def split: option.splits if_splits prod.splits intro!: ext)
qed

interpretation ledger_strict:
  strict_currency "ledger_ops ed" ledger_free ledger_reserved ledger_alive ed
  for ed
  by unfold_locales (auto simp: ledger_ops_def ledger_repatriate_def ledger_alive_def)

end
