(* ===== verification/Instance.thy ===== *)
theory Instance
  imports Scale Currency
begin

text \<open>
  Concrete libraries on which the theorems that take them as parameters are evaluated: signed
  origins, the ledger of theory \<open>Currency\<close> with the existential deposit of the runtime, the
  message codec at the widths of the runtime, and an outbound queue that keeps what is sent in
  order, with a variant that refuses everything.
\<close>

type_synonym outbox = "(para_id \<times> byte list) list"
type_synonym signed_origin = "account_id option"

definition signed_by :: "signed_origin \<Rightarrow> string + account_id" where
  "signed_by o' = (case o' of None \<Rightarrow> Inl ''BadOrigin'' | Some a \<Rightarrow> Inr a)"

definition queue_send ::
  "para_id \<Rightarrow> byte list \<Rightarrow> service_quality \<Rightarrow> outbox \<Rightarrow> (string, nat, outbox) outcome" where
  "queue_send para blob quality q = (Inr (length q), q @ [(para, blob)])"

definition closed_send ::
  "para_id \<Rightarrow> byte list \<Rightarrow> service_quality \<Rightarrow> outbox \<Rightarrow> (string, nat, outbox) outcome" where
  "closed_send para blob quality q = (Inl ''NoChannel'', q)"

definition sample_env ::
  "(signed_origin, account_id, order_payload, account_id ledger, outbox) env" where
  "sample_env =
    \<lparr>ensure_signed = signed_by, currency_impl = ledger_ops 500, send_blob_message = queue_send,
     message_impl = runtime_messages, hashing = take 32, xcm_try_from = (\<lambda>_. Inl ''Unsupported'')\<rparr>"

abbreviation funds :: "nat \<Rightarrow> nat \<Rightarrow> account_data option" where
  "funds f r \<equiv> Some \<lparr>acc_free = f, acc_reserved = r\<rparr>"

lemmas sample_defs =
  sample_env_def signed_by_def queue_send_def closed_send_def ledger_ops_def
  ledger_reserve_def ledger_can_reserve_def ledger_unreserve_def ledger_repatriate_def
  ledger_observers

lemmas host_call_defs =
  can_reserve_now_def reserve_now_def unreserve_now_def repatriate_now_def
  send_blob_now_def send_message_now_def

end
