(* ===== verification/ClientSafety.thy ===== *)
theory ClientSafety
  imports Client Instance
begin

text \<open>
  The life cycle of a device as the client chain sees it. \<open>desk_phase\<close> reads the phase off the two
  storage maps and \<open>desk_step\<close> is the automaton; every input of the pallet, whatever it contains,
  moves one device along one edge. An open order belongs to a registered device that is \<open>Ready\<close>
  (its message was not sent), \<open>Busy\<close> or \<open>Timewait\<close> (its account was reaped).
\<close>

section \<open>What each operation does to the storage maps\<close>

lemma reserve_now_cli:
  assumes "reserve_now env a v s = (r, t)"
  shows "c_devices t = c_devices s" "c_orders t = c_orders s" "c_events t = c_events s"
    "h_now t = h_now s" "h_outbox t = h_outbox s"
  by (subst reserve_now_updates [OF assms], simp)+

lemma repatriate_now_cli:
  assumes "repatriate_now env a b v s = (r, t)"
  shows "c_devices t = c_devices s" "c_orders t = c_orders s" "c_events t = c_events s"
    "h_now t = h_now s" "h_outbox t = h_outbox s"
  by (subst repatriate_now_updates [OF assms], simp)+

lemma unreserve_now_cli [simp]:
  "c_devices (unreserve_now env a v s) = c_devices s"
  "c_orders (unreserve_now env a v s) = c_orders s"
  "c_events (unreserve_now env a v s) = c_events s"
  by (simp_all add: unreserve_now_def)

lemma send_message_now_cli:
  assumes "send_message_now env para msg err s = (r, t)"
  shows "c_devices t = c_devices s" "c_orders t = c_orders s" "c_events t = c_events s"
    "h_now t = h_now s" "h_currency t = h_currency s"
  by (subst send_message_now_updates [OF assms], simp)+

lemmas host_calls_cli = reserve_now_cli repatriate_now_cli send_message_now_cli

lemma storage_cli_simps [simp]:
  "c_devices (put_device_cli d p s) = (c_devices s)(d \<mapsto> p)"
  "c_orders (put_device_cli d p s) = c_orders s"
  "c_devices (remove_device_cli d s) = (c_devices s)(d := None)"
  "c_orders (remove_device_cli d s) = c_orders s"
  "c_devices (put_order_cli d od s) = c_devices s"
  "c_orders (put_order_cli d od s) = (c_orders s)(d \<mapsto> od)"
  "c_devices (remove_order_cli d s) = c_devices s"
  "c_orders (remove_order_cli d s) = (c_orders s)(d := None)"
  "c_devices (deposit_event_cli ev s) = c_devices s"
  "c_orders (deposit_event_cli ev s) = c_orders s"
  by (simp_all add: storage_cli_defs)

lemma storage_cli_host [simp]:
  "h_currency (put_device_cli d p s) = h_currency s"
  "h_currency (remove_device_cli d s) = h_currency s"
  "h_currency (put_order_cli d od s) = h_currency s"
  "h_currency (remove_order_cli d s) = h_currency s"
  "h_currency (deposit_event_cli ev s) = h_currency s"
  "h_outbox (put_order_cli d od s) = h_outbox s"
  by (simp_all add: storage_cli_defs)

lemma test_storage:
  "test_cli cfg origin s = (r, t) \<Longrightarrow> c_devices t = c_devices s \<and> c_orders t = c_orders s \<and>
    c_events t = c_events s \<and> h_currency t = h_currency s"
  by (auto simp: test_cli_def send_blob_now_def split: prod.splits sum.splits)

text \<open>An order call either changes no map, or stores the order and then says whether it was sent.\<close>

lemma order_cli_storage:
  assumes "order_cli cfg origin ob s = (r, t)"
  shows "r \<noteq> Inr () \<and> c_devices t = c_devices s \<and> c_orders t = c_orders s \<or>
    (\<exists>who dev. ensure_signed cfg origin = Inr who \<and> c_devices s (ob_device ob) = Some dev \<and>
      dvc_state dev = Ready \<and> c_orders s (ob_device ob) = None \<and>
      c_orders t = (c_orders s)(ob_device ob \<mapsto> order_base_convert ob who) \<and>
      c_devices t = (if r = Inr () then (c_devices s)(ob_device ob \<mapsto> dev\<lparr>dvc_state := Busy\<rparr>)
                     else c_devices s))"
  using assms
  by (auto simp: order_cli_def Let_def and_then_def try_pure_def host_calls_cli
      split: option.splits if_splits prod.splits sum.splits)

lemma order_reject_cli_storage:
  assumes "order_reject_cli cfg who od now d dev s = (r, t)"
  shows "r \<noteq> Inr () \<and> c_devices t = c_devices s \<and> c_orders t = c_orders s \<or>
    r = Inr () \<and> c_devices t = (c_devices s)(d \<mapsto> dev) \<and> c_orders t = (c_orders s)(d := None)"
  using assms
  by (auto simp: order_reject_cli_def Let_def and_then_def host_calls_cli
      split: if_splits prod.splits sum.splits)

lemma cancel_cli_cases:
  assumes "cancel_cli cfg origin x s = (r, t)"
  shows "t = s \<and> r \<noteq> Inr () \<or> (\<exists>od dev. c_orders s x = Some od \<and> c_devices s x = Some dev \<and>
    ensure_signed cfg origin = Inr (o_client od) \<and> o_until od \<le> h_now s \<and>
    order_reject_cli cfg (o_client od) od (h_now s) x dev s = (r, t))"
  using assms
  by (auto simp: cancel_cli_def try_pure_def Let_def ok_or_def not_less
      split: sum.splits option.splits if_splits)

lemma onoff_not_if: "(if \<not> b then Off else Ready) = state_of_onoff b"
  by (simp add: state_of_onoff_def)

lemma on_reject_cases:
  assumes "on_reject_cli cfg who x onoff s = (r, t)"
  shows "t = s \<and> r \<noteq> Inr () \<or> (\<exists>od dev. c_orders s x = Some od \<and> c_devices s x = Some dev \<and>
    order_reject_cli cfg who od (h_now s) x (dev\<lparr>dvc_state := state_of_onoff onoff\<rparr>) s = (r, t))"
  using assms
  by (auto simp: on_reject_cli_def try_pure_def Let_def ok_or_def onoff_not_if
      split: sum.splits option.splits)

lemma on_done_storage:
  assumes "on_done_cli cfg who x onoff s = (r, t)"
  shows "r \<noteq> Inr () \<and> c_devices t = c_devices s \<and> c_orders t = c_orders s \<or>
    (\<exists>od dev. r = Inr () \<and> c_orders s x = Some od \<and> c_devices s x = Some dev \<and>
      c_devices t = (c_devices s)(x \<mapsto> dev\<lparr>dvc_state := state_of_onoff onoff\<rparr>) \<and>
      c_orders t = (c_orders s)(x := None))"
  using assms
  by (auto simp: on_done_cli_def Let_def and_then_def try_pure_def host_calls_cli onoff_not_if
      split: option.splits if_splits prod.splits sum.splits)

section \<open>The life cycle seen from the client chain\<close>

datatype ('a, 'p) desk_phase =
    Unknown                              \<comment> \<open>no profile\<close>
  | Free_desk bool                       \<comment> \<open>no order; ready to take one or not\<close>
  | Placed "('a, 'p) order"              \<comment> \<open>order stored and sent\<close>
  | Undelivered "('a, 'p) order"         \<comment> \<open>order stored, message not sent\<close>
  | Orphaned "('a, 'p) order"            \<comment> \<open>order open, account of the device reaped\<close>
  | Stuck                                \<comment> \<open>busy, but the order was cancelled\<close>
  | Dormant                              \<comment> \<open>account of the device reaped, no order\<close>
  | Lost                                 \<comment> \<open>storage no operation is meant to produce\<close>

fun desk_phase_of :: "device_profile_cli option \<Rightarrow> ('a, 'p) order option \<Rightarrow> ('a, 'p) desk_phase" where
  "desk_phase_of None None = Unknown"
| "desk_phase_of None (Some od) = Lost"
| "desk_phase_of (Some p) None =
    (case dvc_state p of Off \<Rightarrow> Free_desk False | Ready \<Rightarrow> Free_desk True | Busy \<Rightarrow> Stuck
     | Busy2 \<Rightarrow> Lost | Timewait \<Rightarrow> Dormant)"
| "desk_phase_of (Some p) (Some od) =
    (case dvc_state p of Off \<Rightarrow> Lost | Ready \<Rightarrow> Undelivered od | Busy \<Rightarrow> Placed od
     | Busy2 \<Rightarrow> Lost | Timewait \<Rightarrow> Orphaned od)"

definition desk_phase :: "('a, 'p, 'c, 'q) client_state \<Rightarrow> 'a \<Rightarrow> ('a, 'p) desk_phase" where
  "desk_phase s d = desk_phase_of (c_devices s d) (c_orders s d)"

fun order_of :: "('a, 'p) desk_phase \<Rightarrow> ('a, 'p) order option" where
  "order_of (Placed od) = Some od"
| "order_of (Undelivered od) = Some od"
| "order_of (Orphaned od) = Some od"
| "order_of _ = None"

inductive desk_step :: "('a, 'p) desk_phase \<Rightarrow> ('a, 'p) desk_phase \<Rightarrow> bool" where
  desk_registered: "order_of x = None \<Longrightarrow> x \<noteq> Lost \<Longrightarrow> desk_step x (Free_desk b)"
| desk_placed: "desk_step (Free_desk True) (Placed od)"
| desk_undelivered: "desk_step (Free_desk True) (Undelivered od)"
| desk_settled: "order_of x = Some od \<Longrightarrow> desk_step x (Free_desk b)"
| desk_cancelled: "desk_step (Placed od) Stuck"
| desk_orphan_cancelled: "desk_step (Orphaned od) Dormant"
| desk_forgotten: "desk_step (Free_desk False) Unknown"
| desk_dormant: "x = Free_desk True \<or> x = Stuck \<Longrightarrow> desk_step x Dormant"
| desk_orphaned: "order_of x = Some od \<Longrightarrow> desk_step x (Orphaned od)"

inductive_simps desk_step_simps:
  "desk_step Unknown q" "desk_step (Free_desk b) q" "desk_step (Placed od) q"
  "desk_step (Undelivered od) q" "desk_step (Orphaned od) q" "desk_step Stuck q"
  "desk_step Dormant q" "desk_step p Lost"

definition client_wf :: "('a, 'p, 'c, 'q) client_state \<Rightarrow> bool" where
  "client_wf s \<longleftrightarrow> (\<forall>d. desk_phase s d \<noteq> Lost)"

lemma client_wf_order:
  assumes "client_wf s" and "c_orders s d = Some od"
  obtains p where "c_devices s d = Some p"
    "dvc_state p = Ready \<or> dvc_state p = Busy \<or> dvc_state p = Timewait"
  using assms
  by (cases "c_devices s d"; cases "dvc_state (the (c_devices s d))")
    (auto simp: client_wf_def desk_phase_def dest!: spec [of _ d])

lemma client_wf_no_busy2:
  "client_wf s \<Longrightarrow> c_devices s d = Some p \<Longrightarrow> dvc_state p \<noteq> Busy2"
  by (cases "c_orders s d") (auto simp: client_wf_def desk_phase_def dest!: spec [of _ d])

definition desk_move ::
  "('a, 'p, 'c, 'q) client_state \<Rightarrow> ('a, 'p, 'c, 'q) client_state \<Rightarrow> 'a \<Rightarrow> bool" where
  "desk_move s t d \<longleftrightarrow>
    (\<forall>x. x \<noteq> d \<longrightarrow> c_devices t x = c_devices s x \<and> c_orders t x = c_orders s x) \<and>
    (desk_phase t d = desk_phase s d \<or> desk_step (desk_phase s d) (desk_phase t d))"

lemma desk_move_refl:
  "c_devices t = c_devices s \<Longrightarrow> c_orders t = c_orders s \<Longrightarrow> desk_move s t d"
  by (simp add: desk_move_def desk_phase_def)

lemma desk_move_wf:
  assumes "desk_move s t d" and "client_wf s"
  shows "client_wf t"
  unfolding client_wf_def
proof
  fix x
  show "desk_phase t x \<noteq> Lost"
  proof (cases "x = d")
    case True
    with assms show ?thesis by (auto simp: desk_move_def client_wf_def desk_step_simps)
  next
    case False
    with assms(1) have "desk_phase t x = desk_phase s x" by (simp add: desk_move_def desk_phase_def)
    with assms(2) show ?thesis by (simp add: client_wf_def)
  qed
qed

lemma desk_phase_order:
  "desk_phase s d \<noteq> Lost \<Longrightarrow> c_orders s d = Some od \<Longrightarrow> order_of (desk_phase s d) = Some od"
  by (cases "c_devices s d"; cases "dvc_state (the (c_devices s d))") (auto simp: desk_phase_def)

lemma desk_phase_no_order: "c_orders s d = None \<Longrightarrow> order_of (desk_phase s d) = None"
  by (cases "c_devices s d"; cases "dvc_state (the (c_devices s d))") (auto simp: desk_phase_def)

section \<open>Every operation is a legal move\<close>

lemma order_cli_legal:
  assumes "order_cli cfg origin ob s = (r, t)"
  shows "desk_move s t (ob_device ob)"
  using order_cli_storage [OF assms]
  by (auto simp: desk_move_def desk_phase_def desk_step_simps intro: desk_move_refl split: if_splits)

text \<open>Closing an order and leaving the device in the given state.\<close>

lemma close_legal:
  assumes "client_wf s" and "c_orders s d = Some od" and "c_devices s d = Some dev"
    and "c_devices t = (c_devices s)(d \<mapsto> dev\<lparr>dvc_state := st\<rparr>)" and "c_orders t = (c_orders s)(d := None)"
    and "st = dvc_state dev \<or> st = Ready \<or> st = Off"
  shows "desk_move s t d"
proof -
  from client_wf_order [OF assms(1,2)] assms(3)
  have "dvc_state dev = Ready \<or> dvc_state dev = Busy \<or> dvc_state dev = Timewait" by auto
  with assms(2-) show ?thesis
    by (auto simp: desk_move_def desk_phase_def desk_step_simps)
qed

lemma cancel_cli_legal:
  assumes "client_wf s" and "cancel_cli cfg origin d s = (r, t)"
  shows "desk_move s t d"
  using cancel_cli_cases [OF assms(2)]
proof (elim disjE exE conjE)
  fix od dev
  assume *: "c_orders s d = Some od" "c_devices s d = Some dev"
    and "order_reject_cli cfg (o_client od) od (h_now s) d dev s = (r, t)"
  from order_reject_cli_storage [OF this(3)] show ?thesis
  proof (elim disjE conjE)
    assume "c_devices t = (c_devices s)(d \<mapsto> dev)" "c_orders t = (c_orders s)(d := None)"
    with close_legal [OF assms(1) *, of t "dvc_state dev"] show ?thesis by simp
  qed (rule desk_move_refl)
qed (simp add: desk_move_refl)

lemma on_reject_legal:
  assumes "client_wf s" and "on_reject_cli cfg who d onoff s = (r, t)"
  shows "desk_move s t d"
  using on_reject_cases [OF assms(2)]
proof (elim disjE exE conjE)
  fix od dev
  assume *: "c_orders s d = Some od" "c_devices s d = Some dev"
    and "order_reject_cli cfg who od (h_now s) d (dev\<lparr>dvc_state := state_of_onoff onoff\<rparr>) s = (r, t)"
  from order_reject_cli_storage [OF this(3)] show ?thesis
  proof (elim disjE conjE)
    assume "c_devices t = (c_devices s)(d \<mapsto> dev\<lparr>dvc_state := state_of_onoff onoff\<rparr>)"
      "c_orders t = (c_orders s)(d := None)"
    with close_legal [OF assms(1) *, of t "state_of_onoff onoff"] show ?thesis
      by (cases onoff) simp_all
  qed (rule desk_move_refl)
qed (simp add: desk_move_refl)

lemma on_done_legal:
  assumes "client_wf s" and "on_done_cli cfg who d onoff s = (r, t)"
  shows "desk_move s t d"
  using on_done_storage [OF assms(2)]
proof (elim disjE exE conjE)
  fix od dev
  assume "c_orders s d = Some od" "c_devices s d = Some dev"
    "c_devices t = (c_devices s)(d \<mapsto> dev\<lparr>dvc_state := state_of_onoff onoff\<rparr>)"
    "c_orders t = (c_orders s)(d := None)"
  then show ?thesis using close_legal [OF assms(1), of d od dev t "state_of_onoff onoff"]
    by (cases onoff) simp_all
qed (rule desk_move_refl)

lemma register_cli_legal:
  assumes "client_wf s" and "register_cli cfg origin para pen w onoff s = (r, t)"
  shows "\<exists>d. desk_move s t d"
proof (cases "\<exists>d. ensure_signed cfg origin = Inr d \<and> c_orders s d = None")
  case True
  then obtain d where d: "ensure_signed cfg origin = Inr d" "c_orders s d = None" by blast
  with assms(2) have t: "c_devices t = (c_devices s)(d \<mapsto>
      \<lparr>dvc_state = state_of_onoff onoff, dvc_penalty = pen, dvc_wcd = w, dvc_paraid = para\<rparr>)"
    "c_orders t = c_orders s"
    by (auto simp: register_cli_def onoff_not_if state_of_onoff_def)
  then have "desk_phase t d = Free_desk onoff" using d by (simp add: desk_phase_def)
  moreover have "desk_phase s d \<noteq> Lost" using assms(1) by (simp add: client_wf_def)
  ultimately have "desk_move s t d"
    using t desk_registered [OF desk_phase_no_order [OF d(2)]] by (simp add: desk_move_def)
  then show ?thesis ..
next
  case False
  with assms(2) have "t = s"
    by (auto simp: register_cli_def try_pure_def split: sum.splits if_splits)
  then show ?thesis by (simp add: desk_move_refl)
qed

lemma killed_cli_legal:
  assumes "client_wf s"
  shows "desk_move s (on_killed_account_cli d s) d"
proof (cases "c_devices s d")
  case None
  then show ?thesis by (simp add: on_killed_account_cli_def desk_move_refl)
next
  case (Some p)
  have "desk_phase s d \<noteq> Lost" using assms by (simp add: client_wf_def)
  with Some show ?thesis
    by (cases "c_orders s d"; cases "dvc_state p")
      (auto simp: on_killed_account_cli_def desk_move_def desk_phase_def desk_step_simps)
qed

lemma blob_cli_legal:
  assumes "client_wf s"
  shows "\<exists>d. desk_move s (handle_blob_message_cli cfg p n blob s) d"
proof (cases "decode_with (message_impl cfg) blob")
  case None
  then show ?thesis by (auto simp: handle_blob_message_cli_def intro: desk_move_refl)
next
  case (Some m)
  have "desk_move s (deposit_event_cli ev s) d" for ev d by (simp add: desk_move_refl)
  moreover have "desk_move s s d" for d by (simp add: desk_move_refl)
  ultimately show ?thesis
    using Some on_reject_legal [OF assms prod.collapse [symmetric], where cfg = cfg]
      on_done_legal [OF assms prod.collapse [symmetric], where cfg = cfg]
    by (cases m) (simp_all add: handle_blob_message_cli_def on_accept_cli_def, blast+)
qed

lemma dispatch_cli_legal:
  assumes "client_wf s" and "dispatch_cli cfg i s = (r, t)"
  shows "\<exists>d. desk_move s t d"
proof (cases i)
  case (CliTest origin)
  with assms show ?thesis by (auto dest!: test_storage intro: desk_move_refl)
next
  case (CliXcm p n x)
  with assms show ?thesis
    by (auto simp: handle_xcm_message_cli_def Let_def intro!: desk_move_refl split: sum.splits)
qed (use assms in \<open>auto intro: order_cli_legal cancel_cli_legal register_cli_legal
      killed_cli_legal blob_cli_legal\<close>)

section \<open>Runs of the pallet\<close>

definition client_init :: "('a, 'p, 'c, 'q) client_state \<Rightarrow> bool" where
  "client_init s \<longleftrightarrow> c_devices s = Map.empty \<and> c_orders s = Map.empty"

inductive client_step ::
  "('o, 'a, 'p, 'c, 'q) env \<Rightarrow> ('a, 'p, 'c, 'q) client_state \<Rightarrow> ('a, 'p, 'c, 'q) client_state \<Rightarrow> bool"
  for cfg where
  client_input: "dispatch_cli cfg i s = (r, t) \<Longrightarrow> client_step cfg s t"
| client_environment: "h_now s \<le> n \<Longrightarrow>
    client_step cfg s (s\<lparr>h_now := n, h_currency := c, h_outbox := q\<rparr>)"

lemma client_init_wf: "client_init s \<Longrightarrow> client_wf s"
  by (simp add: client_init_def client_wf_def desk_phase_def)

lemma client_step_wf:
  assumes "client_wf s" and "client_step cfg s t"
  shows "client_wf t"
  using assms(2)
proof cases
  case (client_input i r)
  with dispatch_cli_legal [OF assms(1)] obtain d where "desk_move s t d" by blast
  then show ?thesis using assms(1) by (rule desk_move_wf)
next
  case (client_environment n c q)
  with assms(1) show ?thesis by (simp add: client_wf_def desk_phase_def)
qed

interpretation client_run: invariant_system client_init "client_step cfg" client_wf for cfg
  by unfold_locales (auto intro: client_init_wf client_step_wf)

end
