(* ===== verification/Escrow.thy ===== *)
theory Escrow
  imports Currency
begin

text \<open>
  The abstract contract both pallets implement on top of the currency: while an order is open
  locally, the client's fee and the device's penalty are held in reserve; closing the order
  releases, pays or forfeits them. A book lists the open orders with what is held for them,
  \<open>owed\<close> sums what a book holds from an account, and a book is covered when every living account
  has at least that much in reserve. The lemmas say how each settlement of the pallets moves a
  covered book to a covered book.
\<close>

section \<open>Books\<close>

record 'a deposit =
  dep_client :: 'a
  dep_fee :: balance
  dep_penalty :: balance

definition share :: "'a \<Rightarrow> 'a \<Rightarrow> 'a deposit \<Rightarrow> nat" where
  "share a d x = (if dep_client x = a then unat (dep_fee x) else 0)
               + (if d = a then unat (dep_penalty x) else 0)"

definition owed :: "('a \<Rightarrow> 'a deposit option) \<Rightarrow> 'a \<Rightarrow> nat" where
  "owed b a = (\<Sum>d\<in>dom b. share a d (the (b d)))"

definition covers ::
  "('c \<Rightarrow> 'a \<Rightarrow> nat) \<Rightarrow> ('c \<Rightarrow> 'a \<Rightarrow> bool) \<Rightarrow> 'c \<Rightarrow> ('a \<Rightarrow> nat) \<Rightarrow> bool" where
  "covers reserved alive c n \<longleftrightarrow> (\<forall>a. alive c a \<longrightarrow> n a \<le> reserved c a)"

lemma owed_empty [simp]: "owed Map.empty a = 0"
  by (simp add: owed_def)

lemma owed_open:
  "finite (dom b) \<Longrightarrow> b d = None \<Longrightarrow> owed (b(d \<mapsto> x)) a = share a d x + owed b a"
  unfolding owed_def by (rule sum_dom_upd_fresh)

lemma owed_close:
  "finite (dom b) \<Longrightarrow> b d = Some x \<Longrightarrow> owed b a = share a d x + owed (b(d := None)) a"
  unfolding owed_def by (rule sum_dom_split)

lemma owed_close_le: "finite (dom b) \<Longrightarrow> owed (b(d := None)) a \<le> owed b a"
  by (cases "b d") (auto simp: owed_close fun_upd_idem)

lemma covers_mono: "covers reserved alive c n \<Longrightarrow> (\<And>a. m a \<le> n a) \<Longrightarrow> covers reserved alive c m"
  unfolding covers_def by (meson order_trans)

lemma share_le_owed: "finite (dom b) \<Longrightarrow> b d = Some x \<Longrightarrow> share a d x \<le> owed b a"
  by (simp add: owed_close)

text \<open>What remains owed once the fee and the penalty of one order have been let go.\<close>

definition after_settlement :: "('a \<Rightarrow> nat) \<Rightarrow> 'a \<Rightarrow> 'a deposit \<Rightarrow> 'a \<Rightarrow> nat" where
  "after_settlement n d x =
    (let n' = n(dep_client x := n (dep_client x) - unat (dep_fee x))
     in n'(d := n' d - unat (dep_penalty x)))"

lemma owed_after_settlement:
  "finite (dom b) \<Longrightarrow> b d = Some x \<Longrightarrow> owed (b(d := None)) a \<le> after_settlement (owed b) d x a"
  using owed_close [of b d x a]
  by (auto simp: after_settlement_def share_def Let_def split: if_splits)

section \<open>Changes by the rest of the chain\<close>

text \<open>
  Between two inputs the other pallets may change balances. Two things are excluded: taking
  from what an account has in reserve, which \<^verbatim>\<open>pallet_balances\<close> rules out for the calls a user
  can make, and funding a reaped account again while the book still lists a deposit of it, since
  the reserve of that account was lost when it was reaped.
\<close>

definition outside_change ::
  "('c \<Rightarrow> 'a \<Rightarrow> nat) \<Rightarrow> ('c \<Rightarrow> 'a \<Rightarrow> bool) \<Rightarrow> ('a \<Rightarrow> nat) \<Rightarrow> 'c \<Rightarrow> 'c \<Rightarrow> bool" where
  "outside_change reserved alive n c c' \<longleftrightarrow>
    (\<forall>a. alive c' a \<longrightarrow> reserved c a \<le> reserved c' a \<and> (alive c a \<or> n a = 0))"

lemma outside_change_covers:
  assumes "outside_change reserved alive n c c'" and "covers reserved alive c n"
  shows "covers reserved alive c' n"
  unfolding covers_def
proof (intro allI impI)
  fix a
  assume "alive c' a"
  with assms(1) have "reserved c a \<le> reserved c' a" "alive c a \<or> n a = 0"
    by (auto simp: outside_change_def)
  with assms(2) show "n a \<le> reserved c' a" unfolding covers_def by fastforce
qed

section \<open>Settlements on a currency\<close>

context currency
begin

lemma covers_reserve:
  "covers reserved alive c n \<Longrightarrow> reserve cur a v c = (r, c') \<Longrightarrow> covers reserved alive c' n"
  unfolding covers_def
  by (metis reserve_alive reserve_reserved_le order_trans)

lemma covers_reserve_adds:
  assumes "covers reserved alive c n" and "reserve cur a v c = (Inr (), c')"
  shows "covers reserved alive c' (n(a := n a + unat v))"
  using assms reserve_ok [OF assms(2)] by (auto simp: covers_def)

lemma covers_unreserve:
  assumes "covers reserved alive c n"
  shows "covers reserved alive (snd (unreserve cur a v c)) (n(a := n a - unat v))"
  using assms by (fastforce simp: covers_def unreserve_effect)

lemma covers_unreserve_dead:
  assumes "covers reserved alive c n" and "\<not> alive c a"
  shows "covers reserved alive (snd (unreserve cur a v c)) n"
  using assms by (auto simp: covers_def unreserve_effect)

lemma covers_repatriate:
  assumes "covers reserved alive c n" and "repatriate_reserved cur a b v Free c = (r, c')"
  shows "covers reserved alive c' (n(a := n a - unat v))"
  unfolding covers_def
proof (intro allI impI)
  fix x
  assume x: "alive c' x"
  note le = repatriate_reserved_le [OF assms(2)]
  from le(1) [OF x] assms(1) have "n x \<le> reserved c x" by (simp add: covers_def)
  with le(2) [of x] le(4) x show "(n(a := n a - unat v)) x \<le> reserved c' x"
    by (cases "x = a") fastforce+
qed

text \<open>Opening an order: penalty first, then fee, as both pallets reserve them.\<close>

lemma covers_open:
  assumes "covers reserved alive c (owed b)" and "finite (dom b)" and "b d = None"
    and "reserve cur d (dep_penalty x) c = (Inr (), c1)"
    and "reserve cur (dep_client x) (dep_fee x) c1 = (Inr (), c2)"
  shows "covers reserved alive c2 (owed (b(d \<mapsto> x)))"
proof (rule covers_mono)
  show "covers reserved alive c2
      ((owed b)(d := owed b d + unat (dep_penalty x),
        dep_client x := ((owed b)(d := owed b d + unat (dep_penalty x))) (dep_client x)
                        + unat (dep_fee x)))"
    by (intro covers_reserve_adds [OF _ assms(5)] covers_reserve_adds [OF assms(1) assms(4)])
  show "owed (b(d \<mapsto> x)) a \<le> ((owed b)(d := owed b d + unat (dep_penalty x),
        dep_client x := ((owed b)(d := owed b d + unat (dep_penalty x))) (dep_client x)
                        + unat (dep_fee x))) a" for a
    using assms(2,3) by (simp add: owed_open share_def)
qed

text \<open>Rejecting in time: both deposits go back to their owners.\<close>

lemma covers_release:
  assumes "covers reserved alive c (owed b)" and "finite (dom b)" and "b d = Some x"
  shows "covers reserved alive
    (snd (unreserve cur d (dep_penalty x) (snd (unreserve cur (dep_client x) (dep_fee x) c))))
    (owed (b(d := None)))"
  by (rule covers_mono [OF covers_unreserve [OF covers_unreserve [OF assms(1)]]])
    (use owed_after_settlement [OF assms(2,3)] in \<open>simp add: after_settlement_def Let_def\<close>)

text \<open>
  Rejecting an overdue order: the fee goes back, the penalty goes to the client. If the
  client's account is dead the second call fails, and the first has moved nothing.
\<close>

lemma covers_forfeit:
  assumes "covers reserved alive c (owed b)" and "finite (dom b)" and "b d = Some x"
    and "repatriate_reserved cur d (dep_client x) (dep_penalty x) Free
          (snd (unreserve cur (dep_client x) (dep_fee x) c)) = (r, c')"
  shows "covers reserved alive c' (owed (b(d := None)))"
  by (rule covers_mono [OF covers_repatriate [OF covers_unreserve [OF assms(1)] assms(4)]])
    (use owed_after_settlement [OF assms(2,3)] in \<open>simp add: after_settlement_def Let_def\<close>)

lemma covers_forfeit_failed:
  assumes "covers reserved alive c n"
    and "repatriate_reserved cur d cl pen Free (snd (unreserve cur cl fee c)) = (Inl e, c')"
  shows "covers reserved alive c' n"
proof -
  from repatriate_err [OF assms(2)] have "c' = snd (unreserve cur cl fee c)"
    and "\<not> alive c cl" by (auto simp: unreserve_effect)
  with covers_unreserve_dead [OF assms(1)] show ?thesis by simp
qed

text \<open>Completing an order: the fee is paid, then the penalty is released or forfeited.\<close>

lemma covers_pay_release:
  assumes "covers reserved alive c (owed b)" and "finite (dom b)" and "b d = Some x"
    and "repatriate_reserved cur (dep_client x) d (dep_fee x) Free c = (r, c')"
  shows "covers reserved alive (snd (unreserve cur d (dep_penalty x) c')) (owed (b(d := None)))"
  by (rule covers_mono [OF covers_unreserve [OF covers_repatriate [OF assms(1,4)]]])
    (use owed_after_settlement [OF assms(2,3)] in \<open>simp add: after_settlement_def Let_def\<close>)

lemma covers_pay_forfeit:
  assumes "covers reserved alive c (owed b)" and "finite (dom b)" and "b d = Some x"
    and "repatriate_reserved cur (dep_client x) d (dep_fee x) Free c = (r, c')"
    and "repatriate_reserved cur d cl (dep_penalty x) Free c' = (r', c'')"
  shows "covers reserved alive c'' (owed (b(d := None)))"
  by (rule covers_mono [OF covers_repatriate [OF covers_repatriate [OF assms(1,4)] assms(5)]])
    (use owed_after_settlement [OF assms(2,3)] in \<open>simp add: after_settlement_def Let_def\<close>)

lemma covers_close:
  "covers reserved alive c (owed b) \<Longrightarrow> finite (dom b) \<Longrightarrow>
    covers reserved alive c (owed (b(d := None)))"
  by (erule covers_mono) (erule owed_close_le)

lemma covers_pay_failed:
  assumes "covers reserved alive c (owed b)" and "finite (dom b)"
    and "repatriate_reserved cur a d v Free c = (Inl e, c')"
  shows "covers reserved alive c' (owed (b(d := None)))"
  using covers_close [OF assms(1,2)] repatriate_err [OF assms(3)] by simp

text \<open>
  The payment of the fee can reap the client, and then the late penalty finds no account to go
  to: the order stays open, but nothing is owed to it by the client any more.
\<close>

lemma covers_pay_forfeit_failed:
  assumes "covers reserved alive c n"
    and "repatriate_reserved cur cl d fee Free c = (r, c')"
    and "repatriate_reserved cur d cl pen Free c' = (Inl e, c'')"
  shows "covers reserved alive c'' n"
  unfolding covers_def
proof (intro allI impI)
  fix a
  assume a: "alive c'' a"
  from repatriate_err [OF assms(3)] have "c'' = c'" and "\<not> alive c' cl" by auto
  with a repatriate_reserved_le [OF assms(2)] have "a \<noteq> cl" "alive c a" "reserved c'' a = reserved c a"
    by metis+
  with assms(1) show "n a \<le> reserved c'' a" by (simp add: covers_def)
qed

end

section \<open>The four ways to settle an order\<close>

text \<open>
  What the contract promises about the balances of the two parties, free and reserved: a
  rejection in time releases both deposits, an overdue one fines the device, a completion pays
  the fee and releases the penalty, a late completion pays the fee and fines the device. Nobody
  else's balance changes.
\<close>

datatype settlement = Release | Fine | Pay | Pay_and_fine

type_synonym 'a balances = "('a \<Rightarrow> nat) \<times> ('a \<Rightarrow> nat)"

fun settle :: "settlement \<Rightarrow> 'a \<Rightarrow> 'a deposit \<Rightarrow> 'a balances \<Rightarrow> 'a balances" where
  "settle k d x (f, r) =
    (let c = dep_client x; fee = unat (dep_fee x); pen = unat (dep_penalty x) in
     (case k of
        Release \<Rightarrow> f(c := f c + fee, d := f d + pen)
      | Fine \<Rightarrow> f(c := f c + fee + pen)
      | Pay \<Rightarrow> f(d := f d + fee + pen)
      | Pay_and_fine \<Rightarrow> f(d := f d + fee, c := f c + pen),
      r(c := r c - fee, d := r d - pen)))"

definition settlement_of :: "bool \<Rightarrow> moment \<Rightarrow> moment \<Rightarrow> settlement" where
  "settlement_of completed now until =
    (if completed then (if now < until then Pay else Pay_and_fine)
     else if now < until then Release else Fine)"

text \<open>
  What a settlement needs of the two accounts: both exist, they are not the same, and neither
  falls below the existential deposit by what it pays.
\<close>

definition can_settle ::
  "('c \<Rightarrow> 'a \<Rightarrow> nat) \<Rightarrow> ('c \<Rightarrow> 'a \<Rightarrow> nat) \<Rightarrow> ('c \<Rightarrow> 'a \<Rightarrow> bool) \<Rightarrow> nat \<Rightarrow> 'c \<Rightarrow> 'a \<Rightarrow> 'a deposit \<Rightarrow> bool"
  where
  "can_settle free reserved alive ed c d x \<longleftrightarrow>
    alive c (dep_client x) \<and> alive c d \<and> dep_client x \<noteq> d \<and>
    ed \<le> free c (dep_client x) + reserved c (dep_client x) - unat (dep_fee x) \<and>
    ed \<le> free c d + reserved c d - unat (dep_penalty x)"

context currency
begin

lemma unreserve_all:
  assumes "unat v \<le> reserved c a"
  shows "free (snd (unreserve cur a v c)) = (free c)(a := free c a + unat v)"
    and "reserved (snd (unreserve cur a v c)) = (reserved c)(a := reserved c a - unat v)"
    and "alive (snd (unreserve cur a v c)) = alive c"
  using assms by (simp_all add: unreserve_effect min_absorb1)

lemma repatriate_all:
  assumes "unat v \<le> reserved c a" and "alive c b" and "a \<noteq> b"
    and "ed \<le> free c a + reserved c a - unat v"
  obtains rest c' where "repatriate_reserved cur a b v Free c = (Inr rest, c')"
    and "free c' = (free c)(b := free c b + unat v)"
    and "reserved c' = (reserved c)(a := reserved c a - unat v)"
    and "alive c' = alive c"
proof -
  obtain rest c' where ok: "repatriate_reserved cur a b v Free c = (Inr rest, c')"
    using repatriate_alive [OF assms(2)] by metis
  have m: "unat v = min (unat v) (reserved c a)" using assms(1) by simp
  from repatriate_keeps [OF ok m] assms(4) show ?thesis by (intro that [OF ok]) auto
qed

text \<open>The calls the pallets make implement the four settlements.\<close>


lemma release_settles:
  assumes "dep_client x \<noteq> d"
    and "unat (dep_fee x) \<le> reserved c (dep_client x)" and "unat (dep_penalty x) \<le> reserved c d"
  defines "c' \<equiv> snd (unreserve cur d (dep_penalty x) (snd (unreserve cur (dep_client x) (dep_fee x) c)))"
  shows "(free c', reserved c') = settle Release d x (free c, reserved c)"
proof -
  note c1 = unreserve_all [OF assms(2)]
  have "unat (dep_penalty x) \<le> reserved (snd (unreserve cur (dep_client x) (dep_fee x) c)) d"
    using assms(1,3) c1 by simp
  from unreserve_all [OF this] c1 assms(1) show ?thesis by (simp add: c'_def Let_def)
qed

lemma fine_settles:
  assumes "dep_client x \<noteq> d" and "alive c (dep_client x)"
    and "unat (dep_fee x) \<le> reserved c (dep_client x)" and "unat (dep_penalty x) \<le> reserved c d"
    and "ed \<le> free c d + reserved c d - unat (dep_penalty x)"
  obtains rest c' where "repatriate_reserved cur d (dep_client x) (dep_penalty x) Free
      (snd (unreserve cur (dep_client x) (dep_fee x) c)) = (Inr rest, c')"
    and "(free c', reserved c') = settle Fine d x (free c, reserved c)"
proof -
  let ?c1 = "snd (unreserve cur (dep_client x) (dep_fee x) c)"
  note c1 = unreserve_all [OF assms(3)]
  have pen: "unat (dep_penalty x) \<le> reserved ?c1 d" and live: "alive ?c1 (dep_client x)"
    and rich: "ed \<le> free ?c1 d + reserved ?c1 d - unat (dep_penalty x)"
    using assms c1 by simp_all
  obtain rest c' where "repatriate_reserved cur d (dep_client x) (dep_penalty x) Free ?c1 = (Inr rest, c')"
    "free c' = (free ?c1)(dep_client x := free ?c1 (dep_client x) + unat (dep_penalty x))"
    "reserved c' = (reserved ?c1)(d := reserved ?c1 d - unat (dep_penalty x))"
    by (rule repatriate_all [OF pen live assms(1) [symmetric] rich])
  with c1 assms(1) show ?thesis by (intro that) (simp_all add: Let_def)
qed

lemma pay_settles:
  assumes "dep_client x \<noteq> d" and "alive c d"
    and "unat (dep_fee x) \<le> reserved c (dep_client x)" and "unat (dep_penalty x) \<le> reserved c d"
    and "ed \<le> free c (dep_client x) + reserved c (dep_client x) - unat (dep_fee x)"
  obtains rest c1 where "repatriate_reserved cur (dep_client x) d (dep_fee x) Free c = (Inr rest, c1)"
    and "let c' = snd (unreserve cur d (dep_penalty x) c1) in
      (free c', reserved c') = settle Pay d x (free c, reserved c)"
proof -
  obtain rest c1 where c1: "repatriate_reserved cur (dep_client x) d (dep_fee x) Free c = (Inr rest, c1)"
    "free c1 = (free c)(d := free c d + unat (dep_fee x))"
    "reserved c1 = (reserved c)(dep_client x := reserved c (dep_client x) - unat (dep_fee x))"
    by (rule repatriate_all [OF assms(3,2,1,5)])
  then have "unat (dep_penalty x) \<le> reserved c1 d" using assms(1,4) by simp
  from unreserve_all [OF this] c1 assms(1) show ?thesis by (intro that) (simp_all add: Let_def)
qed

lemma pay_and_fine_settles:
  assumes "dep_client x \<noteq> d" and "alive c d" and "alive c (dep_client x)"
    and "unat (dep_fee x) \<le> reserved c (dep_client x)" and "unat (dep_penalty x) \<le> reserved c d"
    and "ed \<le> free c (dep_client x) + reserved c (dep_client x) - unat (dep_fee x)"
    and "ed \<le> free c d + unat (dep_fee x) + reserved c d - unat (dep_penalty x)"
  obtains rest c1 rest' c' where
    "repatriate_reserved cur (dep_client x) d (dep_fee x) Free c = (Inr rest, c1)"
    and "repatriate_reserved cur d (dep_client x) (dep_penalty x) Free c1 = (Inr rest', c')"
    and "(free c', reserved c') = settle Pay_and_fine d x (free c, reserved c)"
proof -
  obtain rest c1 where c1: "repatriate_reserved cur (dep_client x) d (dep_fee x) Free c = (Inr rest, c1)"
    "free c1 = (free c)(d := free c d + unat (dep_fee x))"
    "reserved c1 = (reserved c)(dep_client x := reserved c (dep_client x) - unat (dep_fee x))"
    "alive c1 = alive c"
    by (rule repatriate_all [OF assms(4,2,1,6)])
  then have pen: "unat (dep_penalty x) \<le> reserved c1 d" and live: "alive c1 (dep_client x)"
    and rich: "ed \<le> free c1 d + reserved c1 d - unat (dep_penalty x)"
    using assms by simp_all
  obtain rest' c' where c': "repatriate_reserved cur d (dep_client x) (dep_penalty x) Free c1 = (Inr rest', c')"
    "free c' = (free c1)(dep_client x := free c1 (dep_client x) + unat (dep_penalty x))"
    "reserved c' = (reserved c1)(d := reserved c1 d - unat (dep_penalty x))"
    by (rule repatriate_all [OF pen live assms(1) [symmetric] rich])
  show ?thesis by (rule that [OF c1(1) c'(1)]) (use c1 c' assms(1) in \<open>simp add: Let_def\<close>)
qed

end

section \<open>A completion when an account does not survive it\<close>

text \<open>
  An account survives a payment when it pays nothing or keeps the existential deposit; otherwise
  the currency reaps it. A completion pays the fee first. In time it then releases the penalty;
  late it fines the device, so a client that does not survive its fee is gone when the fine is
  to reach it.
\<close>

definition survives ::
  "('c \<Rightarrow> 'a \<Rightarrow> nat) \<Rightarrow> ('c \<Rightarrow> 'a \<Rightarrow> nat) \<Rightarrow> nat \<Rightarrow> 'c \<Rightarrow> 'a \<Rightarrow> balance \<Rightarrow> bool" where
  "survives free reserved ed c a v \<longleftrightarrow> v = 0 \<or> ed \<le> free c a + reserved c a - unat v"

text \<open>
  The outcome of a completion by device \<open>d\<close> of an order with the deposits \<open>x\<close>: whether it
  succeeds, and the balances it leaves, from those of \<open>c\<close> to those of \<open>c'\<close>.
\<close>

definition done_outcome ::
  "('c \<Rightarrow> 'a \<Rightarrow> nat) \<Rightarrow> ('c \<Rightarrow> 'a \<Rightarrow> nat) \<Rightarrow> nat \<Rightarrow> bool \<Rightarrow> 'a \<Rightarrow> 'a deposit \<Rightarrow> 'c \<Rightarrow> bool \<Rightarrow> 'c \<Rightarrow> bool"
  where
  "done_outcome free reserved ed in_time d x c ok c' \<longleftrightarrow>
    (let f = free c; v = reserved c; who = dep_client x;
         fee = unat (dep_fee x); pen = unat (dep_penalty x);
         kept = survives free reserved ed c who (dep_fee x);
         dev_kept = (pen = 0 \<or> ed \<le> f d + fee + v d - pen)
     in
       ok = (in_time \<or> kept \<or> pen = 0) \<and>
       free c' =
         (if in_time then f(who := if kept then f who else 0, d := f d + fee + pen)
          else if \<not> kept then f(who := 0, d := f d + fee)
          else f(who := f who + pen, d := if dev_kept then f d + fee else 0)) \<and>
       reserved c' =
         (if in_time then v(who := if kept then v who - fee else 0, d := v d - pen)
          else if \<not> kept then v(who := 0)
          else v(who := v who - fee, d := if dev_kept then v d - pen else 0)))"

context currency
begin

lemma repatriate_survives:
  assumes "unat v \<le> reserved c a" and "a \<noteq> b" and "alive c b"
    and "survives free reserved ed c a v"
  obtains rest c' where "repatriate_reserved cur a b v Free c = (Inr rest, c')"
    and "free c' = (free c)(b := free c b + unat v)"
    and "reserved c' = (reserved c)(a := reserved c a - unat v)" and "alive c' = alive c"
proof -
  obtain rest c' where ok: "repatriate_reserved cur a b v Free c = (Inr rest, c')"
    using repatriate_alive [OF assms(3)] by metis
  have "unat v = min (unat v) (reserved c a)" using assms(1) by simp
  from repatriate_keeps [OF ok this] assms(4) show ?thesis
    by (intro that [OF ok]) (auto simp: survives_def)
qed

lemma repatriate_gone:
  assumes "unat v \<le> reserved c a" and "a \<noteq> b" and "alive c b"
    and "\<not> survives free reserved ed c a v"
  obtains rest c' where "repatriate_reserved cur a b v Free c = (Inr rest, c')"
    and "free c' = (free c)(a := 0, b := free c b + unat v)"
    and "reserved c' = (reserved c)(a := 0)" and "alive c' = (alive c)(a := False)"
proof -
  obtain rest c' where ok: "repatriate_reserved cur a b v Free c = (Inr rest, c')"
    using repatriate_alive [OF assms(3)] by metis
  have m: "unat v = min (unat v) (reserved c a)" using assms(1) by simp
  from assms(4) have "unat v \<noteq> 0" "free c a + reserved c a - unat v < ed"
    by (auto simp: survives_def unat_eq_zero)
  from repatriate_reaps [OF ok m this(1) assms(2) this(2)] show ?thesis by (intro that [OF ok]) auto
qed

text \<open>The payment of the fee, which every completion begins with.\<close>

lemma fee_payment:
  assumes "who \<noteq> d" and "alive c d" and "unat fee \<le> reserved c who"
  obtains rest c1 where "repatriate_reserved cur who d fee Free c = (Inr rest, c1)"
    and "free c1 = (free c)(who := if survives free reserved ed c who fee then free c who else 0,
      d := free c d + unat fee)"
    and "reserved c1 = (reserved c)
      (who := if survives free reserved ed c who fee then reserved c who - unat fee else 0)"
    and "alive c1 = (alive c)(who := alive c who \<and> survives free reserved ed c who fee)"
proof (cases "survives free reserved ed c who fee")
  case True
  obtain rest c1 where "repatriate_reserved cur who d fee Free c = (Inr rest, c1)"
    "free c1 = (free c)(d := free c d + unat fee)"
    "reserved c1 = (reserved c)(who := reserved c who - unat fee)" "alive c1 = alive c"
    by (rule repatriate_survives [OF assms(3,1,2) True])
  with True show ?thesis by (intro that [of rest c1]) simp_all
next
  case False
  obtain rest c1 where "repatriate_reserved cur who d fee Free c = (Inr rest, c1)"
    "free c1 = (free c)(who := 0, d := free c d + unat fee)"
    "reserved c1 = (reserved c)(who := 0)" "alive c1 = (alive c)(who := False)"
    by (rule repatriate_gone [OF assms(3,1,2) False])
  with False show ?thesis by (intro that [of rest c1]) simp_all
qed

lemma payment_in_time:
  assumes "dep_client x \<noteq> d" and "alive c d"
    and "unat (dep_fee x) \<le> reserved c (dep_client x)" and "unat (dep_penalty x) \<le> reserved c d"
  obtains rest c1 where
    "repatriate_reserved cur (dep_client x) d (dep_fee x) Free c = (Inr rest, c1)"
    and "done_outcome free reserved ed True d x c True (snd (unreserve cur d (dep_penalty x) c1))"
proof -
  obtain rest c1 where c1: "repatriate_reserved cur (dep_client x) d (dep_fee x) Free c = (Inr rest, c1)"
    "free c1 = (free c)(dep_client x := if survives free reserved ed c (dep_client x) (dep_fee x)
        then free c (dep_client x) else 0, d := free c d + unat (dep_fee x))"
    "reserved c1 = (reserved c)(dep_client x := if survives free reserved ed c (dep_client x) (dep_fee x)
        then reserved c (dep_client x) - unat (dep_fee x) else 0)"
    by (rule fee_payment [OF assms(1-3)])
  then have "unat (dep_penalty x) \<le> reserved c1 d" using assms(1,4) by simp
  from unreserve_all [OF this] c1 assms(1) show ?thesis
    by (intro that [OF c1(1)]) (simp add: done_outcome_def Let_def)
qed

end

context strict_currency
begin

lemma payment_late:
  assumes "dep_client x \<noteq> d" and "alive c (dep_client x)" and "alive c d"
    and "unat (dep_fee x) \<le> reserved c (dep_client x)" and "unat (dep_penalty x) \<le> reserved c d"
  obtains rest c1 r2 c2 where
    "repatriate_reserved cur (dep_client x) d (dep_fee x) Free c = (Inr rest, c1)"
    and "repatriate_reserved cur d (dep_client x) (dep_penalty x) Free c1 = (r2, c2)"
    and "done_outcome free reserved ed False d x c (\<exists>y. r2 = Inr y) c2"
proof -
  let ?who = "dep_client x" and ?pen = "dep_penalty x"
  let ?kept = "survives free reserved ed c ?who (dep_fee x)"
  obtain rest c1 where c1: "repatriate_reserved cur ?who d (dep_fee x) Free c = (Inr rest, c1)"
    "free c1 = (free c)(?who := if ?kept then free c ?who else 0, d := free c d + unat (dep_fee x))"
    "reserved c1 = (reserved c)(?who := if ?kept then reserved c ?who - unat (dep_fee x) else 0)"
    "alive c1 = (alive c)(?who := alive c ?who \<and> ?kept)"
    by (rule fee_payment [OF assms(1,3,4)])
  have pen: "unat ?pen \<le> reserved c1 d" "d \<noteq> ?who" and live: "alive c1 ?who \<longleftrightarrow> ?kept"
    and left: "survives free reserved ed c1 d ?pen \<longleftrightarrow>
      ?pen = 0 \<or> ed \<le> free c d + unat (dep_fee x) + reserved c d - unat ?pen"
    using assms c1 by (simp_all add: survives_def)
  consider (zero) "\<not> ?kept" "?pen = 0" | (dead) "\<not> ?kept" "?pen \<noteq> 0"
    | (kept) "?kept" "survives free reserved ed c1 d ?pen"
    | (gone) "?kept" "\<not> survives free reserved ed c1 d ?pen" by blast
  then show ?thesis
  proof cases
    case zero
    have z: "repatriate_reserved cur d ?who ?pen Free c1 = (Inr 0, c1)"
      unfolding zero by (rule repatriate_zero)
    show ?thesis
      by (rule that [OF c1(1) z])
        (use c1 zero assms(1) in \<open>simp add: done_outcome_def Let_def\<close>)
  next
    case dead
    with live repatriate_dead [OF dead(2) pen(2)] obtain e
      where e: "repatriate_reserved cur d ?who ?pen Free c1 = (Inl e, c1)" by metis
    show ?thesis
      by (rule that [OF c1(1) e])
        (use c1 dead in \<open>simp add: done_outcome_def Let_def unat_eq_zero unat_gt_0\<close>)
  next
    case kept
    with live have live: "alive c1 ?who" by simp
    obtain rest2 c2 where c2: "repatriate_reserved cur d ?who ?pen Free c1 = (Inr rest2, c2)"
      "free c2 = (free c1)(?who := free c1 ?who + unat ?pen)"
      "reserved c2 = (reserved c1)(d := reserved c1 d - unat ?pen)"
      by (rule repatriate_survives [OF pen live kept(2)])
    show ?thesis
      by (rule that [OF c1(1) c2(1)])
        (use c1 c2 kept left assms(1) in \<open>simp add: done_outcome_def Let_def unat_eq_zero fun_upd_twist\<close>)
  next
    case gone
    with live have live: "alive c1 ?who" by simp
    obtain rest2 c2 where c2: "repatriate_reserved cur d ?who ?pen Free c1 = (Inr rest2, c2)"
      "free c2 = (free c1)(d := 0, ?who := free c1 ?who + unat ?pen)"
      "reserved c2 = (reserved c1)(d := 0)"
      by (rule repatriate_gone [OF pen live gone(2)])
    show ?thesis
      by (rule that [OF c1(1) c2(1)])
        (use c1 c2 gone left assms(1) in \<open>simp add: done_outcome_def Let_def unat_eq_zero fun_upd_twist\<close>)
  qed
qed

end

end
