(* ===== verification/ClientEscrow.thy ===== *)
theory ClientEscrow
  imports ClientSafety Escrow
begin

text \<open>
  The money side of the client pallet. Its book lists every open order, since the deposits of
  remote orders are held here. Every input keeps the book covered, provided that a report of the
  other chain names the client the order was placed by: the pallet itself does not check it.
\<close>

section \<open>The book of the pallet\<close>

definition book_cli :: "('a, 'p, 'c, 'q) client_state \<Rightarrow> 'a \<Rightarrow> 'a deposit option" where
  "book_cli s d =
    (case c_orders s d of
      None \<Rightarrow> None
    | Some od \<Rightarrow> Some \<lparr>dep_client = o_client od, dep_fee = o_fee od,
        dep_penalty = (case c_devices s d of None \<Rightarrow> 0 | Some p \<Rightarrow> dvc_penalty p)\<rparr>)"

definition desk_covered ::
  "('c \<Rightarrow> 'a \<Rightarrow> nat) \<Rightarrow> ('c \<Rightarrow> 'a \<Rightarrow> bool) \<Rightarrow> ('a, 'p, 'c, 'q) client_state \<Rightarrow> bool" where
  "desk_covered reserved alive s \<longleftrightarrow>
    finite (dom (c_orders s)) \<and> covers reserved alive (h_currency s) (owed (book_cli s))"

lemma finite_book_cli: "finite (dom (c_orders s)) \<Longrightarrow> finite (dom (book_cli s))"
  by (rule finite_subset [of _ "dom (c_orders s)"])
    (auto simp: book_cli_def split: option.splits)

lemma book_cli_cong:
  assumes "c_orders t = c_orders s"
    and "\<And>d. c_orders s d \<noteq> None \<Longrightarrow>
      map_option dvc_penalty (c_devices t d) = map_option dvc_penalty (c_devices s d)"
  shows "book_cli t = book_cli s"
proof
  fix d
  show "book_cli t d = book_cli s d"
    using assms(1) assms(2) [of d]
    by (cases "c_devices t d"; cases "c_devices s d") (auto simp: book_cli_def split: option.splits)
qed

lemma book_cli_close:
  assumes "c_orders t = (c_orders s)(d := None)" and "\<And>x. x \<noteq> d \<Longrightarrow> c_devices t x = c_devices s x"
  shows "book_cli t = (book_cli s)(d := None)"
  using assms by (intro ext) (auto simp: book_cli_def split: option.splits)

lemma book_cli_open:
  assumes "c_orders t = (c_orders s)(d \<mapsto> od)" and "c_devices t d = Some p"
    and "\<And>x. x \<noteq> d \<Longrightarrow> c_devices t x = c_devices s x"
  shows "book_cli t = (book_cli s)(d \<mapsto>
    \<lparr>dep_client = o_client od, dep_fee = o_fee od, dep_penalty = dvc_penalty p\<rparr>)"
  using assms by (intro ext) (auto simp: book_cli_def split: option.splits)

section \<open>Honest reports\<close>

text \<open>
  A report is honest when the client it names is the one that placed the open order of the
  device it names.
\<close>

fun honest_message :: "('a, 'p, 'c, 'q) client_state \<Rightarrow> ('a, 'p) xcmp_message \<Rightarrow> bool" where
  "honest_message s (OrderReject who d onoff) \<longleftrightarrow>
    (case c_orders s d of None \<Rightarrow> True | Some od \<Rightarrow> o_client od = who)"
| "honest_message s (OrderDone who d onoff) \<longleftrightarrow>
    (case c_orders s d of None \<Rightarrow> True | Some od \<Rightarrow> o_client od = who)"
| "honest_message s _ \<longleftrightarrow> True"

fun honest_input ::
  "('o, 'a, 'p, 'c, 'q) env \<Rightarrow> ('a, 'p, 'c, 'q) client_state \<Rightarrow> ('o, 'a, 'p) client_input \<Rightarrow> bool"
  where
  "honest_input cfg s (CliBlob p n b) \<longleftrightarrow>
    (case decode_with (message_impl cfg) b of None \<Rightarrow> True | Some m \<Rightarrow> honest_message s m)"
| "honest_input cfg s _ \<longleftrightarrow> True"

section \<open>The operations on the currency\<close>

lemma order_cli_currency:
  assumes "order_cli cfg origin ob s = (r, t)"
  shows "(\<exists>who dev c1. ensure_signed cfg origin = Inr who \<and> c_devices s (ob_device ob) = Some dev \<and>
      c_orders s (ob_device ob) = None \<and>
      reserve (currency_impl cfg) (ob_device ob) (dvc_penalty dev) (h_currency s) = (Inr (), c1) \<and>
      reserve (currency_impl cfg) who (ob_fee ob) c1 = (Inr (), h_currency t) \<and>
      c_orders t = (c_orders s)(ob_device ob \<mapsto> order_base_convert ob who)) \<or>
    r \<noteq> Inr () \<and> r \<noteq> Inl (Pallet CliCannotReachDestination) \<and>
      c_orders t = c_orders s \<and> c_devices t = c_devices s \<and>
      (h_currency t = h_currency s \<or>
      (\<exists>v r1 c1. reserve (currency_impl cfg) (ob_device ob) v (h_currency s) = (r1, c1) \<and>
        (h_currency t = c1 \<or>
         (\<exists>who r2. reserve (currency_impl cfg) who (ob_fee ob) c1 = (r2, h_currency t)))))"
proof (cases "ensure_signed cfg origin")
  case (Inl e)
  with assms show ?thesis by (auto simp: order_cli_def)
next
  case (Inr who)
  show ?thesis
  proof (cases "c_devices s (ob_device ob)")
    case None
    with assms Inr show ?thesis by (auto simp: order_cli_def Let_def split: if_splits)
  next
    case (Some dev)
    obtain r1 c1 where c1: "reserve (currency_impl cfg) (ob_device ob) (dvc_penalty dev) (h_currency s)
        = (r1, c1)" by fastforce
    obtain r2 c2 where c2: "reserve (currency_impl cfg) who (ob_fee ob) c1 = (r2, c2)" by fastforce
    show ?thesis
    proof (cases "r1 = Inr () \<and> r2 = Inr ()")
      case True
      let ?d = "ob_device ob" and ?od = "order_base_convert ob who"
      have rn: "reserve_now cfg ?d (dvc_penalty dev) s = (Inr (), s\<lparr>h_currency := c1\<rparr>)"
        "reserve_now cfg who (ob_fee ob) (s\<lparr>h_currency := c1\<rparr>) = (Inr (), s\<lparr>h_currency := c2\<rparr>)"
        using True c1 c2 by (simp_all add: reserve_now_def)
      obtain r3 t3 where send: "send_message_now cfg (dvc_paraid dev) (NewOrder who (order_convert ?od ?d))
          CliCannotReachDestination (put_order_cli ?d ?od (s\<lparr>h_currency := c2\<rparr>)) = (r3, t3)"
        by fastforce
      have "t = s \<and> r \<noteq> Inr () \<and> r \<noteq> Inl (Pallet CliCannotReachDestination) \<or> c_orders s ?d = None \<and> c_orders t = c_orders t3 \<and>
          h_currency t = h_currency t3"
        using assms Inr Some
        by (cases r3) (auto simp: order_cli_def Let_def rn send
            simp del: order_convert_base_convert split: if_splits)
      with send_message_now_cli [OF send] Inr Some c1 c2 True show ?thesis by auto
    next
      case False
      with assms Inr Some c1 c2 have "r \<noteq> Inr () \<and> r \<noteq> Inl (Pallet CliCannotReachDestination) \<and>
          c_orders t = c_orders s \<and> c_devices t = c_devices s \<and>
          (h_currency t = h_currency s \<or> h_currency t = c1 \<or> h_currency t = c2)"
        by (cases r1; cases r2) (auto simp: order_cli_def Let_def reserve_now_def split: if_splits)
      with c1 c2 show ?thesis by metis
    qed
  qed
qed

lemma reject_cli_currency:
  assumes "order_reject_cli cfg who od now d dev s = (r, t)"
  defines "c1 \<equiv> snd (unreserve (currency_impl cfg) who (o_fee od) (h_currency s))"
  shows "now < o_until od \<and> r = Inr () \<and>
      h_currency t = snd (unreserve (currency_impl cfg) d (dvc_penalty dev) c1) \<or>
    \<not> now < o_until od \<and>
      (\<exists>r'. repatriate_reserved (currency_impl cfg) d (o_client od) (dvc_penalty dev) Free c1
              = (r', h_currency t) \<and> (r = Inr () \<longleftrightarrow> (\<exists>rest. r' = Inr rest)))"
  using assms
  by (auto simp: order_reject_cli_def Let_def and_then_def unreserve_now_def repatriate_now_def
      foreign_def split: prod.splits sum.splits if_splits)

lemma on_done_currency:
  assumes "on_done_cli cfg who d onoff s = (r, t)" and "c_orders s d = Some od"
    and "c_devices s d = Some dev"
  shows "\<exists>r1 c1. repatriate_reserved (currency_impl cfg) who d (o_fee od) Free (h_currency s)
      = (r1, c1) \<and>
    ((\<exists>e. r1 = Inl e) \<and> r \<noteq> Inr () \<and> h_currency t = c1 \<or>
     (\<exists>rest. r1 = Inr rest) \<and> h_now s < o_until od \<and> r = Inr () \<and>
       h_currency t = snd (unreserve (currency_impl cfg) d (dvc_penalty dev) c1) \<or>
     (\<exists>rest. r1 = Inr rest) \<and> \<not> h_now s < o_until od \<and>
       (\<exists>r2. repatriate_reserved (currency_impl cfg) d who (dvc_penalty dev) Free c1
          = (r2, h_currency t) \<and> (r = Inr () \<longleftrightarrow> (\<exists>rest. r2 = Inr rest))))"
  using assms
  by (auto simp: on_done_cli_def Let_def and_then_def unreserve_now_def repatriate_now_def
      foreign_def split: prod.splits sum.splits if_splits)

text \<open>The contract of the currency, for the currency of a configuration of the pallet.\<close>

locale client_escrow = currency "currency_impl cfg" free reserved alive ed
  for cfg :: "('o, 'a, 'p, 'c, 'q) env"
    and free :: "'c \<Rightarrow> 'a \<Rightarrow> nat" and reserved :: "'c \<Rightarrow> 'a \<Rightarrow> nat"
    and alive :: "'c \<Rightarrow> 'a \<Rightarrow> bool" and ed :: nat
begin

lemma desk_covers:
  assumes "desk_covered reserved alive s"
  shows "covers reserved alive (h_currency s) (owed (book_cli s))"
    and "finite (dom (book_cli s))" and "finite (dom (c_orders s))"
  using assms by (simp_all add: desk_covered_def finite_book_cli)

lemma desk_covered_storage:
  assumes "desk_covered reserved alive s" and "c_orders t = c_orders s"
    and "\<And>d. c_orders s d \<noteq> None \<Longrightarrow>
      map_option dvc_penalty (c_devices t d) = map_option dvc_penalty (c_devices s d)"
    and "covers reserved alive (h_currency t) (owed (book_cli s))"
  shows "desk_covered reserved alive t"
  using assms book_cli_cong [OF assms(2,3)] by (simp add: desk_covered_def)

lemma desk_covered_closed:
  assumes "desk_covered reserved alive s" and "c_orders t = (c_orders s)(d := None)"
    and "\<And>x. x \<noteq> d \<Longrightarrow> c_devices t x = c_devices s x"
    and "covers reserved alive (h_currency t) (owed ((book_cli s)(d := None)))"
  shows "desk_covered reserved alive t"
  using assms book_cli_close [OF assms(2,3)] by (simp add: desk_covered_def)

lemma order_cli_covered:
  assumes cov: "desk_covered reserved alive s" and op: "order_cli cfg origin ob s = (r, t)"
  shows "desk_covered reserved alive t"
  using order_cli_currency [OF op]
proof (elim disjE exE conjE)
  fix who dev c1
  let ?d = "ob_device ob"
  assume dev: "c_devices s ?d = Some dev" and none: "c_orders s ?d = None"
    and res: "reserve (currency_impl cfg) ?d (dvc_penalty dev) (h_currency s) = (Inr (), c1)"
      "reserve (currency_impl cfg) who (ob_fee ob) c1 = (Inr (), h_currency t)"
    and orders: "c_orders t = (c_orders s)(?d \<mapsto> order_base_convert ob who)"
  have "c_devices t ?d = Some dev \<or> c_devices t ?d = Some (dev\<lparr>dvc_state := Busy\<rparr>)"
    and other: "\<And>x. x \<noteq> ?d \<Longrightarrow> c_devices t x = c_devices s x"
    using order_cli_storage [OF op] dev orders none by (auto split: if_splits)
  then obtain p where p: "c_devices t ?d = Some p" "dvc_penalty p = dvc_penalty dev" by auto
  have "book_cli s ?d = None" using none by (simp add: book_cli_def)
  from covers_open [OF desk_covers(1,2) [OF cov] this,
      of "\<lparr>dep_client = who, dep_fee = ob_fee ob, dep_penalty = dvc_penalty dev\<rparr>"] res
    book_cli_open [OF orders p(1) other] p(2) desk_covers(3) [OF cov] orders
  show ?thesis by (simp add: desk_covered_def)
next
  fix v r1 c1
  assume "reserve (currency_impl cfg) (ob_device ob) v (h_currency s) = (r1, c1)"
  then have c1: "covers reserved alive c1 (owed (book_cli s))"
    by (rule covers_reserve [OF desk_covers(1) [OF cov]])
  assume storage: "c_orders t = c_orders s" "c_devices t = c_devices s"
  {
    assume "h_currency t = c1"
    with c1 storage show ?thesis by (intro desk_covered_storage [OF cov]) simp_all
  next
    fix who r2
    assume "reserve (currency_impl cfg) who (ob_fee ob) c1 = (r2, h_currency t)"
    from covers_reserve [OF c1 this] storage show ?thesis
      by (intro desk_covered_storage [OF cov]) simp_all
  }
qed (use desk_covers(1) [OF cov] in \<open>intro desk_covered_storage [OF cov], simp_all\<close>)

lemma reject_cli_covered:
  assumes cov: "desk_covered reserved alive s" and od: "c_orders s d = Some od"
    and p: "c_devices s d = Some p" and pen: "dvc_penalty dev = dvc_penalty p"
    and op: "order_reject_cli cfg (o_client od) od now d dev s = (r, t)"
  shows "desk_covered reserved alive t"
proof -
  have bk: "book_cli s d = Some
      \<lparr>dep_client = o_client od, dep_fee = o_fee od, dep_penalty = dvc_penalty p\<rparr>"
    using od p by (simp add: book_cli_def)
  note covs = desk_covers(1,2) [OF cov] bk
  show ?thesis
  proof (cases "r = Inr ()")
    case True
    with order_reject_cli_storage [OF op]
    have "c_orders t = (c_orders s)(d := None)" "\<And>x. x \<noteq> d \<Longrightarrow> c_devices t x = c_devices s x"
      by simp_all
    then show ?thesis
      using reject_cli_currency [OF op] True covers_release [OF covs]
        covers_forfeit [OF covs, of _ "h_currency t"] pen
      by (intro desk_covered_closed [OF cov]) auto
  next
    case False
    with order_reject_cli_storage [OF op]
    have "c_orders t = c_orders s" "c_devices t = c_devices s" by simp_all
    moreover from reject_cli_currency [OF op] False obtain e where
      "repatriate_reserved (currency_impl cfg) d (o_client od) (dvc_penalty dev) Free
        (snd (unreserve (currency_impl cfg) (o_client od) (o_fee od) (h_currency s)))
        = (Inl e, h_currency t)" by (metis old.sum.exhaust)
    from covers_forfeit_failed [OF covs(1) this]
    have "covers reserved alive (h_currency t) (owed (book_cli s))" .
    ultimately show ?thesis by (intro desk_covered_storage [OF cov]) simp_all
  qed
qed

lemma cancel_cli_covered:
  assumes "desk_covered reserved alive s" and "cancel_cli cfg origin d s = (r, t)"
  shows "desk_covered reserved alive t"
  using cancel_cli_cases [OF assms(2)]
proof (elim disjE exE conjE)
  fix od dev
  assume "c_orders s d = Some od" "c_devices s d = Some dev"
    "order_reject_cli cfg (o_client od) od (h_now s) d dev s = (r, t)"
  from reject_cli_covered [OF assms(1) this(1,2) refl this(3)] show ?thesis .
qed (use assms(1) in simp)

lemma on_reject_covered:
  assumes "desk_covered reserved alive s" and "on_reject_cli cfg who d onoff s = (r, t)"
    and "honest_message s (OrderReject who d onoff)"
  shows "desk_covered reserved alive t"
  using on_reject_cases [OF assms(2)]
proof (elim disjE exE conjE)
  fix od dev
  assume *: "c_orders s d = Some od" "c_devices s d = Some dev"
    "order_reject_cli cfg who od (h_now s) d (dev\<lparr>dvc_state := state_of_onoff onoff\<rparr>) s = (r, t)"
  with assms(3) have "who = o_client od" by simp
  with reject_cli_covered [OF assms(1) *(1,2), of "dev\<lparr>dvc_state := state_of_onoff onoff\<rparr>"] *(3)
  show ?thesis by simp
qed (use assms(1) in simp)

lemma on_done_covered:
  assumes cov: "desk_covered reserved alive s" and op: "on_done_cli cfg who d onoff s = (r, t)"
    and honest: "honest_message s (OrderDone who d onoff)"
  shows "desk_covered reserved alive t"
proof (cases "\<exists>od dev. c_orders s d = Some od \<and> c_devices s d = Some dev")
  case False
  then have "t = s" using op
    by (auto simp: on_done_cli_def try_pure_def ok_or_def Let_def split: option.splits)
  with cov show ?thesis by simp
next
  case True
  then obtain od dev where od: "c_orders s d = Some od" and dev: "c_devices s d = Some dev" by blast
  then have who: "who = o_client od" using honest by simp
  have bk: "book_cli s d = Some \<lparr>dep_client = who, dep_fee = o_fee od, dep_penalty = dvc_penalty dev\<rparr>"
    using od dev who by (simp add: book_cli_def)
  note covs = desk_covers(1,2) [OF cov] bk
  obtain r1 c1 where pay: "repatriate_reserved (currency_impl cfg) who d (o_fee od) Free (h_currency s)
      = (r1, c1)" by fastforce
  from on_done_currency [OF op od dev] pay
  consider (unpaid) e where "r1 = Inl e" "r \<noteq> Inr ()" "h_currency t = c1"
    | (release) "r = Inr ()" "h_currency t = snd (unreserve (currency_impl cfg) d (dvc_penalty dev) c1)"
    | (forfeit) rest where "r = Inr ()" "repatriate_reserved (currency_impl cfg) d who (dvc_penalty dev)
        Free c1 = (Inr rest, h_currency t)"
    | (stuck) e where "r \<noteq> Inr ()" "repatriate_reserved (currency_impl cfg) d who (dvc_penalty dev)
        Free c1 = (Inl e, h_currency t)"
    by simp (metis old.sum.exhaust)
  then show ?thesis
  proof cases
    case unpaid
    with on_done_storage [OF op] desk_covers(1) [OF cov] pay
      repatriate_err [of who d "o_fee od" "h_currency s" e c1]
    show ?thesis by (intro desk_covered_storage [OF cov]) auto
  next
    case release
    with on_done_storage [OF op] covers_pay_release [OF covs, of r1 c1] pay
    show ?thesis by (intro desk_covered_closed [OF cov, of t d]) auto
  next
    case forfeit
    with on_done_storage [OF op] covers_pay_forfeit [OF covs, of r1 c1 who _ "h_currency t"] pay
    show ?thesis by (intro desk_covered_closed [OF cov, of t d]) auto
  next
    case stuck
    with on_done_storage [OF op] covers_pay_forfeit_failed [OF covs(1) pay stuck(2)]
    show ?thesis by (intro desk_covered_storage [OF cov]) auto
  qed
qed

lemma register_cli_covered:
  assumes "desk_covered reserved alive s" and "register_cli cfg origin para pen w onoff s = (r, t)"
  shows "desk_covered reserved alive t"
  using assms
  by (auto simp: register_cli_def try_pure_def intro!: desk_covered_storage [OF assms(1)]
      intro: desk_covers(1) [OF assms(1)] split: sum.splits if_splits)

lemma killed_cli_covered:
  assumes "desk_covered reserved alive s" and "client_wf s"
  shows "desk_covered reserved alive (on_killed_account_cli d s)"
proof -
  have "map_option dvc_penalty (c_devices (on_killed_account_cli d s) x)
      = map_option dvc_penalty (c_devices s x)" if "c_orders s x \<noteq> None" for x
  proof -
    from that obtain od where "c_orders s x = Some od" by blast
    with client_wf_order [OF assms(2)] obtain p where "c_devices s x = Some p" "dvc_state p \<noteq> Off"
      by (metis device_state.distinct(1,3,7))
    then show ?thesis by (auto simp: on_killed_account_cli_def split: option.splits)
  qed
  moreover have "c_orders (on_killed_account_cli d s) = c_orders s"
    "h_currency (on_killed_account_cli d s) = h_currency s"
    by (auto simp: on_killed_account_cli_def split: option.splits)
  ultimately show ?thesis
    using desk_covers(1) [OF assms(1)] by (intro desk_covered_storage [OF assms(1)]) simp_all
qed

lemma blob_cli_covered:
  assumes "desk_covered reserved alive s" and "honest_input cfg s (CliBlob p n b)"
  shows "desk_covered reserved alive (handle_blob_message_cli cfg p n b s)"
proof (cases "decode_with (message_impl cfg) b")
  case None
  with assms show ?thesis by (simp add: handle_blob_message_cli_def)
next
  case (Some m)
  show ?thesis
  proof (cases m)
    case (OrderAccept who d)
    with Some assms(1) desk_covers(1) [OF assms(1)] show ?thesis
      by (auto simp: handle_blob_message_cli_def on_accept_cli_def
          intro: desk_covered_storage [OF assms(1)])
  next
    case (OrderReject who d onoff)
    with Some assms(2) on_reject_covered [OF assms(1) prod.collapse [symmetric], of who d onoff]
    show ?thesis by (simp add: handle_blob_message_cli_def)
  next
    case (OrderDone who d onoff)
    with Some assms(2) on_done_covered [OF assms(1) prod.collapse [symmetric], of who d onoff]
    show ?thesis by (simp add: handle_blob_message_cli_def)
  qed (use Some assms(1) in \<open>simp add: handle_blob_message_cli_def\<close>)
qed

lemma dispatch_cli_covered:
  assumes "desk_covered reserved alive s" and "client_wf s" and "honest_input cfg s i"
    and "dispatch_cli cfg i s = (r, t)"
  shows "desk_covered reserved alive t"
proof (cases i)
  case (CliTest origin)
  with assms(4) test_storage [of cfg origin s r t] desk_covers(1) [OF assms(1)] show ?thesis
    by (intro desk_covered_storage [OF assms(1)]) auto
next
  case (CliXcm p n x)
  with assms desk_covers(1) [OF assms(1)] show ?thesis
    by (auto simp: handle_xcm_message_cli_def Let_def intro!: desk_covered_storage [OF assms(1)]
        split: sum.splits)
qed (use assms in \<open>auto intro: order_cli_covered cancel_cli_covered register_cli_covered
      killed_cli_covered blob_cli_covered simp del: honest_input.simps(1)\<close>)

end

end
