(* ===== verification/ClientSettle.thy ===== *)
theory ClientSettle
  imports ClientEscrow
begin

text \<open>
  The runs of the client pallet with honest reports, what placing an order does, who can close an
  order, and how the reports and a cancellation settle it.
\<close>

section \<open>Runs with honest reports\<close>

inductive honest_step ::
  "('c \<Rightarrow> 'a \<Rightarrow> nat) \<Rightarrow> ('c \<Rightarrow> 'a \<Rightarrow> bool) \<Rightarrow> ('o, 'a, 'p, 'c, 'q) env \<Rightarrow>
   ('a, 'p, 'c, 'q) client_state \<Rightarrow> ('a, 'p, 'c, 'q) client_state \<Rightarrow> bool"
  for reserved alive cfg where
  honest_input_step: "honest_input cfg s i \<Longrightarrow> dispatch_cli cfg i s = (r, t) \<Longrightarrow>
    honest_step reserved alive cfg s t"
| honest_outside: "h_now s \<le> n \<Longrightarrow>
    outside_change reserved alive (owed (book_cli s)) (h_currency s) c \<Longrightarrow>
    honest_step reserved alive cfg s (s\<lparr>h_now := n, h_currency := c, h_outbox := q\<rparr>)"

lemma client_init_covered: "client_init s \<Longrightarrow> desk_covered reserved alive s"
proof -
  assume "client_init s"
  then have "c_orders s = Map.empty" and "book_cli s = Map.empty"
    by (auto simp: client_init_def book_cli_def)
  then show ?thesis by (simp add: desk_covered_def covers_def)
qed

lemma honest_step_inv:
  assumes "currency (currency_impl cfg) free reserved alive ed"
    and "client_wf s" and "desk_covered reserved alive s" and "honest_step reserved alive cfg s t"
  shows "client_wf t \<and> desk_covered reserved alive t"
  using assms(4)
proof cases
  case (honest_input_step i r)
  have "client_escrow cfg free reserved alive ed" using assms(1) by (simp add: client_escrow_def)
  from client_escrow.dispatch_cli_covered [OF this assms(3,2) honest_input_step]
  have "desk_covered reserved alive t" .
  moreover have "client_wf t"
    using client_step_wf [OF assms(2) client_input [OF honest_input_step(2)]] .
  ultimately show ?thesis by simp
next
  case (honest_outside n c q)
  then have "book_cli t = book_cli s" by (intro book_cli_cong) simp_all
  moreover have "covers reserved alive c (owed (book_cli s))"
    using outside_change_covers [OF honest_outside(3)] assms(3) by (simp add: desk_covered_def)
  ultimately have "desk_covered reserved alive t"
    using assms(3) honest_outside by (simp add: desk_covered_def)
  moreover have "client_wf t" using assms(2) honest_outside by (simp add: client_wf_def desk_phase_def)
  ultimately show ?thesis by simp
qed

interpretation honest_run: invariant_system client_init "honest_step reserved alive cfg"
    "\<lambda>s. currency (currency_impl cfg) free reserved alive ed \<longrightarrow>
      client_wf s \<and> desk_covered reserved alive s" for free reserved alive ed cfg
  by unfold_locales
    (auto simp: client_init_wf client_init_covered dest: honest_step_inv)

section \<open>Placing an order\<close>

definition admissible_cli ::
  "('a, 'p) order_base \<Rightarrow> ('a, 'p, 'c, 'q) client_state \<Rightarrow> device_profile_cli \<Rightarrow> bool" where
  "admissible_cli ob s p \<longleftrightarrow>
    h_now s < ob_until ob \<and> c_orders s (ob_device ob) = None \<and>
    c_devices s (ob_device ob) = Some p \<and> dvc_state p = Ready \<and>
    h_now s + dvc_wcd p \<le> ob_until ob"

lemma order_not_admissible:
  assumes "\<And>p. \<not> admissible_cli ob s p"
  obtains e where "order_cli cfg origin ob s = (Inl e, s)"
proof -
  have "\<exists>e. order_cli cfg origin ob s = (Inl e, s)"
    using assms [of "the (c_devices s (ob_device ob))"]
    by (cases "ensure_signed cfg origin"; cases "c_devices s (ob_device ob)")
      (auto simp: order_cli_def admissible_cli_def Let_def not_less not_le)
  then show ?thesis using that by blast
qed

context client_escrow
begin

text \<open>
  When an order is admissible and both sides can pay, the deposits are taken and the order is
  stored; the result depends only on whether the message leaves.
\<close>

lemma order_placed:
  assumes adm: "admissible_cli ob s p" and who: "ensure_signed cfg origin = Inr who"
    and neq: "who \<noteq> ob_device ob"
    and fee: "can_reserve (currency_impl cfg) who (ob_fee ob) (h_currency s)"
    and pen: "can_reserve (currency_impl cfg) (ob_device ob) (dvc_penalty p) (h_currency s)"
  obtains c where "free c = (free (h_currency s))
        (ob_device ob := free (h_currency s) (ob_device ob) - unat (dvc_penalty p),
         who := free (h_currency s) who - unat (ob_fee ob))"
    and "reserved c = (reserved (h_currency s))
        (ob_device ob := reserved (h_currency s) (ob_device ob) + unat (dvc_penalty p),
         who := reserved (h_currency s) who + unat (ob_fee ob))"
    and "order_cli cfg origin ob s =
      and_then (send_message_now cfg (dvc_paraid p) (NewOrder who ob) CliCannotReachDestination
          (put_order_cli (ob_device ob) (order_base_convert ob who) (s\<lparr>h_currency := c\<rparr>)))
        (\<lambda>_ s. (Inr (), deposit_event_cli (CeNewOrder who (ob_device ob))
          (put_device_cli (ob_device ob) (p\<lparr>dvc_state := Busy\<rparr>) s)))"
    and "alive c = alive (h_currency s) \<and> unat (dvc_penalty p) \<le> free (h_currency s) (ob_device ob) \<and>
      unat (ob_fee ob) \<le> free (h_currency s) who"
proof -
  obtain c1 where c1: "reserve (currency_impl cfg) (ob_device ob) (dvc_penalty p) (h_currency s) = (Inr (), c1)"
    using pen can_reserve_iff by auto
  have "can_reserve (currency_impl cfg) who (ob_fee ob) c1"
    using can_reserve_local [OF c1] neq fee by simp
  then obtain c2 where c2: "reserve (currency_impl cfg) who (ob_fee ob) c1 = (Inr (), c2)"
    using can_reserve_iff by auto
  have rn: "reserve_now cfg (ob_device ob) (dvc_penalty p) s = (Inr (), s\<lparr>h_currency := c1\<rparr>)"
    "reserve_now cfg who (ob_fee ob) (s\<lparr>h_currency := c1\<rparr>) = (Inr (), s\<lparr>h_currency := c2\<rparr>)"
    using c1 c2 by (simp_all add: reserve_now_def)
  have "ob\<lparr>ob_device := ob_device ob\<rparr> = ob" by (cases ob) simp
  then have "order_cli cfg origin ob s =
      and_then (send_message_now cfg (dvc_paraid p) (NewOrder who ob) CliCannotReachDestination
          (put_order_cli (ob_device ob) (order_base_convert ob who) (s\<lparr>h_currency := c2\<rparr>)))
        (\<lambda>_ s. (Inr (), deposit_event_cli (CeNewOrder who (ob_device ob))
          (put_device_cli (ob_device ob) (p\<lparr>dvc_state := Busy\<rparr>) s)))"
    using adm who fee
    by (auto simp: order_cli_def admissible_cli_def rn Let_def can_reserve_now_def not_le not_less)
  then show ?thesis
    using reserve_ok [OF c1] reserve_ok [OF c2] neq by (intro that [of c2]) auto
qed

lemma order_refused:
  assumes who: "ensure_signed cfg origin = Inr who" and neq: "who \<noteq> ob_device ob"
    and op: "order_cli cfg origin ob s = (r, t)"
    and not: "\<nexists>p. admissible_cli ob s p \<and>
      can_reserve (currency_impl cfg) who (ob_fee ob) (h_currency s) \<and>
      can_reserve (currency_impl cfg) (ob_device ob) (dvc_penalty p) (h_currency s)"
  shows "r \<noteq> Inr () \<and> t = s"
proof (cases "\<exists>p. admissible_cli ob s p")
  case False
  then obtain e where "order_cli cfg origin ob s = (Inl e, s)"
    using order_not_admissible [of ob s cfg origin "\<exists>e. order_cli cfg origin ob s = (Inl e, s)"]
    by metis
  with op show ?thesis by auto
next
  case True
  then obtain p where adm: "admissible_cli ob s p" by blast
  show ?thesis
  proof (cases "can_reserve (currency_impl cfg) who (ob_fee ob) (h_currency s)")
    case False
    with adm who have "order_cli cfg origin ob s = (Inl (Pallet CliDeviceLowBail), s)"
      by (auto simp: order_cli_def admissible_cli_def can_reserve_now_def Let_def not_le not_less)
    with op show ?thesis by auto
  next
    case True
    with not adm have "\<not> can_reserve (currency_impl cfg) (ob_device ob) (dvc_penalty p) (h_currency s)"
      by blast
    moreover obtain r' c where r': "reserve (currency_impl cfg) (ob_device ob) (dvc_penalty p)
        (h_currency s) = (r', c)" by fastforce
    ultimately obtain x where "r' = Inl x"
      using can_reserve_iff [of "ob_device ob" "dvc_penalty p" "h_currency s"] by (cases r') auto
    with r' have x: "reserve (currency_impl cfg) (ob_device ob) (dvc_penalty p) (h_currency s)
        = (Inl x, c)" by simp
    with reserve_err have "c = h_currency s" by blast
    with x have rn: "reserve_now cfg (ob_device ob) (dvc_penalty p) s = (Inl (Foreign x), s)"
      by (simp add: reserve_now_def)
    from adm who True have "order_cli cfg origin ob s = (Inl (Foreign x), s)"
      by (auto simp: order_cli_def admissible_cli_def can_reserve_now_def Let_def rn not_le not_less)
    with op show ?thesis by auto
  qed
qed

end

section \<open>Who may close an order\<close>

lemma order_cli_keeps_open:
  "order_cli cfg origin ob s = (r, t) \<Longrightarrow> c_orders s d = Some od \<Longrightarrow> c_orders t d = Some od"
  using order_cli_storage [of cfg origin ob s r t] by (auto split: if_splits)

lemma cancel_cli_closes:
  assumes "cancel_cli cfg origin x s = (r, t)" and "c_orders s d = Some od"
    and "c_orders t d \<noteq> Some od"
  shows "x = d \<and> ensure_signed cfg origin = Inr (o_client od) \<and> o_until od \<le> h_now s"
  using cancel_cli_cases [OF assms(1)]
proof (elim disjE exE conjE)
  fix od' dev
  assume *: "c_orders s x = Some od'" "ensure_signed cfg origin = Inr (o_client od')"
    "o_until od' \<le> h_now s"
    "order_reject_cli cfg (o_client od') od' (h_now s) x dev s = (r, t)"
  from order_reject_cli_storage [OF *(4)] assms(2,3) have "x = d" by (cases "x = d") auto
  with * assms(2) show ?thesis by simp
qed (use assms(2,3) in simp)

lemma on_reject_closes:
  assumes "on_reject_cli cfg who x onoff s = (r, t)" and "c_orders s d = Some od"
    and "c_orders t d \<noteq> Some od"
  shows "x = d"
  using on_reject_cases [OF assms(1)]
proof (elim disjE exE conjE)
  fix od' dev
  assume "order_reject_cli cfg who od' (h_now s) x (dev\<lparr>dvc_state := state_of_onoff onoff\<rparr>) s = (r, t)"
  from order_reject_cli_storage [OF this] assms(2,3) show ?thesis by (cases "x = d") auto
qed (use assms(2,3) in simp)

lemma on_done_closes:
  assumes "on_done_cli cfg who x onoff s = (r, t)" and "c_orders s d = Some od"
    and "c_orders t d \<noteq> Some od"
  shows "x = d"
  using on_done_storage [OF assms(1)] assms(2,3) by (cases "x = d") auto

section \<open>Settlements\<close>

context client_escrow
begin

lemma desk_deposit:
  assumes "desk_covered reserved alive s" and "c_orders s d = Some od" and "c_devices s d = Some p"
  shows "alive (h_currency s) (o_client od) \<Longrightarrow> unat (o_fee od) \<le> reserved (h_currency s) (o_client od)"
    and "alive (h_currency s) d \<Longrightarrow> unat (dvc_penalty p) \<le> reserved (h_currency s) d"
proof -
  let ?x = "\<lparr>dep_client = o_client od, dep_fee = o_fee od, dep_penalty = dvc_penalty p\<rparr>"
  have bk: "book_cli s d = Some ?x" using assms(2,3) by (simp add: book_cli_def)
  have need: "share a d ?x \<le> reserved (h_currency s) a" if "alive (h_currency s) a" for a
    using share_le_owed [OF desk_covers(2) [OF assms(1)] bk, of a] desk_covers(1) [OF assms(1)] that
    by (auto simp: covers_def intro: order_trans)
  show "alive (h_currency s) (o_client od) \<Longrightarrow> unat (o_fee od) \<le> reserved (h_currency s) (o_client od)"
    using need [of "o_client od"] by (auto simp: share_def)
  show "alive (h_currency s) d \<Longrightarrow> unat (dvc_penalty p) \<le> reserved (h_currency s) d"
    using need [of d] by (auto simp: share_def)
qed

lemma reject_settles:
  assumes cov: "desk_covered reserved alive s" and od: "c_orders s d = Some od"
    and p: "c_devices s d = Some p" and pen: "dvc_penalty dev = dvc_penalty p"
    and can: "can_settle free reserved alive ed (h_currency s) d
      \<lparr>dep_client = o_client od, dep_fee = o_fee od, dep_penalty = dvc_penalty p\<rparr>"
  shows "\<exists>t. order_reject_cli cfg (o_client od) od (h_now s) d dev s = (Inr (), t) \<and>
    c_orders t = (c_orders s)(d := None) \<and> c_devices t = (c_devices s)(d \<mapsto> dev) \<and>
    (free (h_currency t), reserved (h_currency t)) =
      settle (settlement_of False (h_now s) (o_until od)) d
        \<lparr>dep_client = o_client od, dep_fee = o_fee od, dep_penalty = dvc_penalty p\<rparr>
        (free (h_currency s), reserved (h_currency s))"
proof -
  let ?x = "\<lparr>dep_client = o_client od, dep_fee = o_fee od, dep_penalty = dvc_penalty p\<rparr>"
  note dep = desk_deposit [OF cov od p]
  obtain r t where op: "order_reject_cli cfg (o_client od) od (h_now s) d dev s = (r, t)" by fastforce
  have x: "dep_client ?x \<noteq> d" "unat (dep_fee ?x) \<le> reserved (h_currency s) (dep_client ?x)"
    "unat (dep_penalty ?x) \<le> reserved (h_currency s) d" "alive (h_currency s) (dep_client ?x)"
    "ed \<le> free (h_currency s) d + reserved (h_currency s) d - unat (dep_penalty ?x)"
    using can dep by (simp_all add: can_settle_def)
  have "r = Inr () \<and> (free (h_currency t), reserved (h_currency t)) =
      settle (settlement_of False (h_now s) (o_until od)) d ?x (free (h_currency s), reserved (h_currency s))"
  proof (cases "h_now s < o_until od")
    case True
    with reject_cli_currency [OF op] release_settles [OF x(1-3)] pen show ?thesis
      by (simp add: settlement_of_def)
  next
    case False
    obtain rest c' where "repatriate_reserved (currency_impl cfg) d (dep_client ?x) (dep_penalty ?x) Free
        (snd (unreserve (currency_impl cfg) (dep_client ?x) (dep_fee ?x) (h_currency s))) = (Inr rest, c')"
      "(free c', reserved c') = settle Fine d ?x (free (h_currency s), reserved (h_currency s))"
      by (rule fine_settles [OF x(1,4,2,3,5)])
    with reject_cli_currency [OF op] False pen show ?thesis by (simp add: settlement_of_def)
  qed
  with op order_reject_cli_storage [OF op] show ?thesis by auto
qed

lemma done_settles:
  assumes cov: "desk_covered reserved alive s" and od: "c_orders s d = Some od"
    and p: "c_devices s d = Some p" and can: "can_settle free reserved alive ed (h_currency s) d
      \<lparr>dep_client = o_client od, dep_fee = o_fee od, dep_penalty = dvc_penalty p\<rparr>"
  shows "\<exists>t. on_done_cli cfg (o_client od) d onoff s = (Inr (), t) \<and>
    c_orders t = (c_orders s)(d := None) \<and>
    c_devices t = (c_devices s)(d \<mapsto> p\<lparr>dvc_state := state_of_onoff onoff\<rparr>) \<and>
    (free (h_currency t), reserved (h_currency t)) =
      settle (settlement_of True (h_now s) (o_until od)) d
        \<lparr>dep_client = o_client od, dep_fee = o_fee od, dep_penalty = dvc_penalty p\<rparr>
        (free (h_currency s), reserved (h_currency s))"
proof -
  let ?x = "\<lparr>dep_client = o_client od, dep_fee = o_fee od, dep_penalty = dvc_penalty p\<rparr>"
  note dep = desk_deposit [OF cov od p]
  obtain r t where op: "on_done_cli cfg (o_client od) d onoff s = (r, t)" by fastforce
  have x: "dep_client ?x \<noteq> d" "unat (dep_fee ?x) \<le> reserved (h_currency s) (dep_client ?x)"
    "unat (dep_penalty ?x) \<le> reserved (h_currency s) d" "alive (h_currency s) (dep_client ?x)"
    "alive (h_currency s) d"
    "ed \<le> free (h_currency s) (dep_client ?x) + reserved (h_currency s) (dep_client ?x) - unat (dep_fee ?x)"
    "ed \<le> free (h_currency s) d + unat (dep_fee ?x) + reserved (h_currency s) d - unat (dep_penalty ?x)"
    using can dep by (auto simp: can_settle_def)
  have "r = Inr () \<and> (free (h_currency t), reserved (h_currency t)) =
      settle (settlement_of True (h_now s) (o_until od)) d ?x (free (h_currency s), reserved (h_currency s))"
  proof (cases "h_now s < o_until od")
    case True
    obtain rest c1 where "repatriate_reserved (currency_impl cfg) (dep_client ?x) d (dep_fee ?x) Free
        (h_currency s) = (Inr rest, c1)"
      "let c' = snd (unreserve (currency_impl cfg) d (dep_penalty ?x) c1) in
        (free c', reserved c') = settle Pay d ?x (free (h_currency s), reserved (h_currency s))"
      by (rule pay_settles [OF x(1,5,2,3,6)])
    with on_done_currency [OF op od p] True show ?thesis by (simp add: settlement_of_def Let_def)
  next
    case False
    obtain rest c1 rest' c' where "repatriate_reserved (currency_impl cfg) (dep_client ?x) d (dep_fee ?x)
        Free (h_currency s) = (Inr rest, c1)"
      "repatriate_reserved (currency_impl cfg) d (dep_client ?x) (dep_penalty ?x) Free c1 = (Inr rest', c')"
      "(free c', reserved c') = settle Pay_and_fine d ?x (free (h_currency s), reserved (h_currency s))"
      by (rule pay_and_fine_settles [OF x(1,5,4,2,3,6,7)])
    with on_done_currency [OF op od p] False show ?thesis by (simp add: settlement_of_def)
  qed
  with op on_done_storage [OF op] od p show ?thesis by auto
qed

end

end
