(* ===== verification/ClientProps.thy ===== *)
theory ClientProps
  imports ClientSettle
begin

text \<open>
  The properties of the client pallet, each with a concrete chain on which its hypotheses hold.
  They rest on the lemmas of the theories \<open>ClientSafety\<close>, \<open>ClientEscrow\<close> and \<open>ClientSettle\<close>.
\<close>

section \<open>Chains to evaluate on\<close>

definition sample_desk_profile :: "device_state \<Rightarrow> device_profile_cli" where
  "sample_desk_profile st =
    \<lparr>dvc_state = st, dvc_penalty = 10000, dvc_wcd = 1000, dvc_paraid = 200\<rparr>"

definition desk_request :: "(account_id, order_payload) order_base" where
  "desk_request = \<lparr>ob_until = 5000, ob_data = 7, ob_fee = 100000, ob_device = 100\<rparr>"

definition desk_order :: "(account_id, order_payload) order" where
  "desk_order = order_base_convert desk_request 200"

text \<open>Device 100 is registered for parachain 200; client 200 may have an open order with it.\<close>

definition sample_desk ::
  "moment \<Rightarrow> device_state \<Rightarrow> (account_id, order_payload) order option \<Rightarrow>
   (account_id, order_payload, account_id ledger, outbox) client_state" where
  "sample_desk n st ord =
    \<lparr>h_now = n, h_currency = [100 \<mapsto> \<lparr>acc_free = 990000, acc_reserved = 10000\<rparr>,
                              200 \<mapsto> \<lparr>acc_free = 900000, acc_reserved = 100000\<rparr>],
     h_outbox = [], c_devices = [100 \<mapsto> sample_desk_profile st],
     c_orders = (\<lambda>d. if d = 100 then ord else None), c_events = []\<rparr>"

definition empty_desk ::
  "(account_id, order_payload, account_id ledger, outbox) client_state" where
  "empty_desk =
    \<lparr>h_now = 0, h_currency = [100 \<mapsto> \<lparr>acc_free = 1000000, acc_reserved = 0\<rparr>,
                              200 \<mapsto> \<lparr>acc_free = 1000000, acc_reserved = 0\<rparr>],
     h_outbox = [], c_devices = Map.empty, c_orders = Map.empty, c_events = []\<rparr>"

definition registered_desk ::
  "(account_id, order_payload, account_id ledger, outbox) client_state" where
  "registered_desk = snd (register_cli sample_env (Some 100) 200 10000 1000 True empty_desk)"

definition ordered_desk ::
  "(account_id, order_payload, account_id ledger, outbox) client_state" where
  "ordered_desk = snd (order_cli sample_env (Some 200) desk_request registered_desk)"

lemmas desk_defs =
  sample_desk_profile_def desk_request_def desk_order_def order_base_convert_def sample_desk_def

lemma sample_env_fields [simp]:
  "ensure_signed sample_env = signed_by"
  "currency_impl sample_env = ledger_ops 500"
  "send_blob_message sample_env = queue_send"
  "message_impl sample_env = runtime_messages"
  by (simp_all add: sample_env_def)

lemma desk_currency:
  "currency (currency_impl sample_env) ledger_free ledger_reserved ledger_alive 500"
  by (simp add: ledger.currency_axioms)

interpretation sample_client_escrow: client_escrow sample_env ledger_free ledger_reserved
    ledger_alive 500
  by (simp add: client_escrow_def ledger.currency_axioms)

lemma registered_desk_eq:
  "registered_desk = empty_desk
    \<lparr>c_devices := [100 \<mapsto> sample_desk_profile Ready], c_events := [CeNewDevice 100]\<rparr>"
  by (simp add: registered_desk_def register_cli_def empty_desk_def sample_desk_profile_def
      storage_cli_defs signed_by_def)

lemma ordered_desk_eq:
  "ordered_desk = (sample_desk 0 Busy (Some desk_order))
    \<lparr>h_outbox := [(200, encode_with runtime_messages (NewOrder 200 desk_request))],
     c_events := [CeNewDevice 100, CeNewOrder 200 100]\<rparr>"
  unfolding ordered_desk_def registered_desk_eq
  by (simp add: order_cli_def empty_desk_def desk_defs storage_cli_defs sample_defs host_call_defs
      order_convert_def Let_def fun_eq_iff)

lemma desk_runs:
  "reachable client_init (client_step sample_env) ordered_desk"
  "reachable client_init (honest_step ledger_reserved ledger_alive sample_env) ordered_desk"
proof -
  have init: "client_init empty_desk" by (simp add: client_init_def empty_desk_def)
  have steps: "dispatch_cli sample_env (CliRegister (Some 100) 200 10000 1000 True) empty_desk
      = (fst (register_cli sample_env (Some 100) 200 10000 1000 True empty_desk), registered_desk)"
    "dispatch_cli sample_env (CliOrder (Some 200) desk_request) registered_desk
      = (fst (order_cli sample_env (Some 200) desk_request registered_desk), ordered_desk)"
    by (simp_all add: registered_desk_def ordered_desk_def)
  show "reachable client_init (client_step sample_env) ordered_desk"
    by (rule reachable_step [OF reachable_step [OF reachable_init [of client_init]]])
      (rule init client_input [OF steps(1)] client_input [OF steps(2)])+
  show "reachable client_init (honest_step ledger_reserved ledger_alive sample_env) ordered_desk"
    by (rule reachable_step [OF reachable_step [OF reachable_init [of client_init]]])
      (rule init honest_input_step [OF _ steps(1)] honest_input_step [OF _ steps(2)] | simp)+
qed

lemma sample_desk_covered:
  "desk_covered ledger_reserved ledger_alive (sample_desk n st (Some desk_order))"
proof -
  have "dom (\<lambda>d::account_id. if d = 100 then Some desk_order else None) = {100}"
    by (auto split: if_splits)
  moreover have "book_cli (sample_desk n st (Some desk_order)) =
      [100 \<mapsto> \<lparr>dep_client = 200, dep_fee = 100000, dep_penalty = 10000\<rparr>]"
    by (auto simp: book_cli_def desk_defs)
  ultimately show ?thesis
    by (auto simp: desk_covered_def sample_desk_def covers_def owed_def share_def
        ledger_observers split: if_splits)
qed

lemma desk_funds:
  "ledger_free (h_currency (sample_desk n st ord)) =
    (\<lambda>a. if a = 100 then 990000 else if a = 200 then 900000 else 0)"
  "ledger_reserved (h_currency (sample_desk n st ord)) =
    (\<lambda>a. if a = 100 then 10000 else if a = 200 then 100000 else 0)"
  by (auto simp: sample_desk_def ledger_observers intro!: ext)

section \<open>The life cycle\<close>

text \<open>
  Claim C25. Every input of the client pallet, with any message in any order, touches the storage
  of at most one device, and moves that device along an edge of the life cycle automaton of the
  desk or leaves its phase as it is.
\<close>

theorem desk_lifecycle:
  assumes "client_wf s" and "dispatch_cli cfg i s = (r, t)"
  shows "\<exists>d. (\<forall>x. x \<noteq> d \<longrightarrow> c_devices t x = c_devices s x \<and> c_orders t x = c_orders s x) \<and>
    (desk_phase t d = desk_phase s d \<or> desk_step (desk_phase s d) (desk_phase t d))"
  using dispatch_cli_legal [OF assms] unfolding desk_move_def .

theorem desk_lifecycle_witness:
  "\<exists>d. desk_phase (on_killed_account_cli 100 (sample_desk 0 Busy (Some desk_order))) d =
      desk_phase (sample_desk 0 Busy (Some desk_order)) d \<or>
    desk_step (desk_phase (sample_desk 0 Busy (Some desk_order)) d)
      (desk_phase (on_killed_account_cli 100 (sample_desk 0 Busy (Some desk_order))) d)"
proof -
  have "client_wf (sample_desk 0 Busy (Some desk_order))"
    by (auto simp: client_wf_def desk_phase_def sample_desk_def sample_desk_profile_def)
  from desk_lifecycle [OF this, of sample_env "CliKilled 100"] show ?thesis by auto
qed

text \<open>
  In every state the client chain can reach from empty storage, an open order belongs to
  a registered device that is \<open>Ready\<close>, \<open>Busy\<close> or \<open>Timewait\<close>, and no device is ever \<open>Busy2\<close>: the
  client chain does not learn of an acceptance.
\<close>

theorem open_desk_order_has_device:
  assumes "reachable client_init (client_step cfg) s"
  shows "(\<forall>d od. c_orders s d = Some od \<longrightarrow> (\<exists>p. c_devices s d = Some p \<and>
      (dvc_state p = Ready \<or> dvc_state p = Busy \<or> dvc_state p = Timewait))) \<and>
    (\<forall>d p. c_devices s d = Some p \<longrightarrow> dvc_state p \<noteq> Busy2)"
proof -
  have wf: "client_wf s" using client_run.reachable_inv [OF assms] .
  then show ?thesis by (metis client_wf_order client_wf_no_busy2)
qed

theorem open_desk_order_has_device_witness:
  "\<exists>p. c_devices ordered_desk 100 = Some p \<and>
    (dvc_state p = Ready \<or> dvc_state p = Busy \<or> dvc_state p = Timewait)"
proof -
  have "c_orders ordered_desk 100 = Some desk_order" by (simp add: ordered_desk_eq sample_desk_def)
  with open_desk_order_has_device [OF desk_runs(1)] show ?thesis by blast
qed

section \<open>Deposits\<close>

text \<open>
  Claim C3. Solvency of the desk: in every state the client chain can reach from empty storage by
  calls, reports that name the client of the order, and changes of the balances by other pallets
  that respect reserves (they lower no reserve of an account that stays alive and revive no
  account while an open order lists a deposit of it), every living account has in reserve at least
  the fees of its open orders plus the penalties of the open orders of its devices, also after
  orders that could not be sent.
\<close>

theorem desk_solvent:
  assumes "currency (currency_impl cfg) free reserved alive ed"
    and "reachable client_init (honest_step reserved alive cfg) s"
    and "alive (h_currency s) a"
  shows "owed (book_cli s) a \<le> reserved (h_currency s) a"
  using honest_run.reachable_inv [OF assms(2)] assms(1,3)
  by (auto simp: desk_covered_def covers_def)

theorem desk_solvent_witness:
  "owed (book_cli ordered_desk) 200 \<le> ledger_reserved (h_currency ordered_desk) 200"
proof -
  have "ledger_alive (h_currency ordered_desk) 200"
    by (simp add: ordered_desk_eq sample_desk_def ledger_alive_def)
  then show ?thesis by (rule desk_solvent [OF desk_currency desk_runs(2)])
qed

text \<open>
  Claim C20. A report that the order of a device is done arrives, naming the client that placed it.
  The client and the device are two different accounts, both alive, and the deposits of the open
  orders are in reserve. In time the order is closed, the device is idle, and the device has the
  fee and its penalty. Late, a client that survives the payment of its fee gets the penalty of
  the device, and the order is closed the same way. A client that does not survive the payment
  (the fee is not zero and leaves it below the existential deposit) is reaped by it; then a late
  report fails unless the penalty is zero: the device has earned the fee, but the penalty
  stays in its reserve, the order stays open and the device stays as it was.
\<close>

theorem done_report_settles:
  assumes "strict_currency (currency_impl cfg) free reserved alive ed"
    and "desk_covered reserved alive s"
    and "c_orders s d = Some od" and "c_devices s d = Some p"
    and "alive (h_currency s) (o_client od)" and "alive (h_currency s) d" and "o_client od \<noteq> d"
  shows "\<exists>r t. on_done_cli cfg (o_client od) d onoff s = (r, t) \<and>
    done_outcome free reserved ed (h_now s < o_until od) d
      \<lparr>dep_client = o_client od, dep_fee = o_fee od, dep_penalty = dvc_penalty p\<rparr>
      (h_currency s) (r = Inr ()) (h_currency t) \<and>
    c_orders t = (if r = Inr () then (c_orders s)(d := None) else c_orders s) \<and>
    c_devices t = (if r = Inr ()
      then (c_devices s)(d \<mapsto> p\<lparr>dvc_state := state_of_onoff onoff\<rparr>) else c_devices s)"
proof -
  let ?x = "\<lparr>dep_client = o_client od, dep_fee = o_fee od, dep_penalty = dvc_penalty p\<rparr>"
  have cur: "currency (currency_impl cfg) free reserved alive ed"
    using assms(1) by (simp add: strict_currency_def)
  then have "client_escrow cfg free reserved alive ed" by (simp add: client_escrow_def)
  note dep = client_escrow.desk_deposit [OF this assms(2-4)]
  have x: "dep_client ?x \<noteq> d" "alive (h_currency s) (dep_client ?x)"
    "unat (dep_fee ?x) \<le> reserved (h_currency s) (dep_client ?x)"
    "unat (dep_penalty ?x) \<le> reserved (h_currency s) d"
    using assms(5-7) dep by simp_all
  obtain r t where op: "on_done_cli cfg (o_client od) d onoff s = (r, t)" by fastforce
  note eff = on_done_currency [OF op assms(3,4)]
  have "done_outcome free reserved ed (h_now s < o_until od) d ?x (h_currency s) (r = Inr ())
      (h_currency t)"
  proof (cases "h_now s < o_until od")
    case True
    obtain rest c1 where "repatriate_reserved (currency_impl cfg) (dep_client ?x) d (dep_fee ?x) Free
        (h_currency s) = (Inr rest, c1)"
      "done_outcome free reserved ed True d ?x (h_currency s) True
        (snd (unreserve (currency_impl cfg) d (dep_penalty ?x) c1))"
      by (rule currency.payment_in_time [OF cur x(1) assms(6) x(3,4)])
    with eff True show ?thesis by auto
  next
    case False
    obtain rest c1 r2 c2 where "repatriate_reserved (currency_impl cfg) (dep_client ?x) d (dep_fee ?x)
        Free (h_currency s) = (Inr rest, c1)"
      "repatriate_reserved (currency_impl cfg) d (dep_client ?x) (dep_penalty ?x) Free c1 = (r2, c2)"
      "done_outcome free reserved ed False d ?x (h_currency s) (\<exists>y. r2 = Inr y) c2"
      by (rule strict_currency.payment_late [OF assms(1) x(1,2) assms(6) x(3,4)])
    with eff False show ?thesis by auto
  qed
  with op on_done_storage [OF op] assms(3,4) show ?thesis by auto
qed

text \<open>A client that pays its fee out of its last funds.\<close>

definition poor_client_desk ::
  "(account_id, order_payload, account_id ledger, outbox) client_state" where
  "poor_client_desk = (sample_desk 5000 Busy (Some desk_order))
    \<lparr>h_currency := [100 \<mapsto> \<lparr>acc_free = 990000, acc_reserved = 10000\<rparr>,
                   200 \<mapsto> \<lparr>acc_free = 0, acc_reserved = 100000\<rparr>]\<rparr>"

lemma poor_client_desk_covered: "desk_covered ledger_reserved ledger_alive poor_client_desk"
proof -
  have "book_cli poor_client_desk = book_cli (sample_desk 5000 Busy (Some desk_order))"
    by (intro book_cli_cong) (simp_all add: poor_client_desk_def sample_desk_def)
  with sample_desk_covered [of 5000 Busy] show ?thesis
    by (auto simp: desk_covered_def covers_def poor_client_desk_def sample_desk_def
        ledger_observers split: if_splits)
qed

lemma strict_desk_currency:
  "strict_currency (currency_impl sample_env) ledger_free ledger_reserved ledger_alive 500"
  by (simp add: ledger_strict.strict_currency_axioms)

theorem done_report_settles_witness:
  "\<exists>e t. on_done_cli sample_env 200 100 True poor_client_desk = (Inl e, t) \<and>
    c_orders t 100 = Some desk_order \<and> ledger_free (h_currency t) 100 = 990000 + 100000 \<and>
    ledger_reserved (h_currency t) 100 = 10000 \<and> ledger_free (h_currency t) 200 = 0"
proof -
  let ?s = poor_client_desk
  let ?x = "\<lparr>dep_client = o_client desk_order, dep_fee = o_fee desk_order,
    dep_penalty = dvc_penalty (sample_desk_profile Busy)\<rparr>"
  have "\<exists>r t. on_done_cli sample_env (o_client desk_order) 100 True ?s = (r, t) \<and>
    done_outcome ledger_free ledger_reserved 500 (h_now ?s < o_until desk_order) 100 ?x
      (h_currency ?s) (r = Inr ()) (h_currency t) \<and>
    c_orders t = (if r = Inr () then (c_orders ?s)(100 := None) else c_orders ?s) \<and>
    c_devices t = (if r = Inr ()
      then (c_devices ?s)(100 \<mapsto> (sample_desk_profile Busy)\<lparr>dvc_state := state_of_onoff True\<rparr>)
      else c_devices ?s)"
    by (rule done_report_settles [OF strict_desk_currency poor_client_desk_covered])
      (simp_all add: poor_client_desk_def desk_defs ledger_observers)
  then obtain r t where t: "on_done_cli sample_env (o_client desk_order) 100 True ?s = (r, t)"
    "done_outcome ledger_free ledger_reserved 500 (h_now ?s < o_until desk_order) 100 ?x
      (h_currency ?s) (r = Inr ()) (h_currency t)"
    "c_orders t = (if r = Inr () then (c_orders ?s)(100 := None) else c_orders ?s)"
    by blast
  from t(2) have "r \<noteq> Inr ()" "ledger_free (h_currency t) 100 = 990000 + 100000"
    "ledger_reserved (h_currency t) 100 = 10000" "ledger_free (h_currency t) 200 = 0"
    by (simp_all add: done_outcome_def survives_def poor_client_desk_def desk_defs ledger_observers)
  moreover have "o_client desk_order = 200" "c_orders ?s 100 = Some desk_order"
    by (simp_all add: poor_client_desk_def desk_defs)
  ultimately show ?thesis using t by (cases r) auto
qed

text \<open>
  Claim C21. A report that the device rejects the order, naming the client that placed it, closes
  the order, sets the device idle and settles the deposits: both are released in time, and an
  overdue order costs the device its penalty, which goes to the client. The deposits are in
  reserve, and the client and the device are two different living accounts that keep the
  existential deposit without what they deposited.
\<close>

theorem reject_report_settles:
  assumes "currency (currency_impl cfg) free reserved alive ed" and "desk_covered reserved alive s"
    and "c_orders s d = Some od" and "c_devices s d = Some p"
    and "can_settle free reserved alive ed (h_currency s) d
      \<lparr>dep_client = o_client od, dep_fee = o_fee od, dep_penalty = dvc_penalty p\<rparr>"
  shows "\<exists>t. on_reject_cli cfg (o_client od) d onoff s = (Inr (), t) \<and>
    c_orders t = (c_orders s)(d := None) \<and>
    c_devices t = (c_devices s)(d \<mapsto> p\<lparr>dvc_state := state_of_onoff onoff\<rparr>) \<and>
    (free (h_currency t), reserved (h_currency t)) =
      settle (settlement_of False (h_now s) (o_until od)) d
        \<lparr>dep_client = o_client od, dep_fee = o_fee od, dep_penalty = dvc_penalty p\<rparr>
        (free (h_currency s), reserved (h_currency s))"
proof -
  have esc: "client_escrow cfg free reserved alive ed" using assms(1) by (simp add: client_escrow_def)
  have "on_reject_cli cfg (o_client od) d onoff s = order_reject_cli cfg (o_client od) od (h_now s) d
      (p\<lparr>dvc_state := state_of_onoff onoff\<rparr>) s"
    using assms(3,4) by (simp add: on_reject_cli_def onoff_not_if Let_def)
  then show ?thesis
    using client_escrow.reject_settles [OF esc assms(2-4) _ assms(5),
        of "p\<lparr>dvc_state := state_of_onoff onoff\<rparr>"] by simp
qed

theorem reject_report_settles_witness:
  "\<exists>t. on_reject_cli sample_env 200 100 False (sample_desk 5000 Busy (Some desk_order)) = (Inr (), t) \<and>
    ledger_free (h_currency t) 200 = 900000 + 100000 + 10000 \<and>
    ledger_reserved (h_currency t) 100 = 0"
proof -
  let ?s = "sample_desk 5000 Busy (Some desk_order)"
  have ex: "\<exists>t. on_reject_cli sample_env (o_client desk_order) 100 False ?s = (Inr (), t) \<and>
    c_orders t = (c_orders ?s)(100 := None) \<and>
    c_devices t = (c_devices ?s)(100 \<mapsto> (sample_desk_profile Busy)\<lparr>dvc_state := state_of_onoff False\<rparr>) \<and>
    (ledger_free (h_currency t), ledger_reserved (h_currency t)) =
      settle (settlement_of False (h_now ?s) (o_until desk_order)) 100
        \<lparr>dep_client = o_client desk_order, dep_fee = o_fee desk_order,
         dep_penalty = dvc_penalty (sample_desk_profile Busy)\<rparr>
        (ledger_free (h_currency ?s), ledger_reserved (h_currency ?s))"
    by (rule reject_report_settles [OF desk_currency sample_desk_covered])
      (simp_all add: can_settle_def desk_defs ledger_observers)
  have kind: "settlement_of False (h_now ?s) (o_until desk_order) = Fine"
    "o_client desk_order = 200" "o_fee desk_order = 100000"
    "dvc_penalty (sample_desk_profile Busy) = 10000"
    by (simp_all add: settlement_of_def desk_defs)
  show ?thesis using ex unfolding kind by (force simp: desk_funds Let_def)
qed

end
