(* ===== verification/ClientRuleProps.thy ===== *)
theory ClientRuleProps
  imports ClientProps
begin

text \<open>
  The properties of the client pallet about placing, closing and cancelling orders and about what
  it does not check of the reports of the other chain.
\<close>

section \<open>Placing an order\<close>

text \<open>Whether the message of an order leaves or not decides what follows it.\<close>

lemma sent_or_unsent:
  assumes "and_then (send_message_now cfg para m CliCannotReachDestination s)
      (\<lambda>_ s. (Inr (), deposit_event_cli ev (put_device_cli d q s))) = (r, t)"
  shows "c_orders t = c_orders s \<and> h_currency t = h_currency s \<and>
    (r = Inr () \<and> c_devices t = (c_devices s)(d \<mapsto> q) \<and> c_events t = c_events s @ [ev] \<or>
     r = Inl (Pallet CliCannotReachDestination) \<and> c_devices t = c_devices s \<and> c_events t = c_events s)"
proof -
  obtain r3 t3 where send: "send_message_now cfg para m CliCannotReachDestination s = (r3, t3)"
    by fastforce
  with assms send_message_now_cli [OF send] send_message_now_error [of cfg para m] show ?thesis
    by (cases r3) (fastforce simp: storage_cli_defs)+
qed

text \<open>
  Claim C22. A signed order call of a client that is not the device has one of three outcomes.
  Either nothing changes at all; or the order is admissible, both deposits are taken, the order is
  stored, and then either its message has left and the device is \<open>Busy\<close> with an
  event, or the message could not be sent and the device stays \<open>Ready\<close> without one.
\<close>

theorem desk_order_outcomes:
  assumes "currency (currency_impl cfg) free reserved alive ed"
    and "ensure_signed cfg origin = Inr who" and "who \<noteq> ob_device ob"
    and "order_cli cfg origin ob s = (r, t)"
  shows "r \<noteq> Inr () \<and> t = s \<or>
    (\<exists>p. admissible_cli ob s p \<and>
      c_orders t = (c_orders s)(ob_device ob \<mapsto> order_base_convert ob who) \<and>
      free (h_currency t) = (free (h_currency s))
        (ob_device ob := free (h_currency s) (ob_device ob) - unat (dvc_penalty p),
         who := free (h_currency s) who - unat (ob_fee ob)) \<and>
      reserved (h_currency t) = (reserved (h_currency s))
        (ob_device ob := reserved (h_currency s) (ob_device ob) + unat (dvc_penalty p),
         who := reserved (h_currency s) who + unat (ob_fee ob)) \<and>
      (r = Inr () \<and> c_devices t = (c_devices s)(ob_device ob \<mapsto> p\<lparr>dvc_state := Busy\<rparr>) \<and>
         c_events t = c_events s @ [CeNewOrder who (ob_device ob)] \<or>
       r = Inl (Pallet CliCannotReachDestination) \<and> c_devices t = c_devices s \<and>
         c_events t = c_events s))"
proof (cases "\<exists>p. admissible_cli ob s p \<and>
    can_reserve (currency_impl cfg) who (ob_fee ob) (h_currency s) \<and>
    can_reserve (currency_impl cfg) (ob_device ob) (dvc_penalty p) (h_currency s)")
  case True
  then obtain p where adm: "admissible_cli ob s p"
    and can: "can_reserve (currency_impl cfg) who (ob_fee ob) (h_currency s)"
      "can_reserve (currency_impl cfg) (ob_device ob) (dvc_penalty p) (h_currency s)" by blast
  have esc: "client_escrow cfg free reserved alive ed" using assms(1) by (simp add: client_escrow_def)
  obtain c where c: "free c = (free (h_currency s))
        (ob_device ob := free (h_currency s) (ob_device ob) - unat (dvc_penalty p),
         who := free (h_currency s) who - unat (ob_fee ob))"
      "reserved c = (reserved (h_currency s))
        (ob_device ob := reserved (h_currency s) (ob_device ob) + unat (dvc_penalty p),
         who := reserved (h_currency s) who + unat (ob_fee ob))"
    and op: "order_cli cfg origin ob s =
      and_then (send_message_now cfg (dvc_paraid p) (NewOrder who ob) CliCannotReachDestination
          (put_order_cli (ob_device ob) (order_base_convert ob who) (s\<lparr>h_currency := c\<rparr>)))
        (\<lambda>_ s. (Inr (), deposit_event_cli (CeNewOrder who (ob_device ob))
          (put_device_cli (ob_device ob) (p\<lparr>dvc_state := Busy\<rparr>) s)))"
    and "alive c = alive (h_currency s) \<and> unat (dvc_penalty p) \<le> free (h_currency s) (ob_device ob) \<and>
      unat (ob_fee ob) \<le> free (h_currency s) who"
    by (rule client_escrow.order_placed [OF esc adm assms(2,3) can])
  from sent_or_unsent [OF op [symmetric, THEN trans, OF assms(4)]] adm c show ?thesis
    by (intro disjI2 exI [of _ p]) (simp add: storage_cli_defs)
next
  case False
  have esc: "client_escrow cfg free reserved alive ed" using assms(1) by (simp add: client_escrow_def)
  from client_escrow.order_refused [OF esc assms(2,3,4)] False show ?thesis by blast
qed

theorem desk_order_outcomes_witness:
  "ledger_reserved (h_currency (snd (order_cli sample_env (Some 200) desk_request
      (sample_desk 3000 Ready None)))) 200 = 200000"
proof -
  let ?s = "sample_desk 3000 Ready None"
  have signed: "ensure_signed sample_env (Some 200) = Inr 200" by (simp add: signed_by_def)
  have neq: "(200::account_id) \<noteq> ob_device desk_request" by (simp add: desk_request_def)
  have "fst (order_cli sample_env (Some 200) desk_request ?s) = Inr ()"
    by (simp add: order_cli_def desk_defs storage_cli_defs sample_defs host_call_defs Let_def)
  with desk_order_outcomes [OF desk_currency signed neq prod.collapse [symmetric], of ?s]
  show ?thesis by (auto simp: desk_funds desk_request_def)
qed

text \<open>
  An order whose message cannot be sent is reported as failed, but stays: the order is
  stored and the deposits are taken. Until its deadline it cannot be cancelled, and no other
  order for the device is taken.
\<close>

theorem unsent_order_blocks_device:
  assumes "order_cli cfg origin ob s = (Inl (Pallet CliCannotReachDestination), t)"
    and "ensure_signed cfg origin = Inr who"
  shows "c_orders t (ob_device ob) = Some (order_base_convert ob who) \<and>
    (h_now t < ob_until ob \<longrightarrow> cancel_cli cfg origin (ob_device ob) t = (Inl (Pallet CliProhibited), t)) \<and>
    (\<forall>origin' ob'. ob_device ob' = ob_device ob \<longrightarrow> (\<exists>e. order_cli cfg origin' ob' t = (Inl e, t)))"
proof -
  have "c_orders t (ob_device ob) = Some (order_base_convert ob who)"
    using order_cli_currency [OF assms(1)] assms(2) by auto
  moreover from this have "\<exists>e. order_cli cfg origin' ob' t = (Inl e, t)"
    if "ob_device ob' = ob_device ob" for origin' ob'
    using that order_not_admissible [of ob' t cfg origin']
    by (metis admissible_cli_def option.distinct(1))
  ultimately show ?thesis using assms(2) by (simp add: cancel_cli_def)
qed

text \<open>The same chain with its outbound channel closed.\<close>

definition closed_env ::
  "(signed_origin, account_id, order_payload, account_id ledger, outbox) env" where
  "closed_env = sample_env\<lparr>send_blob_message := closed_send\<rparr>"

lemma closed_env_fields [simp]:
  "ensure_signed closed_env = signed_by" "currency_impl closed_env = ledger_ops 500"
  "send_blob_message closed_env = closed_send" "message_impl closed_env = runtime_messages"
  by (simp_all add: closed_env_def)

theorem unsent_order_blocks_device_witness:
  "c_orders (snd (order_cli closed_env (Some 200) desk_request (sample_desk 3000 Ready None))) 100
    = Some desk_order"
proof -
  let ?s = "sample_desk 3000 Ready None"
  have "order_cli closed_env (Some 200) desk_request ?s = (Inl (Pallet CliCannotReachDestination),
      snd (order_cli closed_env (Some 200) desk_request ?s))"
    by (simp add: order_cli_def desk_defs storage_cli_defs sample_defs host_call_defs Let_def)
  from unsent_order_blocks_device [OF this, of 200] show ?thesis
    by (simp add: signed_by_def desk_request_def desk_order_def)
qed

section \<open>Closing an order\<close>

text \<open>
  Claim C24. An open order of the desk stays exactly as it was placed until its client cancels it
  at or after the deadline, or a message arrives that reports it rejected or done.
\<close>

theorem desk_order_closed_only_by:
  assumes "dispatch_cli cfg i s = (r, t)" and "c_orders s d = Some od"
    and "c_orders t d \<noteq> Some od"
  shows "(\<exists>origin. i = CliCancel origin d \<and> ensure_signed cfg origin = Inr (o_client od) \<and>
        o_until od \<le> h_now s) \<or>
    (\<exists>p n b who onoff. i = CliBlob p n b \<and>
        (decode_with (message_impl cfg) b = Some (OrderReject who d onoff) \<or>
         decode_with (message_impl cfg) b = Some (OrderDone who d onoff)))"
proof (cases i)
  case (CliTest origin)
  with assms test_storage [of cfg origin s r t] show ?thesis by auto
next
  case (CliOrder origin ob)
  with assms order_cli_keeps_open [of cfg origin ob s r t d od] show ?thesis by auto
next
  case (CliCancel origin x)
  with assms cancel_cli_closes [of cfg origin x s r t d od] show ?thesis by auto
next
  case (CliRegister origin para pen w onoff)
  with assms show ?thesis by (auto simp: register_cli_def try_pure_def split: sum.splits if_splits)
next
  case (CliKilled a)
  with assms show ?thesis by (auto simp: on_killed_account_cli_def split: option.splits if_splits)
next
  case (CliXcm p n x)
  with assms show ?thesis by (auto simp: handle_xcm_message_cli_def Let_def split: sum.splits)
next
  case (CliBlob p n b)
  with assms(1) have t: "t = handle_blob_message_cli cfg p n b s" by simp
  show ?thesis
  proof (cases "decode_with (message_impl cfg) b")
    case None
    with t assms show ?thesis by (simp add: handle_blob_message_cli_def)
  next
    case (Some m)
    with t assms CliBlob on_reject_closes [OF prod.collapse [symmetric] assms(2), where cfg = cfg]
      on_done_closes [OF prod.collapse [symmetric] assms(2), where cfg = cfg]
    show ?thesis by (cases m) (auto simp: handle_blob_message_cli_def on_accept_cli_def)
  qed
qed

theorem desk_order_closed_only_by_witness:
  "o_until desk_order \<le> h_now (sample_desk 6000 Busy (Some desk_order))"
proof -
  let ?s = "sample_desk 6000 Busy (Some desk_order)"
  have step: "dispatch_cli sample_env (CliCancel (Some 200) 100) ?s
      = (fst (cancel_cli sample_env (Some 200) 100 ?s), snd (cancel_cli sample_env (Some 200) 100 ?s))"
    by simp
  have "c_orders ?s 100 = Some desk_order" by (simp add: sample_desk_def)
  moreover have "c_orders (snd (cancel_cli sample_env (Some 200) 100 ?s)) 100 \<noteq> Some desk_order"
    by (simp add: cancel_cli_def order_reject_cli_def desk_defs storage_cli_defs sample_defs
        host_call_defs Let_def)
  ultimately show ?thesis using desk_order_closed_only_by [OF step] by blast
qed

text \<open>
  A client that cancels its order at or after the deadline gets the fee back and the
  penalty of the device on top; the order is closed and the device keeps its state, so a busy
  device is stuck until it registers again.
\<close>

theorem desk_cancel_fines_device:
  assumes "currency (currency_impl cfg) free reserved alive ed" and "desk_covered reserved alive s"
    and "c_orders s d = Some od" and "c_devices s d = Some p"
    and "can_settle free reserved alive ed (h_currency s) d
      \<lparr>dep_client = o_client od, dep_fee = o_fee od, dep_penalty = dvc_penalty p\<rparr>"
    and "ensure_signed cfg origin = Inr (o_client od)" and "o_until od \<le> h_now s"
  shows "\<exists>t. cancel_cli cfg origin d s = (Inr (), t) \<and>
    c_orders t = (c_orders s)(d := None) \<and> c_devices t = c_devices s \<and>
    (free (h_currency t), reserved (h_currency t)) =
      settle Fine d \<lparr>dep_client = o_client od, dep_fee = o_fee od, dep_penalty = dvc_penalty p\<rparr>
        (free (h_currency s), reserved (h_currency s))"
proof -
  have esc: "client_escrow cfg free reserved alive ed" using assms(1) by (simp add: client_escrow_def)
  have "cancel_cli cfg origin d s = order_reject_cli cfg (o_client od) od (h_now s) d p s"
    using assms(3,4,6,7) by (auto simp: cancel_cli_def Let_def)
  moreover have "(c_devices s)(d \<mapsto> p) = c_devices s" using assms(4) by auto
  moreover have "settlement_of False (h_now s) (o_until od) = Fine"
    using assms(7) by (simp add: settlement_of_def not_less)
  ultimately show ?thesis
    using client_escrow.reject_settles [OF esc assms(2-4) refl assms(5)] by simp
qed

theorem desk_cancel_fines_device_witness:
  "\<exists>t. cancel_cli sample_env (Some 200) 100 (sample_desk 5000 Busy (Some desk_order)) = (Inr (), t) \<and>
    ledger_free (h_currency t) 200 = 900000 + 100000 + 10000 \<and> desk_phase t 100 = Stuck"
proof -
  let ?s = "sample_desk 5000 Busy (Some desk_order)"
  have ex: "\<exists>t. cancel_cli sample_env (Some 200) 100 ?s = (Inr (), t) \<and>
    c_orders t = (c_orders ?s)(100 := None) \<and> c_devices t = c_devices ?s \<and>
    (ledger_free (h_currency t), ledger_reserved (h_currency t)) =
      settle Fine 100 \<lparr>dep_client = o_client desk_order, dep_fee = o_fee desk_order,
        dep_penalty = dvc_penalty (sample_desk_profile Busy)\<rparr>
        (ledger_free (h_currency ?s), ledger_reserved (h_currency ?s))"
    by (rule desk_cancel_fines_device [OF desk_currency sample_desk_covered])
      (simp_all add: can_settle_def desk_defs ledger_observers signed_by_def)
  have kind: "o_client desk_order = 200" "o_fee desk_order = 100000"
    "dvc_penalty (sample_desk_profile Busy) = 10000"
    and dev: "c_devices ?s 100 = Some (sample_desk_profile Busy)"
      "dvc_state (sample_desk_profile Busy) = Busy"
    by (simp_all add: desk_defs)
  show ?thesis using ex unfolding kind
    by (force simp: desk_funds Let_def desk_phase_def dev)
qed

section \<open>What the desk does not check\<close>

text \<open>Two orders are open: client 200 with device 100, client 201 with device 101.\<close>

definition two_orders ::
  "(account_id, order_payload, account_id ledger, outbox) client_state" where
  "two_orders =
    \<lparr>h_now = 3000, h_currency = [100 \<mapsto> \<lparr>acc_free = 990000, acc_reserved = 10000\<rparr>,
       101 \<mapsto> \<lparr>acc_free = 990000, acc_reserved = 10000\<rparr>,
       200 \<mapsto> \<lparr>acc_free = 900000, acc_reserved = 100000\<rparr>,
       201 \<mapsto> \<lparr>acc_free = 900000, acc_reserved = 100000\<rparr>],
     h_outbox = [],
     c_devices = [100 \<mapsto> sample_desk_profile Busy, 101 \<mapsto> sample_desk_profile Busy],
     c_orders = [100 \<mapsto> desk_order, 101 \<mapsto> desk_order\<lparr>o_client := 201\<rparr>], c_events = []\<rparr>"

text \<open>What a report moves, whatever client it names.\<close>

lemma done_report_moves:
  assumes cur: "currency (currency_impl cfg) free reserved alive ed"
    and od: "c_orders s d = Some od" and dev: "c_devices s d = Some p" and time: "h_now s < o_until od"
    and neq: "who \<noteq> d" and live: "alive (h_currency s) d" and rich: "ed \<le> free (h_currency s) who"
  obtains t where "on_done_cli cfg who d onoff s = (Inr (), t)"
    and "c_orders t = (c_orders s)(d := None)"
    and "reserved (h_currency t) = (reserved (h_currency s))
      (who := reserved (h_currency s) who - min (unat (o_fee od)) (reserved (h_currency s) who),
       d := reserved (h_currency s) d - min (unat (dvc_penalty p)) (reserved (h_currency s) d))"
    and "free (h_currency t) d = free (h_currency s) d +
      min (unat (o_fee od)) (reserved (h_currency s) who) +
      min (unat (dvc_penalty p)) (reserved (h_currency s) d)"
proof -
  let ?c = "h_currency s"
  obtain rest c where c: "repatriate_reserved (currency_impl cfg) who d (o_fee od) Free ?c = (Inr rest, c)"
    by (rule currency.repatriate_alive [OF cur live])
  have "ed \<le> free ?c who + reserved ?c who - min (unat (o_fee od)) (reserved ?c who)"
    using rich by linarith
  with currency.repatriate_keeps [OF cur c refl]
  have moved: "free c = (free ?c)(d := free ?c d + min (unat (o_fee od)) (reserved ?c who))"
    "reserved c = (reserved ?c)(who := reserved ?c who - min (unat (o_fee od)) (reserved ?c who))" by simp_all
  obtain q c' where c': "unreserve (currency_impl cfg) d (dvc_penalty p) c = (q, c')" by fastforce
  note freed = currency.unreserve_moves [OF cur c']
  let ?t = "snd (on_done_cli cfg who d onoff s)"
  have "on_done_cli cfg who d onoff s = (Inr (), ?t)" "c_orders ?t = (c_orders s)(d := None)"
    "h_currency ?t = c'"
    using od dev time c c'
    by (simp_all add: on_done_cli_def Let_def repatriate_now_def unreserve_now_def storage_cli_defs)
  with freed moved neq show ?thesis by (intro that [of ?t]) (auto simp: fun_eq_iff)
qed

text \<open>
  Claim C36. The desk neither looks at the chain a report comes from nor at the client it names: when
  any parachain reports before the deadline that a device is done for another client than the one
  that ordered, the order is closed, the device is paid from what the other client has in reserve,
  for whatever purpose, and the deposit of the client that ordered stays in reserve, with no
  order left to release it. The three accounts differ, the device exists, and the other client
  has the existential deposit free.
\<close>

theorem forged_report_takes_other_deposit:
  assumes "currency (currency_impl cfg) free reserved alive ed"
    and "c_orders s d = Some od" and "c_devices s d = Some p" and "h_now s < o_until od"
    and "decode_with (message_impl cfg) blob = Some (OrderDone who d onoff)"
    and "who \<noteq> d" and "o_client od \<notin> {who, d}"
    and "alive (h_currency s) d" and "ed \<le> free (h_currency s) who"
    and "t = handle_blob_message_cli cfg sender n blob s"
  shows "c_orders t d = None \<and>
    reserved (h_currency t) (o_client od) = reserved (h_currency s) (o_client od) \<and>
    (\<exists>m. m = min (unat (o_fee od)) (reserved (h_currency s) who) \<and>
      reserved (h_currency t) who = reserved (h_currency s) who - m \<and>
      free (h_currency s) d + m \<le> free (h_currency t) d)"
proof -
  obtain u where u: "on_done_cli cfg who d onoff s = (Inr (), u)" "c_orders u = (c_orders s)(d := None)"
    "reserved (h_currency u) = (reserved (h_currency s))
      (who := reserved (h_currency s) who - min (unat (o_fee od)) (reserved (h_currency s) who),
       d := reserved (h_currency s) d - min (unat (dvc_penalty p)) (reserved (h_currency s) d))"
    "free (h_currency u) d = free (h_currency s) d +
      min (unat (o_fee od)) (reserved (h_currency s) who) +
      min (unat (dvc_penalty p)) (reserved (h_currency s) d)"
    by (rule done_report_moves [OF assms(1-4,6,8,9)])
  from assms(5,10) u(1) have "t = u" by (simp add: handle_blob_message_cli_def)
  with u assms(6,7) show ?thesis by simp
qed

theorem forged_report_takes_other_deposit_witness:
  "let t = handle_blob_message_cli sample_env 300 7
        (encode_with runtime_messages (OrderDone 201 100 True)) two_orders
   in c_orders t 100 = None \<and> ledger_reserved (h_currency t) 200 = 100000 \<and>
     ledger_reserved (h_currency t) 201 = 0"
proof -
  have dec: "decode_with (message_impl sample_env) (encode_with runtime_messages (OrderDone 201 100 True))
      = Some (OrderDone 201 100 True :: (account_id, order_payload) xcmp_message)"
    using runtime.decode_encode_message [of "OrderDone 201 100 True" "[]"] by simp
  have "c_orders two_orders 100 = Some desk_order" "c_devices two_orders 100 = Some (sample_desk_profile Busy)"
    "h_now two_orders < o_until desk_order" "o_client desk_order \<notin> {201, 100}"
    "ledger_alive (h_currency two_orders) 100" "500 \<le> ledger_free (h_currency two_orders) 201"
    "ledger_reserved (h_currency two_orders) 200 = 100000"
    "ledger_reserved (h_currency two_orders) 201 = 100000" "unat (o_fee desk_order) = 100000"
    "o_client desk_order = 200"
    by (simp_all add: two_orders_def desk_defs ledger_observers ledger_alive_def)
  note facts = this
  from forged_report_takes_other_deposit [where who = 201 and sender = 300 and n = 7,
      OF desk_currency, OF facts(1-3) dec _ facts(4-6) refl] facts(7-)
  show ?thesis by (simp add: Let_def)
qed

end
