(* ===== verification/ClientHistory.thy ===== *)
theory ClientHistory
  imports ClientRuleProps
begin

text \<open>
  The events of the client pallet as a record of its orders. \<open>desk_change\<close> says what one input adds
  to the events and how that goes with the change of the order map; summed over a run, every
  announced order is settled exactly once or still open.
\<close>

section \<open>What one input records\<close>

definition sends_ok :: "('o, 'a, 'p, 'c, 'q, 'x) env_scheme \<Rightarrow> bool" where
  "sends_ok cfg \<longleftrightarrow> (\<forall>para blob quality q. \<exists>n q'. send_blob_message cfg para blob quality q = (Inr n, q'))"

fun neutral_event :: "'a client_event \<Rightarrow> bool" where
  "neutral_event (CeNewDevice d) = True"
| "neutral_event (CeBadVersion h) = True"
| "neutral_event _ = False"

fun report_event :: "('a, 'p) xcmp_message \<Rightarrow> 'a client_event option" where
  "report_event (NewOrder who ob) = None"
| "report_event (OrderAccept who d) = Some (CeAccept who d)"
| "report_event (OrderReject who d b) = Some (CeReject who d)"
| "report_event (OrderDone who d b) = Some (CeDone who d)"

fun closes_device :: "('a, 'p) xcmp_message \<Rightarrow> 'a option" where
  "closes_device (OrderReject who d b) = Some d"
| "closes_device (OrderDone who d b) = Some d"
| "closes_device _ = None"

inductive desk_change ::
  "('o, 'a, 'p, 'c, 'q) env \<Rightarrow> ('o, 'a, 'p) client_input \<Rightarrow> ('a, 'p, 'c, 'q) client_state \<Rightarrow>
   ('a, 'p, 'c, 'q) client_state \<Rightarrow> bool"
  for cfg i s t where
  quiet: "c_orders t = c_orders s \<Longrightarrow> c_events t = c_events s @ evs \<Longrightarrow> list_all neutral_event evs \<Longrightarrow>
    desk_change cfg i s t"
| placed: "i = CliOrder origin ob \<Longrightarrow> ensure_signed cfg origin = Inr who \<Longrightarrow>
    c_orders s (ob_device ob) = None \<Longrightarrow>
    c_orders t = (c_orders s)(ob_device ob \<mapsto> order_base_convert ob who) \<Longrightarrow>
    c_events t = c_events s @ [CeNewOrder who (ob_device ob)] \<Longrightarrow> desk_change cfg i s t"
| unsent: "\<not> sends_ok cfg \<Longrightarrow> i = CliOrder origin ob \<Longrightarrow> ensure_signed cfg origin = Inr who \<Longrightarrow>
    c_orders s (ob_device ob) = None \<Longrightarrow>
    c_orders t = (c_orders s)(ob_device ob \<mapsto> order_base_convert ob who) \<Longrightarrow>
    c_events t = c_events s \<Longrightarrow> desk_change cfg i s t"
| cancelled: "c_orders s d = Some od \<Longrightarrow> c_orders t = (c_orders s)(d := None) \<Longrightarrow>
    c_events t = c_events s @ [CeReject (o_client od) d] \<Longrightarrow> desk_change cfg i s t"
| reported: "i = CliBlob p n b \<Longrightarrow> decode_with (message_impl cfg) b = Some m \<Longrightarrow>
    closes_device m = Some d \<Longrightarrow> report_event m = Some ev \<Longrightarrow> c_orders s d = Some od \<Longrightarrow>
    c_orders t = (c_orders s)(d := None) \<Longrightarrow> c_events t = c_events s @ [ev] \<Longrightarrow>
    desk_change cfg i s t"
| accepted: "i = CliBlob p n b \<Longrightarrow> decode_with (message_impl cfg) b = Some (OrderAccept who d) \<Longrightarrow>
    c_orders t = c_orders s \<Longrightarrow> c_events t = c_events s @ [CeAccept who d] \<Longrightarrow> desk_change cfg i s t"

lemma quiet_same: "c_orders t = c_orders s \<Longrightarrow> c_events t = c_events s \<Longrightarrow> desk_change cfg i s t"
  by (rule quiet [where evs = "[]"]) simp_all

section \<open>Every input\<close>

lemma events_cli [simp]:
  "c_events (put_device_cli d p s) = c_events s"
  "c_events (remove_device_cli d s) = c_events s"
  "c_events (put_order_cli d od s) = c_events s"
  "c_events (remove_order_cli d s) = c_events s"
  "c_events (deposit_event_cli ev s) = c_events s @ [ev]"
  by (simp_all add: storage_cli_defs)

lemma send_fails:
  "send_message_now cfg para m err s = (Inl e, t) \<Longrightarrow> \<not> sends_ok cfg"
  by (auto simp: send_message_now_def send_blob_now_def sends_ok_def split: prod.splits sum.splits)
    (metis Inl_Inr_False fst_conv)

lemma order_cli_events:
  assumes "order_cli cfg origin ob s = (r, t)"
  shows "c_orders t = c_orders s \<and> c_events t = c_events s \<or>
    (\<exists>who. ensure_signed cfg origin = Inr who \<and> c_orders s (ob_device ob) = None \<and>
      c_orders t = (c_orders s)(ob_device ob \<mapsto> order_base_convert ob who) \<and>
      (if r = Inr () then c_events t = c_events s @ [CeNewOrder who (ob_device ob)]
       else \<not> sends_ok cfg \<and> c_events t = c_events s))"
  using assms
  by (auto simp: order_cli_def Let_def and_then_def try_pure_def host_calls_cli
      dest: send_fails split: option.splits if_splits prod.splits sum.splits)

lemma order_change:
  assumes "i = CliOrder origin ob" and "order_cli cfg origin ob s = (r, t)"
  shows "desk_change cfg i s t"
  using order_cli_events [OF assms(2)]
  by (auto intro: quiet_same placed [OF assms(1)] unsent [OF _ assms(1)] split: if_splits)

lemma order_reject_events:
  assumes "order_reject_cli cfg who od now d dev s = (r, t)"
  shows "c_events t = (if r = Inr () then c_events s @ [CeReject who d] else c_events s)"
  using assms
  by (auto simp: order_reject_cli_def Let_def and_then_def host_calls_cli
      split: if_splits prod.splits sum.splits)

lemma cancel_change:
  assumes "cancel_cli cfg origin d s = (r, t)"
  shows "desk_change cfg i s t"
  using cancel_cli_cases [OF assms]
proof (elim disjE exE conjE)
  fix od dev
  assume od: "c_orders s d = Some od"
    and rej: "order_reject_cli cfg (o_client od) od (h_now s) d dev s = (r, t)"
  from order_reject_cli_storage [OF rej] order_reject_events [OF rej] od
  show ?thesis by (auto intro: quiet_same cancelled)
qed (simp add: quiet_same)

lemma on_reject_events:
  assumes "on_reject_cli cfg who d onoff s = (r, t)"
  shows "c_orders t = c_orders s \<and> c_events t = c_events s \<or>
    (\<exists>od. c_orders s d = Some od \<and> c_orders t = (c_orders s)(d := None) \<and>
      c_events t = c_events s @ [CeReject who d])"
  using on_reject_cases [OF assms]
proof (elim disjE exE conjE)
  fix od dev
  assume od: "c_orders s d = Some od" and rej: "order_reject_cli cfg who od (h_now s) d
    (dev\<lparr>dvc_state := state_of_onoff onoff\<rparr>) s = (r, t)"
  from order_reject_cli_storage [OF rej] order_reject_events [OF rej] od show ?thesis by auto
qed simp

lemma on_done_events:
  assumes "on_done_cli cfg who d onoff s = (r, t)"
  shows "c_orders t = c_orders s \<and> c_events t = c_events s \<or>
    (\<exists>od. c_orders s d = Some od \<and> c_orders t = (c_orders s)(d := None) \<and>
      c_events t = c_events s @ [CeDone who d])"
  using assms
  by (auto simp: on_done_cli_def Let_def and_then_def try_pure_def host_calls_cli
      split: option.splits if_splits prod.splits sum.splits)

lemma blob_change:
  assumes "i = CliBlob p n b"
  shows "desk_change cfg i s (handle_blob_message_cli cfg p n b s)"
proof (cases "decode_with (message_impl cfg) b")
  case None
  then show ?thesis by (simp add: handle_blob_message_cli_def quiet_same)
next
  case (Some m)
  show ?thesis
  proof (cases m)
    case (NewOrder who ob)
    with Some show ?thesis by (simp add: handle_blob_message_cli_def quiet_same)
  next
    case (OrderAccept who d)
    with Some show ?thesis
      by (intro accepted [OF assms]) (simp_all add: handle_blob_message_cli_def on_accept_cli_def)
  next
    case (OrderReject who d onoff)
    with Some on_reject_events [OF prod.collapse [symmetric], of cfg who d onoff s] show ?thesis
      by (auto simp: handle_blob_message_cli_def intro: quiet_same reported [OF assms])
  next
    case (OrderDone who d onoff)
    with Some on_done_events [OF prod.collapse [symmetric], of cfg who d onoff s] show ?thesis
      by (auto simp: handle_blob_message_cli_def intro: quiet_same reported [OF assms])
  qed
qed

lemma quiet_one:
  "c_orders t = c_orders s \<Longrightarrow> c_events t = c_events s @ [ev] \<Longrightarrow> neutral_event ev \<Longrightarrow>
    desk_change cfg i s t"
  by (rule quiet [where evs = "[ev]"]) simp_all

lemma dispatch_change:
  assumes "dispatch_cli cfg i s = (r, t)"
  shows "desk_change cfg i s t"
proof (cases i)
  case (CliTest origin)
  with assms show ?thesis by (auto dest!: test_storage intro: quiet_same)
next
  case (CliRegister origin para pen w onoff)
  with assms show ?thesis
    by (auto simp: register_cli_def try_pure_def intro: quiet_same quiet_one
        split: sum.splits if_splits)
next
  case (CliKilled a)
  with assms show ?thesis
    by (auto simp: on_killed_account_cli_def intro: quiet_same split: option.splits if_splits)
next
  case (CliXcm p n x)
  with assms show ?thesis
    by (auto simp: handle_xcm_message_cli_def Let_def intro: quiet_same quiet_one
        split: sum.splits)
qed (use assms in \<open>auto intro: order_change cancel_change blob_change\<close>)

section \<open>Counting orders\<close>

fun announces :: "'a \<Rightarrow> 'a client_event \<Rightarrow> bool" where
  "announces d (CeNewOrder who x) = (x = d)"
| "announces d _ = False"

fun settles :: "'a \<Rightarrow> 'a client_event \<Rightarrow> bool" where
  "settles d (CeReject who x) = (x = d)"
| "settles d (CeDone who x) = (x = d)"
| "settles d _ = False"

definition count_events :: "('e \<Rightarrow> bool) \<Rightarrow> 'e list \<Rightarrow> nat" where
  "count_events P evs = length (filter P evs)"

lemma count_events_simps [simp]:
  "count_events P [] = 0"
  "count_events P (evs @ evs') = count_events P evs + count_events P evs'"
  "count_events P (e # evs) = (if P e then 1 else 0) + count_events P evs"
  by (simp_all add: count_events_def)

lemma neutral_counts:
  "list_all neutral_event evs \<Longrightarrow> count_events (announces d) evs = 0 \<and> count_events (settles d) evs = 0"
  by (induction evs) (auto elim: neutral_event.elims)

definition open_orders :: "('a, 'p, 'c, 'q) client_state \<Rightarrow> 'a \<Rightarrow> nat" where
  "open_orders s d = (case c_orders s d of None \<Rightarrow> 0 | Some _ \<Rightarrow> 1)"

text \<open>The balance of a device: orders announced against orders settled or open.\<close>

definition orders_balanced :: "bool \<Rightarrow> ('a, 'p, 'c, 'q) client_state \<Rightarrow> bool" where
  "orders_balanced strict s \<longleftrightarrow> (\<forall>d.
    let placed = count_events (announces d) (c_events s);
        settled = count_events (settles d) (c_events s)
    in placed \<le> settled + open_orders s d \<and> (strict \<longrightarrow> placed = settled + open_orders s d))"

lemma closes_reports:
  "closes_device m = Some d \<Longrightarrow> report_event m = Some ev \<Longrightarrow>
    settles x ev = (x = d) \<and> \<not> announces x ev"
  by (cases m) auto

lemma change_balanced:
  assumes "desk_change cfg i s t" and "orders_balanced (sends_ok cfg) s"
  shows "orders_balanced (sends_ok cfg) t"
  unfolding orders_balanced_def Let_def
proof
  fix x
  have x: "count_events (announces x) (c_events s)
      \<le> count_events (settles x) (c_events s) + open_orders s x \<and>
    (sends_ok cfg \<longrightarrow> count_events (announces x) (c_events s)
      = count_events (settles x) (c_events s) + open_orders s x)"
    using assms(2) by (simp add: orders_balanced_def Let_def)
  show "count_events (announces x) (c_events t)
      \<le> count_events (settles x) (c_events t) + open_orders t x \<and>
    (sends_ok cfg \<longrightarrow> count_events (announces x) (c_events t)
      = count_events (settles x) (c_events t) + open_orders t x)"
    using assms(1)
  proof cases
    case (quiet evs)
    with x show ?thesis by (simp add: open_orders_def neutral_counts)
  next
    case (reported p n b m d ev od)
    with x closes_reports [OF reported(3,4)] show ?thesis by (auto simp: open_orders_def)
  qed (use x in \<open>auto simp: open_orders_def\<close>)
qed

definition fresh_desk :: "('a, 'p, 'c, 'q) client_state \<Rightarrow> bool" where
  "fresh_desk s \<longleftrightarrow> client_init s \<and> c_events s = []"

lemma fresh_balanced: "fresh_desk s \<Longrightarrow> orders_balanced strict s"
  by (simp add: fresh_desk_def client_init_def orders_balanced_def open_orders_def)

lemma step_balanced:
  assumes "orders_balanced (sends_ok cfg) s" and "client_step cfg s t"
  shows "orders_balanced (sends_ok cfg) t"
  using assms(2)
proof cases
  case (client_input i r)
  from change_balanced [OF dispatch_change [OF this] assms(1)] show ?thesis .
next
  case (client_environment n c q)
  with assms(1) show ?thesis by (simp add: orders_balanced_def open_orders_def)
qed

interpretation desk_history: invariant_system fresh_desk "client_step cfg"
    "orders_balanced (sends_ok cfg)" for cfg
  by unfold_locales (auto intro: fresh_balanced step_balanced)

section \<open>The property\<close>

text \<open>
  Claim C12. No order of the desk is settled twice or forgotten: whatever messages arrive, in
  whatever order, the orders announced for a device never outnumber those settled (done,
  rejected or cancelled) plus the one that is open; when the channels take every message, they
  are exactly as many.
\<close>

theorem desk_settles_each_order_once:
  assumes "reachable fresh_desk (client_step cfg) s"
  shows "count_events (announces d) (c_events s)
      \<le> count_events (settles d) (c_events s) + open_orders s d \<and>
    (sends_ok cfg \<longrightarrow> count_events (announces d) (c_events s)
      = count_events (settles d) (c_events s) + open_orders s d)"
  using desk_history.reachable_inv [OF assms] by (simp add: orders_balanced_def Let_def)

lemma fresh_run: "reachable fresh_desk (client_step sample_env) ordered_desk"
proof -
  have init: "fresh_desk empty_desk" by (simp add: fresh_desk_def client_init_def empty_desk_def)
  have steps: "dispatch_cli sample_env (CliRegister (Some 100) 200 10000 1000 True) empty_desk
      = (fst (register_cli sample_env (Some 100) 200 10000 1000 True empty_desk), registered_desk)"
    "dispatch_cli sample_env (CliOrder (Some 200) desk_request) registered_desk
      = (fst (order_cli sample_env (Some 200) desk_request registered_desk), ordered_desk)"
    by (simp_all add: registered_desk_def ordered_desk_def)
  show ?thesis
    by (rule reachable_step [OF reachable_step [OF reachable_init [of fresh_desk]]])
      (rule init client_input [OF steps(1)] client_input [OF steps(2)])+
qed

theorem desk_settles_each_order_once_witness:
  "count_events (announces 100) (c_events ordered_desk)
    = count_events (settles 100) (c_events ordered_desk) + 1"
proof -
  have "sends_ok sample_env" by (simp add: sends_ok_def queue_send_def)
  moreover have "open_orders ordered_desk 100 = 1"
    by (simp add: open_orders_def ordered_desk_eq sample_desk_def)
  ultimately show ?thesis using desk_settles_each_order_once [OF fresh_run, of 100] by simp
qed

section \<open>Where stored orders come from\<close>

text \<open>The runs of the pallet with the inputs they process, oldest first.\<close>

inductive desk_trace ::
  "('o, 'a, 'p, 'c, 'q) env \<Rightarrow> ('a, 'p, 'c, 'q) client_state \<Rightarrow> ('o, 'a, 'p) client_input list \<Rightarrow>
   ('a, 'p, 'c, 'q) client_state \<Rightarrow> bool"
  for cfg s where
  trace_start: "desk_trace cfg s [] s"
| trace_input: "desk_trace cfg s is t \<Longrightarrow> dispatch_cli cfg i t = (r, u) \<Longrightarrow>
    desk_trace cfg s (is @ [i]) u"
| trace_environment: "desk_trace cfg s is t \<Longrightarrow> h_now t \<le> n \<Longrightarrow>
    desk_trace cfg s is (t\<lparr>h_now := n, h_currency := c, h_outbox := q\<rparr>)"

lemma input_stores_order:
  assumes "dispatch_cli cfg i s = (r, t)" and "c_orders t d = Some od" and "c_orders s d \<noteq> Some od"
  shows "\<exists>origin ob who p. i = CliOrder origin ob \<and> ensure_signed cfg origin = Inr who \<and>
    ob_device ob = d \<and> admissible_cli ob s p \<and> od = order_base_convert ob who"
proof -
  have "\<exists>origin ob who. i = CliOrder origin ob \<and> ensure_signed cfg origin = Inr who \<and>
      ob_device ob = d \<and> od = order_base_convert ob who"
    using dispatch_change [OF assms(1)] assms(2,3) by cases (auto split: if_splits)
  then obtain origin ob who where i: "i = CliOrder origin ob" and rest: "ensure_signed cfg origin = Inr who"
    "ob_device ob = d" "od = order_base_convert ob who" by blast
  have "\<exists>p. admissible_cli ob s p"
  proof (rule ccontr)
    assume "\<not> ?thesis"
    then obtain e where "order_cli cfg origin ob s = (Inl e, s)"
      using order_not_admissible [of ob s cfg origin "\<exists>e. order_cli cfg origin ob s = (Inl e, s)"]
      by metis
    with assms i show False by simp
  qed
  with i rest show ?thesis by blast
qed

text \<open>
  Claim C29. Every order open on the client chain was submitted. In any run from empty storage,
  the order of a device is one that a signed \<^verbatim>\<open>order\<close> call of the run
  placed: its client is the signer, its deadline, payload and fee are those of the call, its
  device is the one the call names, its parachain field is the placeholder zero, and when the call
  came, the deadline was ahead, the device was registered, ready and without an order, and its
  work cycle, added with wrap-around, fitted.
\<close>

theorem desk_orders_are_as_submitted:
  assumes "client_init s" and "desk_trace cfg s inputs t" and "c_orders t d = Some od"
  shows "\<exists>before after origin ob who p u. inputs = before @ CliOrder origin ob # after \<and>
    desk_trace cfg s before u \<and> ensure_signed cfg origin = Inr who \<and>
    ob_device ob = d \<and> od = \<lparr>o_until = ob_until ob, o_data = ob_data ob, o_fee = ob_fee ob,
      o_client = who, o_paraid = 0\<rparr> \<and>
    h_now u < o_until od \<and> c_orders u d = None \<and> c_devices u d = Some p \<and>
    dvc_state p = Ready \<and> h_now u + dvc_wcd p \<le> o_until od"
  using assms(2,3)
proof induction
  case trace_start
  with assms(1) show ?case by (simp add: client_init_def)
next
  case (trace_input inputs t i r u)
  show ?case
  proof (cases "c_orders t d = Some od")
    case True
    from trace_input.IH [OF this] show ?thesis
      by (elim exE conjE) (rule exI, rule_tac x = "after @ [i]" in exI, auto)
  next
    case False
    from input_stores_order [OF trace_input.hyps(2) trace_input.prems False]
    obtain origin ob who p where "i = CliOrder origin ob" "ensure_signed cfg origin = Inr who"
      "ob_device ob = d" "admissible_cli ob t p" "od = order_base_convert ob who" by blast
    then show ?thesis
      by (intro exI [of _ inputs] exI [of _ "[]"] exI [of _ origin] exI [of _ ob] exI [of _ who]
          exI [of _ p] exI [of _ t])
        (use trace_input.hyps(1) in \<open>simp add: admissible_cli_def order_base_convert_def\<close>)
  qed
next
  case (trace_environment inputs t n c q)
  then show ?case by simp
qed

theorem desk_orders_are_as_submitted_witness:
  "\<exists>before after. [CliRegister (Some 100) 200 10000 1000 True, CliOrder (Some 200) desk_request]
      = before @ CliOrder (Some 200) desk_request # after \<and>
    desk_order = \<lparr>o_until = ob_until desk_request, o_data = ob_data desk_request,
      o_fee = ob_fee desk_request, o_client = 200, o_paraid = 0\<rparr>"
proof -
  have init: "client_init empty_desk" by (simp add: client_init_def empty_desk_def)
  have "desk_trace sample_env empty_desk ([] @ [CliRegister (Some 100) 200 10000 1000 True]) registered_desk"
    by (rule desk_trace.trace_input [OF desk_trace.trace_start, of _ _ _
        "fst (register_cli sample_env (Some 100) 200 10000 1000 True empty_desk)"])
      (simp add: registered_desk_def)
  then have "desk_trace sample_env empty_desk (([] @ [CliRegister (Some 100) 200 10000 1000 True])
      @ [CliOrder (Some 200) desk_request]) ordered_desk"
    by (rule desk_trace.trace_input [of _ _ _ _ _
        "fst (order_cli sample_env (Some 200) desk_request registered_desk)"])
      (simp add: ordered_desk_def)
  then have run: "desk_trace sample_env empty_desk
      [CliRegister (Some 100) 200 10000 1000 True, CliOrder (Some 200) desk_request] ordered_desk" by simp
  have "c_orders ordered_desk 100 = Some desk_order" by (simp add: ordered_desk_eq sample_desk_def)
  from desk_orders_are_as_submitted [OF init run this] show ?thesis
    by (auto simp: Cons_eq_append_conv signed_by_def split: option.splits)
qed

end
