(* ===== verification/Service.thy ===== *)
theory Service
  imports Currency
begin

text \<open>
  The service pallet (\<^verbatim>\<open>pallets/service/src/lib.rs\<close>): its storage, events and errors, the six
  dispatchables, the four functions they share, the reaction to a reaped account and the two
  message handlers. Operations carry the suffix \<open>_svc\<close>, because the client pallet has
  operations of the same names. A dispatchable returns its \<^verbatim>\<open>DispatchResult\<close> and the state it
  leaves, on every branch.
\<close>

section \<open>Storage, events, errors, configuration\<close>

record device_profile_svc =
  dev_state :: device_state
  dev_penalty :: balance
  dev_wcd :: moment

datatype 'a service_event =
    EvNewDevice 'a
  | EvNewOrder 'a
  | EvAccept 'a
  | EvReject 'a
  | EvDone 'a
  | EvBadVersion hash
  | EvMessageReceived "byte list"

datatype service_error =
    NoneValue | Prohibited | DeviceExists | DeviceLowBail | NoOrder | BadOrderDetails
  | NoDevice | IllegalState | Overdue | CannotReachDestination

record ('a, 'p, 'c, 'q) service_state = "('c, 'q) host" +
  s_devices :: "'a \<Rightarrow> device_profile_svc option"
  s_orders :: "'a \<Rightarrow> ('a, 'p) order option"
  s_events :: "'a service_event list"

record ('o, 'a, 'p, 'c, 'q) service_config = "('o, 'a, 'p, 'c, 'q) env" +
  self_para_id :: para_id
  on_received :: "'a \<Rightarrow> ('a, 'p) order \<Rightarrow> device_state option"

type_synonym ('a, 'p, 'c, 'q) service_result =
  "(service_error dispatch_error, unit, ('a, 'p, 'c, 'q) service_state) outcome"

text \<open>The implementation of \<^verbatim>\<open>OnReceived\<close> for \<^verbatim>\<open>()\<close>.\<close>

definition on_received_unit :: "'a \<Rightarrow> ('a, 'p) order \<Rightarrow> device_state option" where
  "on_received_unit device od = Some Busy"

text \<open>Writes to the pallet's storage.\<close>

definition put_device_svc ::
  "'a \<Rightarrow> device_profile_svc \<Rightarrow> ('a, 'p, 'c, 'q) service_state \<Rightarrow> ('a, 'p, 'c, 'q) service_state"
  where
  "put_device_svc d p s = s\<lparr>s_devices := (s_devices s)(d \<mapsto> p)\<rparr>"

definition remove_device_svc ::
  "'a \<Rightarrow> ('a, 'p, 'c, 'q) service_state \<Rightarrow> ('a, 'p, 'c, 'q) service_state" where
  "remove_device_svc d s = s\<lparr>s_devices := (s_devices s)(d := None)\<rparr>"

definition put_order_svc ::
  "'a \<Rightarrow> ('a, 'p) order \<Rightarrow> ('a, 'p, 'c, 'q) service_state \<Rightarrow> ('a, 'p, 'c, 'q) service_state"
  where
  "put_order_svc d od s = s\<lparr>s_orders := (s_orders s)(d \<mapsto> od)\<rparr>"

definition remove_order_svc ::
  "'a \<Rightarrow> ('a, 'p, 'c, 'q) service_state \<Rightarrow> ('a, 'p, 'c, 'q) service_state" where
  "remove_order_svc d s = s\<lparr>s_orders := (s_orders s)(d := None)\<rparr>"

definition deposit_event_svc ::
  "'a service_event \<Rightarrow> ('a, 'p, 'c, 'q) service_state \<Rightarrow> ('a, 'p, 'c, 'q) service_state" where
  "deposit_event_svc ev s = s\<lparr>s_events := s_events s @ [ev]\<rparr>"

lemmas storage_svc_defs =
  put_device_svc_def remove_device_svc_def put_order_svc_def remove_order_svc_def
  deposit_event_svc_def

section \<open>The shared functions\<close>

definition order_accept_svc ::
  "('o, 'a, 'p, 'c, 'q) service_config \<Rightarrow> ('a, 'p) order \<Rightarrow> moment \<Rightarrow> 'a \<Rightarrow>
   device_profile_svc \<Rightarrow> ('a, 'p, 'c, 'q) service_state \<Rightarrow> ('a, 'p, 'c, 'q) service_state" where
  "order_accept_svc cfg od now device dev s =
    (let dev = dev\<lparr>dev_state := Busy2\<rparr>;
         s = put_device_svc device dev s;
         s = (if o_paraid od \<noteq> self_para_id cfg
              then snd (send_message_now cfg (o_paraid od) (OrderAccept (o_client od) device)
                          CannotReachDestination s)
              else s)
     in deposit_event_svc (EvAccept device) s)"

definition order_reject_svc ::
  "('o, 'a, 'p, 'c, 'q) service_config \<Rightarrow> ('a, 'p) order option \<Rightarrow> moment \<Rightarrow> 'a \<Rightarrow>
   device_profile_svc \<Rightarrow> bool \<Rightarrow> ('a, 'p, 'c, 'q) service_state \<Rightarrow>
   ('a, 'p, 'c, 'q) service_result" where
  "order_reject_svc cfg ord now device dev onoff s =
    and_then
      (case ord of
        None \<Rightarrow> (Inr (), s)
      | Some od \<Rightarrow>
          if o_paraid od = self_para_id cfg then
            (let s = unreserve_now cfg (o_client od) (o_fee od) s
             in if now < o_until od
                then (Inr (), unreserve_now cfg device (dev_penalty dev) s)
                else and_then (repatriate_now cfg device (o_client od) (dev_penalty dev) s)
                       (\<lambda>_ s. (Inr (), s)))
          else
            send_message_now cfg (o_paraid od) (OrderReject (o_client od) device onoff)
              CannotReachDestination s)
      (\<lambda>_ s. (Inr (),
         deposit_event_svc (EvReject device)
           (put_device_svc device dev (remove_order_svc device s))))"

definition order_done_svc ::
  "('o, 'a, 'p, 'c, 'q) service_config \<Rightarrow> ('a, 'p) order \<Rightarrow> moment \<Rightarrow> 'a \<Rightarrow>
   device_profile_svc \<Rightarrow> bool \<Rightarrow> ('a, 'p, 'c, 'q) service_state \<Rightarrow>
   ('a, 'p, 'c, 'q) service_result" where
  "order_done_svc cfg od now device dev onoff s =
    (let dev = dev\<lparr>dev_state := (if onoff then Ready else Off)\<rparr>;
         s = put_device_svc device dev s
     in and_then
          (if o_paraid od = self_para_id cfg then
             and_then (repatriate_now cfg (o_client od) device (o_fee od) s)
               (\<lambda>_ s. if now < o_until od
                      then (Inr (), unreserve_now cfg device (dev_penalty dev) s)
                      else and_then
                             (repatriate_now cfg device (o_client od) (dev_penalty dev) s)
                             (\<lambda>_ s. (Inr (), s)))
           else
             send_message_now cfg (o_paraid od) (OrderDone (o_client od) device onoff)
               CannotReachDestination s)
          (\<lambda>_ s. (Inr (), deposit_event_svc (EvDone device) s)))"

definition order_received_svc ::
  "('o, 'a, 'p, 'c, 'q) service_config \<Rightarrow> ('a, 'p) order \<Rightarrow> 'a \<Rightarrow>
   ('a, 'p, 'c, 'q) service_state \<Rightarrow> ('a, 'p, 'c, 'q) service_result" where
  "order_received_svc cfg od device s =
    (let now = h_now s
     in if o_until od \<le> now then (Inl (Pallet Overdue), s)
        else if s_orders s device \<noteq> None then (Inl (Pallet IllegalState), s)
        else try_pure (ok_or (s_devices s device) (Pallet NoDevice)) s (\<lambda>dev.
          if dev_state dev \<noteq> Ready then (Inl (Pallet IllegalState), s)
          else if o_until od < now + dev_wcd dev then (Inl (Pallet BadOrderDetails), s)
          else try_pure (ok_or (on_received cfg device od) (Pallet IllegalState)) s (\<lambda>st.
            let dev = dev\<lparr>dev_state := st\<rparr>
            in and_then
                 (if o_paraid od = self_para_id cfg then
                    (if \<not> can_reserve_now cfg (o_client od) (o_fee od) s
                     then (Inl (Pallet DeviceLowBail), s)
                     else and_then (reserve_now cfg device (dev_penalty dev) s)
                            (\<lambda>_ s. reserve_now cfg (o_client od) (o_fee od) s))
                  else (Inr (), s))
                 (\<lambda>_ s.
                   let s = put_order_svc device od s;
                       s = deposit_event_svc (EvNewOrder device) s
                   in (Inr (),
                       if dev_state dev = Busy2 then order_accept_svc cfg od now device dev s
                       else put_device_svc device dev s)))))"

section \<open>The dispatchables\<close>

definition order_svc ::
  "('o, 'a, 'p, 'c, 'q) service_config \<Rightarrow> 'o \<Rightarrow> ('a, 'p) order_base \<Rightarrow>
   ('a, 'p, 'c, 'q) service_state \<Rightarrow> ('a, 'p, 'c, 'q) service_result" where
  "order_svc cfg origin ob s =
    try_pure (foreign (ensure_signed cfg origin)) s (\<lambda>who.
      order_received_svc cfg
        \<lparr>o_until = ob_until ob, o_data = ob_data ob, o_fee = ob_fee ob,
         o_client = who, o_paraid = self_para_id cfg\<rparr>
        (ob_device ob) s)"

definition cancel_svc ::
  "('o, 'a, 'p, 'c, 'q) service_config \<Rightarrow> 'o \<Rightarrow> 'a \<Rightarrow>
   ('a, 'p, 'c, 'q) service_state \<Rightarrow> ('a, 'p, 'c, 'q) service_result" where
  "cancel_svc cfg origin device s =
    try_pure (foreign (ensure_signed cfg origin)) s (\<lambda>who.
    try_pure (ok_or (s_orders s device) (Pallet NoOrder)) s (\<lambda>od.
      let now = h_now s
      in if now < o_until od \<or> o_client od \<noteq> who then (Inl (Pallet Prohibited), s)
         else try_pure (ok_or (s_devices s device) (Pallet NoDevice)) s (\<lambda>dev.
                order_reject_svc cfg (Some od) now device dev False s)))"

definition accept_svc ::
  "('o, 'a, 'p, 'c, 'q) service_config \<Rightarrow> 'o \<Rightarrow> bool \<Rightarrow> bool \<Rightarrow>
   ('a, 'p, 'c, 'q) service_state \<Rightarrow> ('a, 'p, 'c, 'q) service_result" where
  "accept_svc cfg origin reject onoff s =
    try_pure (foreign (ensure_signed cfg origin)) s (\<lambda>device.
      let ord = s_orders s device
      in try_pure (ok_or (s_devices s device) (Pallet NoDevice)) s (\<lambda>dev.
           let now = h_now s
           in if reject then
                (if dev_state dev \<noteq> Busy \<and> dev_state dev \<noteq> Busy2
                 then (Inl (Pallet IllegalState), s)
                 else order_reject_svc cfg ord now device
                        (dev\<lparr>dev_state := (if onoff then Ready else Off)\<rparr>) onoff s)
              else if dev_state dev \<noteq> Busy then (Inl (Pallet IllegalState), s)
              else try_pure (ok_or ord (Pallet NoOrder)) s (\<lambda>od.
                if o_until od \<le> now then (Inl (Pallet Overdue), s)
                else (Inr (), order_accept_svc cfg od now device dev s))))"

definition done_svc ::
  "('o, 'a, 'p, 'c, 'q) service_config \<Rightarrow> 'o \<Rightarrow> bool \<Rightarrow>
   ('a, 'p, 'c, 'q) service_state \<Rightarrow> ('a, 'p, 'c, 'q) service_result" where
  "done_svc cfg origin onoff s =
    try_pure (foreign (ensure_signed cfg origin)) s (\<lambda>device.
    try_pure (ok_or (s_devices s device) (Pallet NoDevice)) s (\<lambda>dev.
      if dev_state dev \<noteq> Busy2 then (Inl (Pallet IllegalState), s)
      else try_pure (ok_or (s_orders s device) (Pallet NoOrder)) s (\<lambda>od.
        let s = remove_order_svc device s
        in order_done_svc cfg od (h_now s) device dev onoff s)))"

definition register_svc ::
  "('o, 'a, 'p, 'c, 'q) service_config \<Rightarrow> 'o \<Rightarrow> balance \<Rightarrow> moment \<Rightarrow> bool \<Rightarrow>
   ('a, 'p, 'c, 'q) service_state \<Rightarrow> ('a, 'p, 'c, 'q) service_result" where
  "register_svc cfg origin penalty wcd onoff s =
    try_pure (foreign (ensure_signed cfg origin)) s (\<lambda>device.
      if s_orders s device \<noteq> None then (Inl (Pallet DeviceExists), s)
      else (Inr (),
        deposit_event_svc (EvNewDevice device)
          (put_device_svc device
            \<lparr>dev_state = (if onoff then Ready else Off), dev_penalty = penalty, dev_wcd = wcd\<rparr>
            s)))"

definition set_state_svc ::
  "('o, 'a, 'p, 'c, 'q) service_config \<Rightarrow> 'o \<Rightarrow> bool \<Rightarrow>
   ('a, 'p, 'c, 'q) service_state \<Rightarrow> ('a, 'p, 'c, 'q) service_result" where
  "set_state_svc cfg origin onoff s =
    try_pure (foreign (ensure_signed cfg origin)) s (\<lambda>device.
      case s_devices s device of
        None \<Rightarrow> (Inl (Pallet NoDevice), s)
      | Some dev \<Rightarrow>
          (case (onoff, dev_state dev) of
             (False, Ready) \<Rightarrow> (Inr (), put_device_svc device (dev\<lparr>dev_state := Off\<rparr>) s)
           | (False, Off) \<Rightarrow> (Inr (), put_device_svc device (dev\<lparr>dev_state := Off\<rparr>) s)
           | (True, Off) \<Rightarrow> (Inr (), put_device_svc device (dev\<lparr>dev_state := Ready\<rparr>) s)
           | _ \<Rightarrow> (Inl (Pallet IllegalState), s)))"

section \<open>Hooks and message handlers\<close>

definition on_killed_account_svc ::
  "'a \<Rightarrow> ('a, 'p, 'c, 'q) service_state \<Rightarrow> ('a, 'p, 'c, 'q) service_state" where
  "on_killed_account_svc who s =
    (case s_devices s who of
      None \<Rightarrow> s
    | Some dev \<Rightarrow> if dev_state dev = Off then remove_device_svc who s else s)"

definition handle_xcm_message_svc ::
  "('o, 'a, 'p, 'c, 'q) service_config \<Rightarrow> para_id \<Rightarrow> nat \<Rightarrow> versioned_xcm \<Rightarrow>
   ('a, 'p, 'c, 'q) service_state \<Rightarrow> ('a, 'p, 'c, 'q) service_state" where
  "handle_xcm_message_svc cfg sender sent_at xcm s =
    (let h = hashing cfg xcm
     in case xcm_try_from cfg xcm of
          Inr _ \<Rightarrow> s
        | Inl _ \<Rightarrow> deposit_event_svc (EvBadVersion h) s)"

definition handle_blob_message_svc ::
  "('o, 'a, 'p, 'c, 'q) service_config \<Rightarrow> para_id \<Rightarrow> nat \<Rightarrow> byte list \<Rightarrow>
   ('a, 'p, 'c, 'q) service_state \<Rightarrow> ('a, 'p, 'c, 'q) service_state" where
  "handle_blob_message_svc cfg sender sent_at blob s =
    (case decode_with (message_impl cfg) blob of
      None \<Rightarrow> s
    | Some (NewOrder client ob) \<Rightarrow>
        snd (order_received_svc cfg
          \<lparr>o_until = ob_until ob, o_data = ob_data ob, o_fee = ob_fee ob,
           o_client = client, o_paraid = sender\<rparr>
          (ob_device ob) s)
    | Some _ \<Rightarrow> s)"

section \<open>Everything that can happen to the pallet\<close>

datatype ('o, 'a, 'p) service_input =
    CallOrder 'o "('a, 'p) order_base"
  | CallCancel 'o 'a
  | CallAccept 'o bool bool
  | CallDone 'o bool
  | CallRegister 'o balance moment bool
  | CallSetState 'o bool
  | KilledAccount 'a
  | XcmMessage para_id nat versioned_xcm
  | BlobMessage para_id nat "byte list"

text \<open>The variants of the pallet's \<^verbatim>\<open>Call\<close>, the hook and the two handlers, as one dispatch.\<close>

fun dispatch_svc ::
  "('o, 'a, 'p, 'c, 'q) service_config \<Rightarrow> ('o, 'a, 'p) service_input \<Rightarrow>
   ('a, 'p, 'c, 'q) service_state \<Rightarrow> ('a, 'p, 'c, 'q) service_result" where
  "dispatch_svc cfg (CallOrder o' ob) s = order_svc cfg o' ob s"
| "dispatch_svc cfg (CallCancel o' d) s = cancel_svc cfg o' d s"
| "dispatch_svc cfg (CallAccept o' r b) s = accept_svc cfg o' r b s"
| "dispatch_svc cfg (CallDone o' b) s = done_svc cfg o' b s"
| "dispatch_svc cfg (CallRegister o' p w b) s = register_svc cfg o' p w b s"
| "dispatch_svc cfg (CallSetState o' b) s = set_state_svc cfg o' b s"
| "dispatch_svc cfg (KilledAccount a) s = (Inr (), on_killed_account_svc a s)"
| "dispatch_svc cfg (XcmMessage p n x) s = (Inr (), handle_xcm_message_svc cfg p n x s)"
| "dispatch_svc cfg (BlobMessage p n b) s = (Inr (), handle_blob_message_svc cfg p n b s)"

end
