(* ===== verification/ServiceSafety.thy ===== *)
theory ServiceSafety
  imports Service Instance
begin

text \<open>
  The life cycle of a device on the service chain. \<open>phase_svc\<close> reads the phase of a device off
  the two storage maps, \<open>phase_step\<close> is the automaton a device is meant to follow, and the
  lemmas show that every input of the pallet moves one device along one edge of the automaton
  and leaves every other device alone; an order is open only for a device that is busy
  with it.
\<close>

section \<open>What each shared function does to the storage maps\<close>

lemma reserve_now_svc:
  assumes "reserve_now env a v s = (r, t)"
  shows "s_devices t = s_devices s" "s_orders t = s_orders s" "s_events t = s_events s"
    "h_now t = h_now s" "h_outbox t = h_outbox s"
  by (subst reserve_now_updates [OF assms], simp)+

lemma repatriate_now_svc:
  assumes "repatriate_now env a b v s = (r, t)"
  shows "s_devices t = s_devices s" "s_orders t = s_orders s" "s_events t = s_events s"
    "h_now t = h_now s" "h_outbox t = h_outbox s"
  by (subst repatriate_now_updates [OF assms], simp)+

lemma unreserve_now_svc [simp]:
  "s_devices (unreserve_now env a v s) = s_devices s"
  "s_orders (unreserve_now env a v s) = s_orders s"
  "s_events (unreserve_now env a v s) = s_events s"
  by (simp_all add: unreserve_now_def)

lemma send_message_now_svc:
  assumes "send_message_now env para msg err s = (r, t)"
  shows "s_devices t = s_devices s" "s_orders t = s_orders s" "s_events t = s_events s"
    "h_now t = h_now s" "h_currency t = h_currency s"
  by (subst send_message_now_updates [OF assms], simp)+

lemmas host_calls_svc = reserve_now_svc repatriate_now_svc send_message_now_svc

lemma snd_send_message_now_svc [simp]:
  "s_devices (snd (send_message_now env para msg err s)) = s_devices s"
  "s_orders (snd (send_message_now env para msg err s)) = s_orders s"
  "s_events (snd (send_message_now env para msg err s)) = s_events s"
  "h_now (snd (send_message_now env para msg err s)) = h_now s"
  "h_currency (snd (send_message_now env para msg err s)) = h_currency s"
  by (rule send_message_now_svc [OF prod.collapse [symmetric]])+

lemma storage_svc_simps [simp]:
  "s_devices (put_device_svc d p s) = (s_devices s)(d \<mapsto> p)"
  "s_orders (put_device_svc d p s) = s_orders s"
  "s_devices (remove_device_svc d s) = (s_devices s)(d := None)"
  "s_orders (remove_device_svc d s) = s_orders s"
  "s_devices (put_order_svc d od s) = s_devices s"
  "s_orders (put_order_svc d od s) = (s_orders s)(d \<mapsto> od)"
  "s_devices (remove_order_svc d s) = s_devices s"
  "s_orders (remove_order_svc d s) = (s_orders s)(d := None)"
  "s_devices (deposit_event_svc ev s) = s_devices s"
  "s_orders (deposit_event_svc ev s) = s_orders s"
  by (simp_all add: storage_svc_defs)

lemma storage_svc_host [simp]:
  "h_currency (put_device_svc d p s) = h_currency s"
  "h_currency (remove_device_svc d s) = h_currency s"
  "h_currency (put_order_svc d od s) = h_currency s"
  "h_currency (remove_order_svc d s) = h_currency s"
  "h_currency (deposit_event_svc ev s) = h_currency s"
  "h_now (put_device_svc d p s) = h_now s"
  "h_now (remove_device_svc d s) = h_now s"
  "h_now (put_order_svc d od s) = h_now s"
  "h_now (remove_order_svc d s) = h_now s"
  "h_now (deposit_event_svc ev s) = h_now s"
  by (simp_all add: storage_svc_defs)

lemma order_accept_storage [simp]:
  "s_devices (order_accept_svc cfg od now d dev s) =
    (s_devices s)(d \<mapsto> dev\<lparr>dev_state := Busy2\<rparr>)"
  "s_orders (order_accept_svc cfg od now d dev s) = s_orders s"
  "h_currency (order_accept_svc cfg od now d dev s) = h_currency s"
  by (simp_all add: order_accept_svc_def Let_def)

lemma order_reject_storage:
  assumes "order_reject_svc cfg ord now d dev onoff s = (r, t)"
  shows "r \<noteq> Inr () \<and> s_devices t = s_devices s \<and> s_orders t = s_orders s \<or>
    r = Inr () \<and> s_devices t = (s_devices s)(d \<mapsto> dev) \<and> s_orders t = (s_orders s)(d := None)"
  using assms
  by (auto simp: order_reject_svc_def Let_def and_then_def host_calls_svc
      split: option.splits if_splits prod.splits sum.splits)

lemma order_done_storage:
  assumes "order_done_svc cfg od now d dev onoff s = (r, t)"
  shows "s_devices t = (s_devices s)(d \<mapsto> dev\<lparr>dev_state := state_of_onoff onoff\<rparr>)"
    and "s_orders t = s_orders s"
  using assms
  by (auto simp: order_done_svc_def Let_def and_then_def host_calls_svc state_of_onoff_def
      split: option.splits if_splits prod.splits sum.splits)

lemma order_received_storage:
  assumes "order_received_svc cfg od d s = (r, t)"
  shows "r \<noteq> Inr () \<and> s_devices t = s_devices s \<and> s_orders t = s_orders s \<or>
    (\<exists>dev st. r = Inr () \<and> s_devices s d = Some dev \<and> dev_state dev = Ready \<and>
      s_orders s d = None \<and> on_received cfg d od = Some st \<and>
      s_devices t = (s_devices s)(d \<mapsto> dev\<lparr>dev_state := st\<rparr>) \<and>
      s_orders t = (s_orders s)(d \<mapsto> od))"
  using assms
  by (auto simp: order_received_svc_def Let_def and_then_def try_pure_def host_calls_svc
      split: option.splits if_splits prod.splits sum.splits)

section \<open>The life cycle of a device\<close>

datatype ('a, 'p) phase =
    Absent                       \<comment> \<open>no profile\<close>
  | Idle bool                    \<comment> \<open>no order; ready to take one or not\<close>
  | Offered "('a, 'p) order"     \<comment> \<open>has an order it has not accepted\<close>
  | Working "('a, 'p) order"     \<comment> \<open>has accepted the order\<close>
  | Abandoned                    \<comment> \<open>busy, but the order was cancelled\<close>
  | Stray                        \<comment> \<open>storage no operation is meant to produce\<close>

fun phase_of :: "device_profile_svc option \<Rightarrow> ('a, 'p) order option \<Rightarrow> ('a, 'p) phase" where
  "phase_of None None = Absent"
| "phase_of None (Some od) = Stray"
| "phase_of (Some p) None =
    (case dev_state p of Off \<Rightarrow> Idle False | Ready \<Rightarrow> Idle True | Busy \<Rightarrow> Abandoned
     | Busy2 \<Rightarrow> Abandoned | Timewait \<Rightarrow> Stray)"
| "phase_of (Some p) (Some od) =
    (case dev_state p of Busy \<Rightarrow> Offered od | Busy2 \<Rightarrow> Working od | _ \<Rightarrow> Stray)"

definition phase_svc :: "('a, 'p, 'c, 'q) service_state \<Rightarrow> 'a \<Rightarrow> ('a, 'p) phase" where
  "phase_svc s d = phase_of (s_devices s d) (s_orders s d)"

inductive phase_step :: "('a, 'p) phase \<Rightarrow> ('a, 'p) phase \<Rightarrow> bool" where
  registered: "phase_step Absent (Idle b)"
| switched: "phase_step (Idle b) (Idle b')"
| offered: "phase_step (Idle True) (Offered od)"
| taken: "phase_step (Idle True) (Working od)"
| accepted: "phase_step (Offered od) (Working od)"
| refused: "phase_step (Offered od) (Idle b)"
| finished: "phase_step (Working od) (Idle b)"
| cancelled_offer: "phase_step (Offered od) Abandoned"
| cancelled_work: "phase_step (Working od) Abandoned"
| recovered: "phase_step Abandoned (Idle b)"
| reaped: "phase_step (Idle False) Absent"

inductive_simps phase_step_simps:
  "phase_step Absent q" "phase_step (Idle b) q" "phase_step (Offered od) q"
  "phase_step (Working od) q" "phase_step Abandoned q" "phase_step p Stray"

inductive_cases phase_step_to_offered: "phase_step p (Offered od)"
inductive_cases phase_step_to_working: "phase_step p (Working od)"

text \<open>
  The states the pallet's storage stays in: no device is in a phase that no operation is meant
  to produce. In particular an open order has a device that is \<open>Busy\<close> or \<open>Busy2\<close>.
\<close>

definition service_wf :: "('a, 'p, 'c, 'q) service_state \<Rightarrow> bool" where
  "service_wf s \<longleftrightarrow> (\<forall>d. phase_svc s d \<noteq> Stray)"

lemma service_wf_order:
  assumes "service_wf s" and "s_orders s d = Some od"
  obtains p where "s_devices s d = Some p" "dev_state p = Busy \<or> dev_state p = Busy2"
  using assms
  by (cases "s_devices s d"; cases "dev_state (the (s_devices s d))")
    (auto simp: service_wf_def phase_svc_def dest!: spec [of _ d])

lemma service_wf_no_timewait:
  "service_wf s \<Longrightarrow> s_devices s d = Some p \<Longrightarrow> dev_state p \<noteq> Timewait"
  by (cases "s_orders s d") (auto simp: service_wf_def phase_svc_def dest!: spec [of _ d])

text \<open>
  What the pallet's \<^verbatim>\<open>debug_assert!\<close> expects of the runtime's \<^verbatim>\<open>OnReceived\<close>: an order that is
  taken makes the device \<open>Busy\<close> or \<open>Busy2\<close>. The implementation for \<^verbatim>\<open>()\<close> and the one of the
  runtime satisfy it.
\<close>

definition receiver_ok :: "('o, 'a, 'p, 'c, 'q) service_config \<Rightarrow> bool" where
  "receiver_ok cfg \<longleftrightarrow>
    (\<forall>d od st. on_received cfg d od = Some st \<longrightarrow> st = Busy \<or> st = Busy2)"

text \<open>One input, seen from the storage maps: it touches at most one device, legally.\<close>

definition legal_move ::
  "('a, 'p, 'c, 'q) service_state \<Rightarrow> ('a, 'p, 'c, 'q) service_state \<Rightarrow> 'a \<Rightarrow> bool" where
  "legal_move s t d \<longleftrightarrow>
    (\<forall>x. x \<noteq> d \<longrightarrow> s_devices t x = s_devices s x \<and> s_orders t x = s_orders s x) \<and>
    (phase_svc t d = phase_svc s d \<or> phase_step (phase_svc s d) (phase_svc t d))"

lemma legal_move_refl:
  "s_devices t = s_devices s \<Longrightarrow> s_orders t = s_orders s \<Longrightarrow> legal_move s t d"
  by (simp add: legal_move_def phase_svc_def)

lemma legal_move_wf:
  assumes "legal_move s t d" and "service_wf s"
  shows "service_wf t"
  unfolding service_wf_def
proof
  fix x
  show "phase_svc t x \<noteq> Stray"
  proof (cases "x = d")
    case True
    with assms show ?thesis
      by (auto simp: legal_move_def service_wf_def phase_step_simps)
  next
    case False
    with assms(1) have "phase_svc t x = phase_svc s x"
      by (simp add: legal_move_def phase_svc_def)
    with assms(2) show ?thesis by (simp add: service_wf_def)
  qed
qed

section \<open>Every operation is a legal move\<close>

lemma if_Idle [simp]: "(if b then Idle True else Idle False) = Idle b"
  by simp

lemma onoff_if: "(if b then Ready else Off) = state_of_onoff b"
  by (simp add: state_of_onoff_def)

lemma phase_svc_upd:
  "phase_svc s d = phase_of (s_devices s d) (s_orders s d)"
  by (simp add: phase_svc_def)

lemma order_received_legal:
  assumes "receiver_ok cfg" and "order_received_svc cfg od d s = (r, t)"
  shows "legal_move s t d"
  using order_received_storage [OF assms(2)]
proof (elim disjE exE conjE)
  fix dev st
  assume rcv: "on_received cfg d od = Some st"
    and *: "s_devices s d = Some dev" "dev_state dev = Ready" "s_orders s d = None"
    "s_devices t = (s_devices s)(d \<mapsto> dev\<lparr>dev_state := st\<rparr>)"
    "s_orders t = (s_orders s)(d \<mapsto> od)"
  from rcv assms(1) have "st = Busy \<or> st = Busy2" unfolding receiver_ok_def by blast
  with * show ?thesis by (auto simp: legal_move_def phase_svc_def phase_step_simps)
qed (rule legal_move_refl)

lemma order_legal:
  assumes "receiver_ok cfg" and "order_svc cfg origin ob s = (r, t)"
  shows "legal_move s t (ob_device ob)"
  using assms
  by (auto simp: order_svc_def try_pure_def legal_move_refl order_received_legal
      split: sum.splits)

lemma cancel_legal:
  assumes "service_wf s" and "cancel_svc cfg origin d s = (r, t)"
  shows "legal_move s t d"
proof (cases "\<exists>who od dev. s_orders s d = Some od \<and> s_devices s d = Some dev \<and>
    order_reject_svc cfg (Some od) (h_now s) d dev False s = (r, t)")
  case True
  then obtain od dev where od: "s_orders s d = Some od" and dev: "s_devices s d = Some dev"
    and rej: "order_reject_svc cfg (Some od) (h_now s) d dev False s = (r, t)"
    by blast
  from service_wf_order [OF assms(1) od] dev have "dev_state dev = Busy \<or> dev_state dev = Busy2"
    by auto
  with order_reject_storage [OF rej] od dev show ?thesis
    by (auto simp: legal_move_def phase_svc_def phase_step_simps)
next
  case False
  with assms(2) have "t = s"
    by (auto simp: cancel_svc_def try_pure_def Let_def ok_or_def
        split: sum.splits option.splits if_splits)
  then show ?thesis by (simp add: legal_move_refl)
qed

lemma accept_legal:
  assumes "service_wf s" and "accept_svc cfg origin rej onoff s = (r, t)"
    and "ensure_signed cfg origin = Inr d"
  shows "legal_move s t d"
proof (cases "s_devices s d")
  case None
  with assms show ?thesis by (auto simp: accept_svc_def Let_def intro: legal_move_refl)
next
  case (Some dev)
  show ?thesis
  proof (cases "rej \<and> (dev_state dev = Busy \<or> dev_state dev = Busy2)")
    case True
    with Some assms have rej: "order_reject_svc cfg (s_orders s d) (h_now s) d
        (dev\<lparr>dev_state := state_of_onoff onoff\<rparr>) onoff s = (r, t)"
      by (auto simp: accept_svc_def Let_def onoff_if)
    from order_reject_storage [OF rej] show ?thesis
    proof (elim disjE conjE)
      assume "s_devices t = (s_devices s)(d \<mapsto> dev\<lparr>dev_state := state_of_onoff onoff\<rparr>)"
        "s_orders t = (s_orders s)(d := None)"
      with Some True show ?thesis
        by (cases "s_orders s d") (auto simp: legal_move_def phase_svc_def phase_step_simps)
    qed (rule legal_move_refl)
  next
    case False
    show ?thesis
    proof (cases "\<not> rej \<and> dev_state dev = Busy \<and> (\<exists>od. s_orders s d = Some od \<and> h_now s < o_until od)")
      case True
      then obtain od where "s_orders s d = Some od" "h_now s < o_until od" by blast
      with True Some assms show ?thesis
        by (auto simp: accept_svc_def Let_def legal_move_def phase_svc_def phase_step_simps
            not_le [symmetric])
    next
      case neither: False
      with False Some assms have "t = s"
        by (cases "s_orders s d") (auto simp: accept_svc_def Let_def split: if_splits)
      then show ?thesis by (simp add: legal_move_refl)
    qed
  qed
qed

lemma done_legal:
  assumes "done_svc cfg origin onoff s = (r, t)" and "ensure_signed cfg origin = Inr d"
  shows "legal_move s t d"
proof (cases "\<exists>dev od. s_devices s d = Some dev \<and> dev_state dev = Busy2 \<and> s_orders s d = Some od")
  case True
  then obtain dev od where dev: "s_devices s d = Some dev" "dev_state dev = Busy2"
    and od: "s_orders s d = Some od" by blast
  with assms have "order_done_svc cfg od (h_now s) d dev onoff (remove_order_svc d s) = (r, t)"
    by (simp add: done_svc_def Let_def)
  from order_done_storage [OF this] dev od show ?thesis
    by (simp add: legal_move_def phase_svc_def phase_step_simps)
next
  case False
  with assms have "t = s"
    by (cases "s_devices s d"; cases "s_orders s d") (auto simp: done_svc_def Let_def split: if_splits)
  then show ?thesis by (simp add: legal_move_refl)
qed

lemma register_legal:
  assumes "service_wf s" and "register_svc cfg origin pen w onoff s = (r, t)"
    and "ensure_signed cfg origin = Inr d"
  shows "legal_move s t d"
proof (cases "s_orders s d")
  case None
  with assms(2,3) have t: "s_devices t = (s_devices s)(d \<mapsto>
      \<lparr>dev_state = state_of_onoff onoff, dev_penalty = pen, dev_wcd = w\<rparr>)" "s_orders t = s_orders s"
    by (auto simp: register_svc_def onoff_if)
  have "phase_svc s d \<noteq> Stray" using assms(1) by (simp add: service_wf_def)
  with t None show ?thesis
    by (cases "phase_svc s d"; cases "s_devices s d"; cases "dev_state (the (s_devices s d))")
      (auto simp: legal_move_def phase_svc_def phase_step_simps)
next
  case (Some od)
  with assms show ?thesis by (auto simp: register_svc_def intro: legal_move_refl)
qed

lemma set_state_legal:
  assumes "service_wf s" and "set_state_svc cfg origin onoff s = (r, t)"
    and "ensure_signed cfg origin = Inr d"
  shows "legal_move s t d"
proof (cases "s_orders s d")
  case None
  with assms show ?thesis
    by (auto simp: set_state_svc_def legal_move_def phase_svc_def phase_step_simps
        split: option.splits device_state.splits bool.splits prod.splits if_splits)
next
  case (Some od)
  from service_wf_order [OF assms(1) Some] obtain p
    where "s_devices s d = Some p" "dev_state p = Busy \<or> dev_state p = Busy2" by blast
  with assms have "t = s" by (auto simp: set_state_svc_def split: bool.splits)
  then show ?thesis by (simp add: legal_move_refl)
qed

lemma killed_legal:
  assumes "service_wf s"
  shows "legal_move s (on_killed_account_svc d s) d"
proof (cases "s_orders s d")
  case None
  then show ?thesis
    by (auto simp: on_killed_account_svc_def legal_move_def phase_svc_def phase_step_simps
        split: option.splits)
next
  case (Some od)
  from service_wf_order [OF assms Some] obtain p
    where "s_devices s d = Some p" "dev_state p = Busy \<or> dev_state p = Busy2" by blast
  then have "on_killed_account_svc d s = s" by (auto simp: on_killed_account_svc_def)
  then show ?thesis by (simp add: legal_move_refl)
qed

lemma blob_legal:
  assumes "receiver_ok cfg"
  shows "\<exists>d. legal_move s (handle_blob_message_svc cfg p n blob s) d"
proof (cases "decode_with (message_impl cfg) blob")
  case None
  then show ?thesis by (auto simp: handle_blob_message_svc_def intro: legal_move_refl)
next
  case (Some m)
  then show ?thesis
    using order_received_legal [OF assms prod.collapse [symmetric]]
    by (cases m) (auto simp: handle_blob_message_svc_def intro: legal_move_refl)
qed

lemma not_signed_unchanged:
  assumes "ensure_signed cfg origin = Inl e"
  shows "order_svc cfg origin ob s = (Inl (Foreign e), s)"
    and "cancel_svc cfg origin d s = (Inl (Foreign e), s)"
    and "accept_svc cfg origin rej onoff s = (Inl (Foreign e), s)"
    and "done_svc cfg origin onoff s = (Inl (Foreign e), s)"
    and "register_svc cfg origin pen w onoff s = (Inl (Foreign e), s)"
    and "set_state_svc cfg origin onoff s = (Inl (Foreign e), s)"
  using assms
  by (simp_all add: order_svc_def cancel_svc_def accept_svc_def done_svc_def register_svc_def
      set_state_svc_def)

section \<open>Runs of the pallet\<close>

lemma dispatch_svc_legal:
  assumes "receiver_ok cfg" and "service_wf s" and "dispatch_svc cfg i s = (r, t)"
  shows "\<exists>d. legal_move s t d"
proof (cases i)
  case (CallOrder origin ob)
  with assms show ?thesis by (auto intro: order_legal)
next
  case (CallCancel origin d)
  with assms show ?thesis by (auto intro: cancel_legal)
next
  case (CallAccept origin rej onoff)
  with assms show ?thesis
    by (cases "ensure_signed cfg origin")
      (auto simp: not_signed_unchanged intro: accept_legal legal_move_refl)
next
  case (CallDone origin onoff)
  with assms show ?thesis
    by (cases "ensure_signed cfg origin")
      (auto simp: not_signed_unchanged intro: done_legal legal_move_refl)
next
  case (CallRegister origin pen w onoff)
  with assms show ?thesis
    by (cases "ensure_signed cfg origin")
      (auto simp: not_signed_unchanged intro: register_legal legal_move_refl)
next
  case (CallSetState origin onoff)
  with assms show ?thesis
    by (cases "ensure_signed cfg origin")
      (auto simp: not_signed_unchanged intro: set_state_legal legal_move_refl)
next
  case (KilledAccount d)
  with assms show ?thesis by (auto intro: killed_legal)
next
  case (XcmMessage p n x)
  with assms show ?thesis
    by (auto simp: handle_xcm_message_svc_def Let_def intro!: legal_move_refl split: sum.splits)
next
  case (BlobMessage p n b)
  with assms show ?thesis by (auto intro: blob_legal)
qed

text \<open>
  A run of the chain: any input reaches the pallet, or time passes and the libraries change
  what they store. The pallet's maps start empty.
\<close>

definition service_init :: "('a, 'p, 'c, 'q) service_state \<Rightarrow> bool" where
  "service_init s \<longleftrightarrow> s_devices s = Map.empty \<and> s_orders s = Map.empty"

inductive service_step ::
  "('o, 'a, 'p, 'c, 'q) service_config \<Rightarrow> ('a, 'p, 'c, 'q) service_state \<Rightarrow>
   ('a, 'p, 'c, 'q) service_state \<Rightarrow> bool" for cfg where
  input: "dispatch_svc cfg i s = (r, t) \<Longrightarrow> service_step cfg s t"
| environment: "h_now s \<le> n \<Longrightarrow>
    service_step cfg s (s\<lparr>h_now := n, h_currency := c, h_outbox := q\<rparr>)"

lemma service_step_legal:
  assumes "service_step cfg s t" and "receiver_ok cfg" and "service_wf s"
  shows "\<exists>d. legal_move s t d"
  using assms
proof cases
  case (input i r)
  with assms show ?thesis by (auto intro: dispatch_svc_legal)
next
  case (environment n c q)
  then show ?thesis by (simp add: legal_move_refl)
qed

lemma service_init_wf: "service_init s \<Longrightarrow> service_wf s"
  by (simp add: service_init_def service_wf_def phase_svc_def)

interpretation service_run: invariant_system service_init "service_step cfg"
    "\<lambda>s. receiver_ok cfg \<longrightarrow> service_wf s" for cfg
  by unfold_locales
    (auto intro: service_init_wf dest: service_step_legal legal_move_wf)

section \<open>A chain to evaluate on\<close>

definition sample_service ::
  "(signed_origin, account_id, order_payload, account_id ledger, outbox) service_config" where
  "sample_service = env.extend sample_env
    \<lparr>self_para_id = 200, on_received = on_received_unit\<rparr>"

lemma sample_service_fields [simp]:
  "ensure_signed sample_service = signed_by"
  "currency_impl sample_service = ledger_ops 500"
  "send_blob_message sample_service = queue_send"
  "message_impl sample_service = runtime_messages"
  "self_para_id sample_service = 200"
  "on_received sample_service = on_received_unit"
  by (simp_all add: sample_service_def sample_env_def env.defs)

lemma sample_receiver_ok: "receiver_ok sample_service"
  by (simp add: receiver_ok_def on_received_unit_def)

text \<open>
  Device 100 has registered with collateral 10000 and a work cycle of 1000; client 200 has an
  order with it, until 5000, for a fee of 100000.
\<close>

definition sample_profile :: "device_state \<Rightarrow> device_profile_svc" where
  "sample_profile st = \<lparr>dev_state = st, dev_penalty = 10000, dev_wcd = 1000\<rparr>"

definition sample_order :: "para_id \<Rightarrow> (account_id, order_payload) order" where
  "sample_order para =
    \<lparr>o_until = 5000, o_data = 7, o_fee = 100000, o_client = 200, o_paraid = para\<rparr>"

definition sample_state ::
  "moment \<Rightarrow> device_state \<Rightarrow> (account_id, order_payload) order option \<Rightarrow>
   (account_id, order_payload, account_id ledger, outbox) service_state" where
  "sample_state n st ord =
    \<lparr>h_now = n,
     h_currency = [100 \<mapsto> \<lparr>acc_free = 990000, acc_reserved = 10000\<rparr>,
                   200 \<mapsto> \<lparr>acc_free = 900000, acc_reserved = 100000\<rparr>],
     h_outbox = [], s_devices = [100 \<mapsto> sample_profile st],
     s_orders = (\<lambda>d. if d = 100 then ord else None), s_events = []\<rparr>"

lemmas sample_state_defs = sample_profile_def sample_order_def sample_state_def

lemma sample_state_wf:
  "st = Busy \<or> st = Busy2 \<Longrightarrow> service_wf (sample_state n st (Some od))"
  "st \<noteq> Timewait \<Longrightarrow> service_wf (sample_state n st None)"
  by (cases st; auto simp: service_wf_def phase_svc_def sample_state_defs)+

end
