(* ===== verification/ServiceEscrow.thy ===== *)
theory ServiceEscrow
  imports ServiceSafety Escrow
begin

text \<open>
  The money side of the service pallet: the book of the orders it holds deposits for, the proof
  that every input keeps the book covered by the reserves of the accounts, and what each way of
  closing an order pays to whom.
\<close>

section \<open>The book of the pallet\<close>

text \<open>
  Deposits are held only for orders placed on this chain; an order received from another
  chain has its deposits there.
\<close>

definition book_svc ::
  "('o, 'a, 'p, 'c, 'q) service_config \<Rightarrow> ('a, 'p, 'c, 'q) service_state \<Rightarrow> 'a \<Rightarrow>
   'a deposit option" where
  "book_svc cfg s d =
    (case s_orders s d of
      None \<Rightarrow> None
    | Some od \<Rightarrow>
        if o_paraid od = self_para_id cfg
        then Some \<lparr>dep_client = o_client od, dep_fee = o_fee od,
                   dep_penalty = (case s_devices s d of None \<Rightarrow> 0 | Some p \<Rightarrow> dev_penalty p)\<rparr>
        else None)"

definition escrow_covered ::
  "('c \<Rightarrow> 'a \<Rightarrow> nat) \<Rightarrow> ('c \<Rightarrow> 'a \<Rightarrow> bool) \<Rightarrow> ('o, 'a, 'p, 'c, 'q) service_config \<Rightarrow>
   ('a, 'p, 'c, 'q) service_state \<Rightarrow> bool" where
  "escrow_covered reserved alive cfg s \<longleftrightarrow>
    finite (dom (s_orders s)) \<and> covers reserved alive (h_currency s) (owed (book_svc cfg s))"

lemma finite_book: "finite (dom (s_orders s)) \<Longrightarrow> finite (dom (book_svc cfg s))"
  by (rule finite_subset [of _ "dom (s_orders s)"])
    (auto simp: book_svc_def split: option.splits)

lemma book_svc_cong:
  assumes "s_orders t = s_orders s"
    and "\<And>d. s_orders s d \<noteq> None \<Longrightarrow>
      map_option dev_penalty (s_devices t d) = map_option dev_penalty (s_devices s d)"
  shows "book_svc cfg t = book_svc cfg s"
proof
  fix d
  show "book_svc cfg t d = book_svc cfg s d"
    using assms(1) assms(2) [of d]
    by (cases "s_devices t d"; cases "s_devices s d") (auto simp: book_svc_def split: option.splits)
qed

lemma book_svc_close:
  assumes "s_orders t = (s_orders s)(d := None)" and "\<And>x. x \<noteq> d \<Longrightarrow> s_devices t x = s_devices s x"
  shows "book_svc cfg t = (book_svc cfg s)(d := None)"
  using assms by (intro ext) (auto simp: book_svc_def split: option.splits)

lemma book_svc_open:
  assumes "s_orders t = (s_orders s)(d \<mapsto> od)" and "s_devices t = (s_devices s)(d \<mapsto> p)"
    and "o_paraid od = self_para_id cfg"
  shows "book_svc cfg t = (book_svc cfg s)(d \<mapsto>
    \<lparr>dep_client = o_client od, dep_fee = o_fee od, dep_penalty = dev_penalty p\<rparr>)"
  using assms by (intro ext) (auto simp: book_svc_def split: option.splits)

lemma book_svc_open_remote:
  assumes "s_orders t = (s_orders s)(d \<mapsto> od)" and "s_devices t = (s_devices s)(d \<mapsto> p)"
    and "o_paraid od \<noteq> self_para_id cfg" and "s_orders s d = None"
  shows "book_svc cfg t = book_svc cfg s"
  using assms by (intro ext) (auto simp: book_svc_def split: option.splits)

section \<open>The operations on the currency\<close>

lemma reserve_now_cases:
  "reserve_now env a v s = (Inr (), t) \<longleftrightarrow>
    (\<exists>c. reserve (currency_impl env) a v (h_currency s) = (Inr (), c) \<and> t = s\<lparr>h_currency := c\<rparr>)"
  by (auto simp: reserve_now_def split: prod.splits)

lemma repatriate_now_cases:
  "repatriate_now env a b v s = (r, t) \<Longrightarrow>
    \<exists>r' c. repatriate_reserved (currency_impl env) a b v Free (h_currency s) = (r', c) \<and>
      t = s\<lparr>h_currency := c\<rparr> \<and> r = foreign r'"
  by (auto simp: repatriate_now_def split: prod.splits)

text \<open>The contract of the currency, for the currency of a configuration of the pallet.\<close>

locale service_escrow = currency "currency_impl cfg" free reserved alive ed
  for cfg :: "('o, 'a, 'p, 'c, 'q) service_config"
    and free :: "'c \<Rightarrow> 'a \<Rightarrow> nat" and reserved :: "'c \<Rightarrow> 'a \<Rightarrow> nat"
    and alive :: "'c \<Rightarrow> 'a \<Rightarrow> bool" and ed :: nat
begin

lemma covered_finite:
  "escrow_covered reserved alive cfg s \<Longrightarrow> finite (dom (s_orders s))"
  "escrow_covered reserved alive cfg s \<Longrightarrow> finite (dom (book_svc cfg s))"
  by (simp_all add: escrow_covered_def finite_book)

lemma covered_covers:
  "escrow_covered reserved alive cfg s \<Longrightarrow>
    covers reserved alive (h_currency s) (owed (book_svc cfg s))"
  by (simp add: escrow_covered_def)

lemma covered_storage:
  assumes "escrow_covered reserved alive cfg s" and "s_orders t = s_orders s"
    and "\<And>d. s_orders s d \<noteq> None \<Longrightarrow>
      map_option dev_penalty (s_devices t d) = map_option dev_penalty (s_devices s d)"
    and "h_currency t = h_currency s"
  shows "escrow_covered reserved alive cfg t"
  using assms book_svc_cong [OF assms(2,3), where cfg = cfg] by (simp add: escrow_covered_def)

lemma reject_currency:
  assumes "order_reject_svc cfg (Some od) now d dev onoff s = (r, t)"
    and "o_paraid od = self_para_id cfg"
  defines "c1 \<equiv> snd (unreserve (currency_impl cfg) (o_client od) (o_fee od) (h_currency s))"
  shows "now < o_until od \<and> r = Inr () \<and>
      h_currency t = snd (unreserve (currency_impl cfg) d (dev_penalty dev) c1) \<or>
    \<not> now < o_until od \<and>
      (\<exists>r'. repatriate_reserved (currency_impl cfg) d (o_client od) (dev_penalty dev) Free c1
              = (r', h_currency t) \<and> (r = Inr () \<longleftrightarrow> (\<exists>rest. r' = Inr rest)))"
  using assms
  by (auto simp: order_reject_svc_def Let_def and_then_def unreserve_now_def repatriate_now_def
      foreign_def split: prod.splits sum.splits if_splits)

lemma reject_covered:
  assumes cov: "escrow_covered reserved alive cfg s"
    and od: "s_orders s d = Some od" and p: "s_devices s d = Some p"
    and pen: "dev_penalty dev = dev_penalty p"
    and op: "order_reject_svc cfg (Some od) now d dev onoff s = (r, t)"
  shows "escrow_covered reserved alive cfg t"
proof (cases "o_paraid od = self_para_id cfg")
  case False
  have cur: "h_currency t = h_currency s"
    using op False by (auto simp: order_reject_svc_def and_then_def send_message_now_svc
        split: prod.splits sum.splits)
  from order_reject_storage [OF op] show ?thesis
  proof (elim disjE conjE)
    assume t: "s_devices t = (s_devices s)(d \<mapsto> dev)" "s_orders t = (s_orders s)(d := None)"
    then have "book_svc cfg t = book_svc cfg s"
      using book_svc_close [of t s d cfg] od False by (simp add: book_svc_def fun_upd_idem)
    with cov t cur show ?thesis by (simp add: escrow_covered_def)
  qed (auto intro: covered_storage [OF cov] simp: cur)
next
  case True
  let ?x = "\<lparr>dep_client = o_client od, dep_fee = o_fee od, dep_penalty = dev_penalty p\<rparr>"
  have bk: "book_svc cfg s d = Some ?x" using od p True by (simp add: book_svc_def)
  note covs = covered_covers [OF cov] covered_finite(2) [OF cov] bk
  have closed: "escrow_covered reserved alive cfg t" if "r = Inr ()"
    and "covers reserved alive (h_currency t) (owed ((book_svc cfg s)(d := None)))"
    using order_reject_storage [OF op] that covered_finite(1) [OF cov]
      book_svc_close [of t s d cfg] by (auto simp: escrow_covered_def)
  from reject_currency [OF op True] show ?thesis
  proof (elim disjE conjE exE)
    assume "r = Inr ()" and "h_currency t = snd (unreserve (currency_impl cfg) d (dev_penalty dev)
      (snd (unreserve (currency_impl cfg) (o_client od) (o_fee od) (h_currency s))))"
    then show ?thesis using covers_release [OF covs] pen by (intro closed) simp_all
  next
    fix r'
    assume rep: "repatriate_reserved (currency_impl cfg) d (o_client od) (dev_penalty dev) Free
        (snd (unreserve (currency_impl cfg) (o_client od) (o_fee od) (h_currency s)))
        = (r', h_currency t)" and r: "r = Inr () \<longleftrightarrow> (\<exists>rest. r' = Inr rest)"
    show ?thesis
    proof (cases r')
      case (Inl e)
      from covers_forfeit_failed [OF covs(1) rep [unfolded Inl]]
      have "covers reserved alive (h_currency t) (owed (book_svc cfg s))" .
      moreover from order_reject_storage [OF op] r Inl
      have "s_devices t = s_devices s" "s_orders t = s_orders s" by auto
      ultimately show ?thesis using covered_finite(1) [OF cov] book_svc_cong [of t s cfg]
        by (simp add: escrow_covered_def)
    next
      case (Inr rest)
      with covers_forfeit [OF covs, of r' "h_currency t"] rep pen r
      show ?thesis by (intro closed) simp_all
    qed
  qed
qed

end

section \<open>Every input keeps the book covered\<close>

lemma done_currency:
  assumes "order_done_svc cfg od now d dev onoff s = (r, t)"
    and "o_paraid od = self_para_id cfg"
  shows "\<exists>r1 c1. repatriate_reserved (currency_impl cfg) (o_client od) d (o_fee od) Free (h_currency s)
      = (r1, c1) \<and>
    ((\<exists>e. r1 = Inl e \<and> r = Inl (Foreign e)) \<and> h_currency t = c1 \<or>
     (\<exists>rest. r1 = Inr rest) \<and> now < o_until od \<and> r = Inr () \<and>
       h_currency t = snd (unreserve (currency_impl cfg) d (dev_penalty dev) c1) \<or>
     (\<exists>rest. r1 = Inr rest) \<and> \<not> now < o_until od \<and>
       (\<exists>r2. repatriate_reserved (currency_impl cfg) d (o_client od) (dev_penalty dev) Free c1
          = (r2, h_currency t) \<and> (r = Inr () \<longleftrightarrow> (\<exists>rest. r2 = Inr rest))))"
  using assms
  by (auto simp: order_done_svc_def Let_def and_then_def unreserve_now_def repatriate_now_def
      foreign_def split: prod.splits sum.splits if_splits)

lemma received_currency:
  assumes "order_received_svc cfg od d s = (r, t)"
  shows "r = Inr () \<and> o_paraid od \<noteq> self_para_id cfg \<and> h_currency t = h_currency s \<or>
    r = Inr () \<and> o_paraid od = self_para_id cfg \<and>
      (\<exists>dev c1. s_devices s d = Some dev \<and>
        reserve (currency_impl cfg) d (dev_penalty dev) (h_currency s) = (Inr (), c1) \<and>
        reserve (currency_impl cfg) (o_client od) (o_fee od) c1 = (Inr (), h_currency t)) \<or>
    r \<noteq> Inr () \<and> (h_currency t = h_currency s \<or>
      (\<exists>v r1 c1. reserve (currency_impl cfg) d v (h_currency s) = (r1, c1) \<and>
        (h_currency t = c1 \<or>
         (\<exists>r2. reserve (currency_impl cfg) (o_client od) (o_fee od) c1 = (r2, h_currency t)))))"
  using assms
  by (auto simp: order_received_svc_def Let_def and_then_def try_pure_def reserve_now_def
      foreign_def split: prod.splits sum.splits if_splits option.splits; fastforce)

context service_escrow
begin

lemma done_covered:
  assumes cov: "escrow_covered reserved alive cfg s"
    and od: "s_orders s d = Some od" and p: "s_devices s d = Some p"
    and op: "order_done_svc cfg od now d p onoff (remove_order_svc d s) = (r, t)"
  shows "escrow_covered reserved alive cfg t"
proof -
  from order_done_storage [OF op] have orders: "s_orders t = (s_orders s)(d := None)"
    and devices: "\<And>x. x \<noteq> d \<Longrightarrow> s_devices t x = s_devices s x" by simp_all
  have closed: "escrow_covered reserved alive cfg t"
    if "covers reserved alive (h_currency t) (owed ((book_svc cfg s)(d := None)))"
    using that orders covered_finite(1) [OF cov] book_svc_close [OF orders devices, where cfg = cfg]
    by (simp add: escrow_covered_def)
  show ?thesis
  proof (cases "o_paraid od = self_para_id cfg")
    case False
    have "h_currency t = h_currency s"
      using op False by (auto simp: order_done_svc_def Let_def and_then_def send_message_now_svc
          split: prod.splits sum.splits)
    with covers_close [OF covered_covers [OF cov] covered_finite(2) [OF cov]]
    show ?thesis by (intro closed) simp
  next
    case True
    have bk: "book_svc cfg s d = Some
        \<lparr>dep_client = o_client od, dep_fee = o_fee od, dep_penalty = dev_penalty p\<rparr>"
      using od p True by (simp add: book_svc_def)
    note covs = covered_covers [OF cov] covered_finite(2) [OF cov] bk
    from done_currency [OF op True] obtain r1 c1 where
      pay: "repatriate_reserved (currency_impl cfg) (o_client od) d (o_fee od) Free (h_currency s)
        = (r1, c1)"
      and rest: "(\<exists>e. r1 = Inl e \<and> r = Inl (Foreign e)) \<and> h_currency t = c1 \<or>
        h_currency t = snd (unreserve (currency_impl cfg) d (dev_penalty p) c1) \<or>
        (\<exists>r2. repatriate_reserved (currency_impl cfg) d (o_client od) (dev_penalty p) Free c1
          = (r2, h_currency t))"
      by auto
    from rest show ?thesis
    proof (elim disjE conjE exE)
      fix e assume "r1 = Inl e" "h_currency t = c1"
      with covers_pay_failed [OF covs(1,2)] pay show ?thesis by (intro closed) simp
    next
      assume "h_currency t = snd (unreserve (currency_impl cfg) d (dev_penalty p) c1)"
      with covers_pay_release [OF covs, of r1 c1] pay show ?thesis by (intro closed) simp
    next
      fix r2 assume "repatriate_reserved (currency_impl cfg) d (o_client od) (dev_penalty p) Free c1
        = (r2, h_currency t)"
      with covers_pay_forfeit [OF covs, of r1 c1 "o_client od" r2 "h_currency t"] pay
      show ?thesis by (intro closed) simp
    qed
  qed
qed

lemma received_covered:
  assumes cov: "escrow_covered reserved alive cfg s"
    and op: "order_received_svc cfg od d s = (r, t)"
  shows "escrow_covered reserved alive cfg t"
proof (cases "r = Inr ()")
  case True
  with order_received_storage [OF op] obtain dev st where
    dev: "s_devices s d = Some dev" and none: "s_orders s d = None"
    and devices: "s_devices t = (s_devices s)(d \<mapsto> dev\<lparr>dev_state := st\<rparr>)"
    and orders: "s_orders t = (s_orders s)(d \<mapsto> od)" by auto
  have bk: "book_svc cfg s d = None" using none by (simp add: book_svc_def)
  show ?thesis
  proof (cases "o_paraid od = self_para_id cfg")
    case local: True
    from received_currency [OF op] True local dev obtain c1 where
      "reserve (currency_impl cfg) d (dev_penalty dev) (h_currency s) = (Inr (), c1)"
      "reserve (currency_impl cfg) (o_client od) (o_fee od) c1 = (Inr (), h_currency t)" by auto
    with covers_open [OF covered_covers [OF cov] covered_finite(2) [OF cov] bk,
        of "\<lparr>dep_client = o_client od, dep_fee = o_fee od, dep_penalty = dev_penalty dev\<rparr>"]
      book_svc_open [OF orders devices local] covered_finite(1) [OF cov] orders
    show ?thesis by (simp add: escrow_covered_def)
  next
    case False
    with received_currency [OF op] True have "h_currency t = h_currency s" by auto
    with cov orders book_svc_open_remote [OF orders devices False none]
    show ?thesis by (simp add: escrow_covered_def)
  qed
next
  case False
  with order_received_storage [OF op] have storage: "s_devices t = s_devices s"
    "s_orders t = s_orders s" by auto
  have "covers reserved alive (h_currency t) (owed (book_svc cfg s))"
    using received_currency [OF op] False covered_covers [OF cov]
    by (auto dest: covers_reserve)
  with storage covered_finite(1) [OF cov] book_svc_cong [of t s cfg] show ?thesis
    by (simp add: escrow_covered_def)
qed

end

context service_escrow
begin

lemma order_covered:
  "escrow_covered reserved alive cfg s \<Longrightarrow> order_svc cfg origin ob s = (r, t) \<Longrightarrow>
    escrow_covered reserved alive cfg t"
  by (auto simp: order_svc_def try_pure_def intro: received_covered split: sum.splits)

lemma cancel_covered:
  assumes "escrow_covered reserved alive cfg s" and "cancel_svc cfg origin d s = (r, t)"
  shows "escrow_covered reserved alive cfg t"
  using assms
  by (auto simp: cancel_svc_def try_pure_def ok_or_def Let_def intro: reject_covered
      split: sum.splits option.splits if_splits)

lemma accept_covered:
  assumes cov: "escrow_covered reserved alive cfg s"
    and op: "accept_svc cfg origin rej onoff s = (r, t)"
    and d: "ensure_signed cfg origin = Inr d"
  shows "escrow_covered reserved alive cfg t"
proof (cases "s_devices s d")
  case None
  with op d cov show ?thesis by (auto simp: accept_svc_def Let_def)
next
  case (Some dev)
  consider (same) "t = s"
    | (reject) od where "s_orders s d = Some od" "order_reject_svc cfg (Some od) (h_now s) d
        (dev\<lparr>dev_state := state_of_onoff onoff\<rparr>) onoff s = (r, t)"
    | (switch) "s_orders s d = None" "s_devices t = (s_devices s)(d \<mapsto> dev\<lparr>dev_state := state_of_onoff onoff\<rparr>)"
        "s_orders t = s_orders s" "h_currency t = h_currency s"
    | (accept) od where "t = order_accept_svc cfg od (h_now s) d dev s"
    using op d Some
    by (cases "s_orders s d")
      (auto simp: accept_svc_def Let_def onoff_if order_reject_svc_def[of _ None] fun_upd_idem
        split: if_splits)
  then show ?thesis
  proof cases
    case same
    with cov show ?thesis by simp
  next
    case reject
    from reject_covered [OF cov reject(1) Some _ reject(2)] show ?thesis by simp
  next
    case switch
    with covered_storage [OF cov switch(3)] Some show ?thesis by auto
  next
    case accept
    with covered_storage [OF cov, of t] Some show ?thesis by auto
  qed
qed

lemma done_call_covered:
  assumes "escrow_covered reserved alive cfg s" and "done_svc cfg origin onoff s = (r, t)"
  shows "escrow_covered reserved alive cfg t"
  using assms
  by (auto simp: done_svc_def try_pure_def ok_or_def Let_def intro: done_covered
      split: sum.splits option.splits if_splits)

lemma register_covered:
  assumes "escrow_covered reserved alive cfg s" and "register_svc cfg origin pen w onoff s = (r, t)"
  shows "escrow_covered reserved alive cfg t"
  using assms
  by (auto simp: register_svc_def try_pure_def intro!: covered_storage [OF assms(1)]
      split: sum.splits if_splits)

lemma set_state_covered:
  assumes "escrow_covered reserved alive cfg s" and "set_state_svc cfg origin onoff s = (r, t)"
  shows "escrow_covered reserved alive cfg t"
  using assms
  by (auto simp: set_state_svc_def try_pure_def intro!: covered_storage [OF assms(1)]
      split: sum.splits option.splits if_splits bool.splits device_state.splits)

lemma killed_covered:
  assumes "escrow_covered reserved alive cfg s" and "service_wf s"
  shows "escrow_covered reserved alive cfg (on_killed_account_svc d s)"
proof (cases "s_orders s d")
  case None
  with assms(1) show ?thesis
    by (auto simp: on_killed_account_svc_def intro!: covered_storage [OF assms(1)]
        split: option.splits)
next
  case (Some od)
  from service_wf_order [OF assms(2) Some] obtain p
    where "s_devices s d = Some p" "dev_state p = Busy \<or> dev_state p = Busy2" by blast
  then have "on_killed_account_svc d s = s" by (auto simp: on_killed_account_svc_def)
  with assms(1) show ?thesis by simp
qed

lemma blob_covered:
  assumes "escrow_covered reserved alive cfg s"
  shows "escrow_covered reserved alive cfg (handle_blob_message_svc cfg p n b s)"
  using assms received_covered [OF assms prod.collapse [symmetric]]
  by (auto simp: handle_blob_message_svc_def split: option.splits xcmp_message.splits)

lemma dispatch_covered:
  assumes "escrow_covered reserved alive cfg s" and "service_wf s"
    and "dispatch_svc cfg i s = (r, t)"
  shows "escrow_covered reserved alive cfg t"
proof (cases i)
  case (CallAccept origin rej onoff)
  with assms show ?thesis
    by (cases "ensure_signed cfg origin") (auto simp: not_signed_unchanged intro: accept_covered)
next
  case (XcmMessage p n x)
  with assms show ?thesis
    by (auto simp: handle_xcm_message_svc_def Let_def intro!: covered_storage [OF assms(1)]
        split: sum.splits)
qed (use assms in \<open>auto intro: order_covered cancel_covered done_call_covered register_covered
      set_state_covered killed_covered blob_covered\<close>)

end

section \<open>Runs\<close>

inductive funded_step ::
  "('c \<Rightarrow> 'a \<Rightarrow> nat) \<Rightarrow> ('c \<Rightarrow> 'a \<Rightarrow> bool) \<Rightarrow> ('o, 'a, 'p, 'c, 'q) service_config \<Rightarrow>
   ('a, 'p, 'c, 'q) service_state \<Rightarrow> ('a, 'p, 'c, 'q) service_state \<Rightarrow> bool"
  for reserved alive cfg where
  funded_input: "dispatch_svc cfg i s = (r, t) \<Longrightarrow> funded_step reserved alive cfg s t"
| funded_outside: "h_now s \<le> n \<Longrightarrow>
    outside_change reserved alive (owed (book_svc cfg s)) (h_currency s) c \<Longrightarrow>
    funded_step reserved alive cfg s (s\<lparr>h_now := n, h_currency := c, h_outbox := q\<rparr>)"

lemma book_svc_host [simp]:
  "book_svc cfg (s\<lparr>h_now := n, h_currency := c, h_outbox := q\<rparr>) = book_svc cfg s"
  by (rule book_svc_cong) simp_all

lemma service_init_covered: "service_init s \<Longrightarrow> escrow_covered reserved alive cfg s"
proof -
  assume "service_init s"
  then have "s_orders s = Map.empty" and "book_svc cfg s = Map.empty"
    by (auto simp: service_init_def book_svc_def)
  then show ?thesis by (simp add: escrow_covered_def covers_def)
qed

lemma funded_step_inv:
  assumes "currency (currency_impl cfg) free reserved alive ed" and "receiver_ok cfg"
    and "service_wf s" and "escrow_covered reserved alive cfg s"
    and "funded_step reserved alive cfg s t"
  shows "service_wf t \<and> escrow_covered reserved alive cfg t"
  using assms(5)
proof cases
  case (funded_input i r)
  have "service_escrow cfg free reserved alive ed"
    using assms(1) by (simp add: service_escrow_def)
  from service_escrow.dispatch_covered [OF this assms(4,3) funded_input]
  have "escrow_covered reserved alive cfg t" .
  moreover from dispatch_svc_legal [OF assms(2,3) funded_input] obtain d where "legal_move s t d" ..
  then have "service_wf t" using assms(3) by (rule legal_move_wf)
  ultimately show ?thesis by simp
next
  case (funded_outside n c q)
  then have "escrow_covered reserved alive cfg t"
    using assms(4) outside_change_covers by (auto simp: escrow_covered_def)
  moreover have "service_wf t"
    using assms(3) funded_outside by (simp add: service_wf_def phase_svc_def)
  ultimately show ?thesis by simp
qed

interpretation funded_run: invariant_system service_init "funded_step reserved alive cfg"
    "\<lambda>s. currency (currency_impl cfg) free reserved alive ed \<and> receiver_ok cfg \<longrightarrow>
      service_wf s \<and> escrow_covered reserved alive cfg s" for free reserved alive ed cfg
  by unfold_locales
    (auto simp: service_init_wf service_init_covered dest: funded_step_inv)

interpretation sample_escrow: service_escrow sample_service ledger_free ledger_reserved
    ledger_alive 500
  by (simp add: service_escrow_def ledger.currency_axioms)

end
