(* ===== verification/ServiceSettle.thy ===== *)
theory ServiceSettle
  imports ServiceEscrow
begin

text \<open>
  What each way of closing an order pays to whom, who may close it, and what a failing call
  leaves behind. The properties of the service pallet that hold of single calls are stated
  here; those of runs follow from the invariants of the two theories before.
\<close>

section \<open>The deposits of an open order\<close>

lemma covered_deposit:
  assumes "escrow_covered reserved alive cfg s" and "s_orders s d = Some od"
    and "s_devices s d = Some p" and "o_paraid od = self_para_id cfg"
  shows "alive (h_currency s) (o_client od) \<Longrightarrow> unat (o_fee od) \<le> reserved (h_currency s) (o_client od)"
    and "alive (h_currency s) d \<Longrightarrow> unat (dev_penalty p) \<le> reserved (h_currency s) d"
proof -
  let ?x = "\<lparr>dep_client = o_client od, dep_fee = o_fee od, dep_penalty = dev_penalty p\<rparr>"
  have bk: "book_svc cfg s d = Some ?x" using assms(2-4) by (simp add: book_svc_def)
  have fin: "finite (dom (book_svc cfg s))"
    using assms(1) by (simp add: escrow_covered_def finite_book)
  have need: "share a d ?x \<le> reserved (h_currency s) a" if "alive (h_currency s) a" for a
    using share_le_owed [OF fin bk, of a] assms(1) that
    by (auto simp: escrow_covered_def covers_def intro: order_trans)
  show "alive (h_currency s) (o_client od) \<Longrightarrow> unat (o_fee od) \<le> reserved (h_currency s) (o_client od)"
    using need [of "o_client od"] by (auto simp: share_def)
  show "alive (h_currency s) d \<Longrightarrow> unat (dev_penalty p) \<le> reserved (h_currency s) d"
    using need [of d] by (auto simp: share_def)
qed

section \<open>Completing and closing a local order\<close>

context service_escrow
begin

lemma done_pays_in_time:
  assumes "escrow_covered reserved alive cfg s"
    and d: "ensure_signed cfg origin = Inr d" and p: "s_devices s d = Some p"
    and st: "dev_state p = Busy2" and od: "s_orders s d = Some od"
    and loc: "o_paraid od = self_para_id cfg" and time: "h_now s < o_until od"
    and live: "alive (h_currency s) (o_client od)" "alive (h_currency s) d"
    and neq: "o_client od \<noteq> d"
    and rich: "ed \<le> free (h_currency s) (o_client od) + reserved (h_currency s) (o_client od)
      - unat (o_fee od)"
  shows "\<exists>t. done_svc cfg origin onoff s = (Inr (), t) \<and>
    s_orders t = (s_orders s)(d := None) \<and>
    s_devices t = (s_devices s)(d \<mapsto> p\<lparr>dev_state := state_of_onoff onoff\<rparr>) \<and>
    free (h_currency t) = (free (h_currency s))
      (d := free (h_currency s) d + unat (o_fee od) + unat (dev_penalty p)) \<and>
    reserved (h_currency t) = (reserved (h_currency s))
      (o_client od := reserved (h_currency s) (o_client od) - unat (o_fee od),
       d := reserved (h_currency s) d - unat (dev_penalty p))"
proof -
  let ?c = "h_currency s"
  note dep = covered_deposit [OF assms(1) od p loc]
  obtain rest c1 where pay: "repatriate_reserved (currency_impl cfg) (o_client od) d (o_fee od) Free ?c
      = (Inr rest, c1)"
    and c1: "free c1 = (free ?c)(d := free ?c d + unat (o_fee od))"
      "reserved c1 = (reserved ?c)(o_client od := reserved ?c (o_client od) - unat (o_fee od))"
    using repatriate_all [OF dep(1) [OF live(1)] live(2) neq rich] by metis
  have pen: "unat (dev_penalty p) \<le> reserved c1 d" using dep(2) [OF live(2)] neq c1 by simp
  obtain r t where op: "done_svc cfg origin onoff s = (r, t)" by fastforce
  then have "order_done_svc cfg od (h_now s) d p onoff (remove_order_svc d s) = (r, t)"
    using d p st od by (simp add: done_svc_def Let_def)
  from done_currency [OF this loc] order_done_storage [OF this] time pay
  have "r = Inr ()" and cur: "h_currency t = snd (unreserve (currency_impl cfg) d (dev_penalty p) c1)"
    and "s_orders t = (s_orders s)(d := None)"
    and "s_devices t = (s_devices s)(d \<mapsto> p\<lparr>dev_state := state_of_onoff onoff\<rparr>)"
    by auto
  moreover from unreserve_all [OF pen] cur c1 neq
  have "free (h_currency t) = (free ?c)(d := free ?c d + unat (o_fee od) + unat (dev_penalty p))"
    and "reserved (h_currency t) = (reserved ?c)
      (o_client od := reserved ?c (o_client od) - unat (o_fee od),
       d := reserved ?c d - unat (dev_penalty p))"
    by auto
  ultimately show ?thesis using op by blast
qed

end

context service_escrow
begin

text \<open>Closing an overdue order: the client gets the fee back and the penalty on top.\<close>

lemma reject_overdue_pays:
  assumes "escrow_covered reserved alive cfg s" and p: "s_devices s d = Some p"
    and od: "s_orders s d = Some od" and loc: "o_paraid od = self_para_id cfg"
    and time: "o_until od \<le> now" and pen: "dev_penalty dev = dev_penalty p"
    and live: "alive (h_currency s) (o_client od)" "alive (h_currency s) d"
    and neq: "o_client od \<noteq> d"
    and rich: "ed \<le> free (h_currency s) d + reserved (h_currency s) d - unat (dev_penalty p)"
  shows "\<exists>t. order_reject_svc cfg (Some od) now d dev onoff s = (Inr (), t) \<and>
    s_orders t = (s_orders s)(d := None) \<and> s_devices t = (s_devices s)(d \<mapsto> dev) \<and>
    free (h_currency t) = (free (h_currency s))
      (o_client od := free (h_currency s) (o_client od) + unat (o_fee od) + unat (dev_penalty p)) \<and>
    reserved (h_currency t) = (reserved (h_currency s))
      (o_client od := reserved (h_currency s) (o_client od) - unat (o_fee od),
       d := reserved (h_currency s) d - unat (dev_penalty p))"
proof -
  let ?c = "h_currency s"
  let ?c1 = "snd (unreserve (currency_impl cfg) (o_client od) (o_fee od) ?c)"
  note dep = covered_deposit [OF assms(1) od p loc]
  note c1 = unreserve_all [OF dep(1) [OF live(1)]]
  have "unat (dev_penalty p) \<le> reserved ?c1 d" "alive ?c1 (o_client od)" "d \<noteq> o_client od"
    "ed \<le> free ?c1 d + reserved ?c1 d - unat (dev_penalty p)"
    using dep(2) [OF live(2)] neq c1 live rich by simp_all
  then obtain rest c2 where forfeit:
      "repatriate_reserved (currency_impl cfg) d (o_client od) (dev_penalty p) Free ?c1 = (Inr rest, c2)"
    and c2: "free c2 = (free ?c1)(o_client od := free ?c1 (o_client od) + unat (dev_penalty p))"
      "reserved c2 = (reserved ?c1)(d := reserved ?c1 d - unat (dev_penalty p))"
    by (rule repatriate_all)
  obtain r t where op: "order_reject_svc cfg (Some od) now d dev onoff s = (r, t)" by fastforce
  from reject_currency [OF op loc] order_reject_storage [OF op] time forfeit pen
  have "r = Inr ()" and "h_currency t = c2" and "s_orders t = (s_orders s)(d := None)"
    and "s_devices t = (s_devices s)(d \<mapsto> dev)"
    by auto
  with op c1 c2 neq show ?thesis by auto
qed

text \<open>Rejecting in time: each side gets its own deposit back.\<close>

lemma reject_in_time_releases:
  assumes "escrow_covered reserved alive cfg s" and p: "s_devices s d = Some p"
    and od: "s_orders s d = Some od" and loc: "o_paraid od = self_para_id cfg"
    and time: "now < o_until od" and pen: "dev_penalty dev = dev_penalty p"
    and live: "alive (h_currency s) (o_client od)" "alive (h_currency s) d"
    and neq: "o_client od \<noteq> d"
  shows "\<exists>t. order_reject_svc cfg (Some od) now d dev onoff s = (Inr (), t) \<and>
    s_orders t = (s_orders s)(d := None) \<and> s_devices t = (s_devices s)(d \<mapsto> dev) \<and>
    free (h_currency t) = (free (h_currency s))
      (o_client od := free (h_currency s) (o_client od) + unat (o_fee od),
       d := free (h_currency s) d + unat (dev_penalty p)) \<and>
    reserved (h_currency t) = (reserved (h_currency s))
      (o_client od := reserved (h_currency s) (o_client od) - unat (o_fee od),
       d := reserved (h_currency s) d - unat (dev_penalty p))"
proof -
  let ?c = "h_currency s"
  let ?c1 = "snd (unreserve (currency_impl cfg) (o_client od) (o_fee od) ?c)"
  note dep = covered_deposit [OF assms(1) od p loc]
  note c1 = unreserve_all [OF dep(1) [OF live(1)]]
  have "unat (dev_penalty p) \<le> reserved ?c1 d" using dep(2) [OF live(2)] neq c1 by simp
  note c2 = unreserve_all [OF this]
  obtain r t where op: "order_reject_svc cfg (Some od) now d dev onoff s = (r, t)" by fastforce
  from reject_currency [OF op loc] order_reject_storage [OF op] time pen
  have "r = Inr ()" and "h_currency t = snd (unreserve (currency_impl cfg) d (dev_penalty p) ?c1)"
    and "s_orders t = (s_orders s)(d := None)" and "s_devices t = (s_devices s)(d \<mapsto> dev)"
    by auto
  with op c1 c2 neq show ?thesis by auto
qed

end

section \<open>Who may close an order\<close>

text \<open>The device an input acts for, when it is signed by it.\<close>

lemma order_received_keeps_open:
  assumes "order_received_svc cfg od' d' s = (r, t)" and "s_orders s d = Some od"
  shows "s_orders t d = Some od"
  using order_received_storage [OF assms(1)] assms(2) by auto

text \<open>The inputs that cannot open or close an order leave the orders and the balances alone.\<close>

fun handles_orders :: "('o, 'a, 'p) service_input \<Rightarrow> bool" where
  "handles_orders (CallRegister o' pen w onoff) = False"
| "handles_orders (CallSetState o' onoff) = False"
| "handles_orders (KilledAccount a) = False"
| "handles_orders (XcmMessage p n x) = False"
| "handles_orders _ = True"

lemma other_inputs_keep:
  assumes "\<not> handles_orders i" and "dispatch_svc cfg i s = (r, t)"
  shows "s_orders t = s_orders s \<and> h_currency t = h_currency s"
  using assms
  by (cases i) (auto simp: register_svc_def set_state_svc_def try_pure_def on_killed_account_svc_def
      handle_xcm_message_svc_def Let_def
      split: sum.splits if_splits option.splits bool.splits device_state.splits)

lemma blob_keeps_open:
  assumes "s_orders s d = Some od"
  shows "s_orders (handle_blob_message_svc cfg p n b s) d = Some od"
proof (cases "decode_with (message_impl cfg) b")
  case None
  with assms show ?thesis by (simp add: handle_blob_message_svc_def)
next
  case (Some m)
  with assms order_received_keeps_open [OF prod.collapse [symmetric] assms] show ?thesis
    by (cases m) (simp_all add: handle_blob_message_svc_def)
qed

lemma cancel_closes:
  assumes "cancel_svc cfg origin x s = (r, t)" and "s_orders s d = Some od"
    and "s_orders t d \<noteq> Some od"
  shows "x = d \<and> ensure_signed cfg origin = Inr (o_client od) \<and> o_until od \<le> h_now s"
proof (cases "ensure_signed cfg origin")
  case (Inl e)
  with assms show ?thesis by (simp add: not_signed_unchanged)
next
  case (Inr who)
  show ?thesis
  proof (cases "s_orders s x")
    case None
    with assms Inr show ?thesis by (auto simp: cancel_svc_def)
  next
    case (Some od')
    show ?thesis
    proof (cases "h_now s < o_until od' \<or> o_client od' \<noteq> who")
      case True
      with assms Inr Some show ?thesis by (auto simp: cancel_svc_def)
    next
      case False
      show ?thesis
      proof (cases "s_devices s x")
        case None
        with assms Inr Some False show ?thesis by (auto simp: cancel_svc_def)
      next
        case dev: (Some dev)
        from assms(1) Inr Some False dev
        have "order_reject_svc cfg (Some od') (h_now s) x dev False s = (r, t)"
          by (simp add: cancel_svc_def)
        from order_reject_storage [OF this] assms(2,3) have "x = d" by (cases "x = d") auto
        with Inr Some False assms(2) show ?thesis by auto
      qed
    qed
  qed
qed

lemma accept_closes:
  assumes "accept_svc cfg origin rej onoff s = (r, t)" and "s_orders s d = Some od"
    and "s_orders t d \<noteq> Some od"
  shows "ensure_signed cfg origin = Inr d \<and> rej"
proof (cases "ensure_signed cfg origin")
  case (Inl e)
  with assms show ?thesis by (simp add: not_signed_unchanged)
next
  case (Inr x)
  show ?thesis
  proof (cases "s_devices s x")
    case None
    with assms Inr show ?thesis by (auto simp: accept_svc_def Let_def)
  next
    case (Some dev)
    show ?thesis
    proof (cases "rej \<and> (dev_state dev = Busy \<or> dev_state dev = Busy2)")
      case True
      with assms(1) Inr Some have "order_reject_svc cfg (s_orders s x) (h_now s) x
          (dev\<lparr>dev_state := state_of_onoff onoff\<rparr>) onoff s = (r, t)"
        by (auto simp: accept_svc_def Let_def onoff_if)
      from order_reject_storage [OF this] assms(2,3) have "x = d" by (cases "x = d") auto
      with Inr True show ?thesis by simp
    next
      case False
      with assms Inr Some show ?thesis
        by (cases "s_orders s x") (auto simp: accept_svc_def Let_def split: if_splits)
    qed
  qed
qed

lemma done_closes:
  assumes "done_svc cfg origin onoff s = (r, t)" and "s_orders s d = Some od"
    and "s_orders t d \<noteq> Some od"
  shows "ensure_signed cfg origin = Inr d \<and> (\<exists>p. s_devices s d = Some p \<and> dev_state p = Busy2)"
proof (cases "\<exists>x p od'. ensure_signed cfg origin = Inr x \<and> s_devices s x = Some p \<and>
    dev_state p = Busy2 \<and> s_orders s x = Some od'")
  case True
  then obtain x p od' where x: "ensure_signed cfg origin = Inr x" "s_devices s x = Some p"
    "dev_state p = Busy2" "s_orders s x = Some od'" by blast
  with assms(1) have "order_done_svc cfg od' (h_now s) x p onoff (remove_order_svc x s) = (r, t)"
    by (simp add: done_svc_def Let_def)
  from order_done_storage(2) [OF this] assms(2,3) have "x = d" by (cases "x = d") auto
  with x show ?thesis by blast
next
  case False
  with assms have "t = s"
    by (auto simp: done_svc_def try_pure_def ok_or_def Let_def
        split: sum.splits option.splits if_splits)
  with assms show ?thesis by simp
qed

end
