(* ===== verification/ServiceProps.thy ===== *)
theory ServiceProps
  imports ServiceSettle
begin

text \<open>
  The properties of the service pallet, each with a concrete chain on which its hypotheses hold.
  The proofs apply the lemmas of the theories \<open>ServiceSafety\<close>, \<open>ServiceEscrow\<close> and
  \<open>ServiceSettle\<close>.
\<close>

section \<open>Runs to evaluate on\<close>

definition empty_service ::
  "(account_id, order_payload, account_id ledger, outbox) service_state" where
  "empty_service =
    \<lparr>h_now = 0, h_currency = [100 \<mapsto> \<lparr>acc_free = 1000000, acc_reserved = 0\<rparr>,
                              200 \<mapsto> \<lparr>acc_free = 1000000, acc_reserved = 0\<rparr>],
     h_outbox = [], s_devices = Map.empty, s_orders = Map.empty, s_events = []\<rparr>"

definition sample_request :: "(account_id, order_payload) order_base" where
  "sample_request = \<lparr>ob_until = 5000, ob_data = 7, ob_fee = 100000, ob_device = 100\<rparr>"

text \<open>Device 100 registers, then client 200 orders from it.\<close>

definition registered_service ::
  "(account_id, order_payload, account_id ledger, outbox) service_state" where
  "registered_service =
    snd (register_svc sample_service (Some 100) 10000 1000 True empty_service)"

definition ordered_service ::
  "(account_id, order_payload, account_id ledger, outbox) service_state" where
  "ordered_service = snd (order_svc sample_service (Some 200) sample_request registered_service)"

lemma empty_service_init: "service_init empty_service"
  by (simp add: service_init_def empty_service_def)

lemma registered_service_eq:
  "registered_service = empty_service
    \<lparr>s_devices := [100 \<mapsto> sample_profile Ready], s_events := [EvNewDevice 100]\<rparr>"
  by (simp add: registered_service_def register_svc_def empty_service_def sample_profile_def
      storage_svc_defs signed_by_def)

lemma ordered_service_eq:
  "ordered_service = (sample_state 0 Busy (Some (sample_order 200)))
    \<lparr>s_events := [EvNewDevice 100, EvNewOrder 100]\<rparr>"
  unfolding ordered_service_def registered_service_eq
  by (simp add: order_svc_def order_received_svc_def sample_request_def empty_service_def
      sample_state_defs storage_svc_defs sample_defs host_call_defs on_received_unit_def Let_def
      fun_eq_iff)

lemma ordered_service_steps:
  "dispatch_svc sample_service (CallRegister (Some 100) 10000 1000 True) empty_service
    = (fst (register_svc sample_service (Some 100) 10000 1000 True empty_service), registered_service)"
  "dispatch_svc sample_service (CallOrder (Some 200) sample_request) registered_service
    = (fst (order_svc sample_service (Some 200) sample_request registered_service), ordered_service)"
  by (simp_all add: registered_service_def ordered_service_def)

lemma ordered_service_reachable:
  "reachable service_init (service_step sample_service) ordered_service"
  by (rule reachable_step [OF reachable_step [OF reachable_init [of service_init]]])
    (rule empty_service_init service_step.input [OF ordered_service_steps(1)]
      service_step.input [OF ordered_service_steps(2)])+

lemma ordered_service_funded:
  "reachable service_init (funded_step ledger_reserved ledger_alive sample_service) ordered_service"
  by (rule reachable_step [OF reachable_step [OF reachable_init [of service_init]]])
    (rule empty_service_init funded_input [OF ordered_service_steps(1)]
      funded_input [OF ordered_service_steps(2)])+

lemma sample_funds:
  "ledger_free (h_currency (sample_state n st ord)) =
    (\<lambda>a. if a = 100 then 990000 else if a = 200 then 900000 else 0)"
  "ledger_reserved (h_currency (sample_state n st ord)) =
    (\<lambda>a. if a = 100 then 10000 else if a = 200 then 100000 else 0)"
  by (auto simp: sample_state_def ledger_observers intro!: ext)

lemma sample_fields:
  "o_fee (sample_order para) = 100000" "o_client (sample_order para) = 200"
  "dev_penalty (sample_profile st) = 10000" "dev_state (sample_profile st) = st"
  by (simp_all add: sample_order_def sample_profile_def)

lemma sample_covered:
  "escrow_covered ledger_reserved ledger_alive sample_service
    (sample_state n st (Some (sample_order 200)))"
proof -
  have "dom (\<lambda>d::account_id. if d = 100 then Some (sample_order 200) else None) = {100}"
    by (auto split: if_splits)
  moreover have "book_svc sample_service (sample_state n st (Some (sample_order 200))) =
      [100 \<mapsto> \<lparr>dep_client = 200, dep_fee = 100000, dep_penalty = 10000\<rparr>]"
    by (auto simp: book_svc_def sample_state_defs)
  ultimately show ?thesis
    by (auto simp: escrow_covered_def sample_state_def covers_def owed_def share_def
        ledger_observers split: if_splits)
qed

section \<open>The life cycle\<close>

text \<open>
  Claim C9. In well-formed storage, and with a hook that answers with a busy state or refuses,
  every input of the pallet touches the storage of at most one device, and moves that device along
  an edge of the life cycle automaton or leaves its phase as it is: the storage maps refine the
  automaton.
\<close>

theorem device_lifecycle:
  assumes "receiver_ok cfg" and "service_wf s" and "dispatch_svc cfg i s = (r, t)"
  shows "\<exists>d. (\<forall>x. x \<noteq> d \<longrightarrow> s_devices t x = s_devices s x \<and> s_orders t x = s_orders s x) \<and>
    (phase_svc t d = phase_svc s d \<or> phase_step (phase_svc s d) (phase_svc t d))"
  using dispatch_svc_legal [OF assms] unfolding legal_move_def .

theorem device_lifecycle_witness:
  "\<exists>d. (\<forall>x. x \<noteq> d \<longrightarrow> s_devices ordered_service x = s_devices registered_service x \<and>
        s_orders ordered_service x = s_orders registered_service x) \<and>
    (phase_svc ordered_service d = phase_svc registered_service d \<or>
      phase_step (phase_svc registered_service d) (phase_svc ordered_service d))"
proof (rule device_lifecycle [OF sample_receiver_ok _ ordered_service_steps(2)])
  show "service_wf registered_service"
    by (auto simp: service_wf_def phase_svc_def registered_service_eq empty_service_def
        sample_profile_def)
qed

text \<open>
  In every state a chain can reach from empty storage, an open order belongs to a
  registered device that is \<open>Busy\<close> or \<open>Busy2\<close>, and no device is ever in \<open>Timewait\<close>.
\<close>

theorem open_order_has_busy_device:
  assumes "receiver_ok cfg" and "reachable service_init (service_step cfg) s"
  shows "(\<forall>d od. s_orders s d = Some od \<longrightarrow>
      (\<exists>p. s_devices s d = Some p \<and> (dev_state p = Busy \<or> dev_state p = Busy2))) \<and>
    (\<forall>d p. s_devices s d = Some p \<longrightarrow> dev_state p \<noteq> Timewait)"
proof -
  have wf: "service_wf s" using service_run.reachable_inv [OF assms(2)] assms(1) by simp
  then show ?thesis by (metis service_wf_order service_wf_no_timewait)
qed

theorem open_order_has_busy_device_witness:
  "s_orders ordered_service 100 = Some (sample_order 200) \<and>
    (\<exists>p. s_devices ordered_service 100 = Some p \<and> (dev_state p = Busy \<or> dev_state p = Busy2))"
proof -
  have "s_orders ordered_service 100 = Some (sample_order 200)"
    by (simp add: ordered_service_eq sample_state_def)
  with open_order_has_busy_device [OF sample_receiver_ok ordered_service_reachable]
  show ?thesis by blast
qed

section \<open>Who may close an order\<close>

text \<open>
  Claim C23. An open order stays exactly as it was placed until one of the parties closes it: the
  client by cancelling it at or after its deadline, the device by rejecting it, or the device by
  reporting it done from \<open>Busy2\<close>. No message, no other signer and no other call
  changes it.
\<close>

theorem order_closed_only_by_parties:
  assumes "dispatch_svc cfg i s = (r, t)" and "s_orders s d = Some od"
    and "s_orders t d \<noteq> Some od"
  shows "(\<exists>origin. i = CallCancel origin d \<and> ensure_signed cfg origin = Inr (o_client od) \<and>
        o_until od \<le> h_now s) \<or>
    (\<exists>origin onoff. i = CallAccept origin True onoff \<and> ensure_signed cfg origin = Inr d) \<or>
    (\<exists>origin onoff p. i = CallDone origin onoff \<and> ensure_signed cfg origin = Inr d \<and>
        s_devices s d = Some p \<and> dev_state p = Busy2)"
proof (cases i)
  case (CallOrder origin ob)
  with assms show ?thesis
    by (auto simp: order_svc_def try_pure_def dest: order_received_keeps_open split: sum.splits)
next
  case (CallCancel origin x)
  with assms cancel_closes [of cfg origin x s r t d od] show ?thesis by auto
next
  case (CallAccept origin rej onoff)
  with assms accept_closes [of cfg origin rej onoff s r t d od] show ?thesis by auto
next
  case (CallDone origin onoff)
  with assms done_closes [of cfg origin onoff s r t d od] show ?thesis by auto
next
  case (BlobMessage p n b)
  with assms(1) have "t = handle_blob_message_svc cfg p n b s" by simp
  with blob_keeps_open [OF assms(2)] assms(3) show ?thesis by blast
qed (use assms other_inputs_keep [OF _ assms(1)] in auto)

theorem order_closed_only_by_parties_witness:
  "\<exists>origin. (CallCancel (Some 200) 100 :: (signed_origin, account_id, order_payload) service_input)
      = CallCancel origin 100 \<and>
    ensure_signed sample_service origin = Inr (o_client (sample_order 200)) \<and>
    o_until (sample_order 200) \<le> h_now (sample_state 6000 Busy (Some (sample_order 200)))"
proof -
  let ?s = "sample_state 6000 Busy (Some (sample_order 200))"
  let ?t = "snd (cancel_svc sample_service (Some 200) 100 ?s)"
  have step: "dispatch_svc sample_service (CallCancel (Some 200) 100) ?s
      = (fst (cancel_svc sample_service (Some 200) 100 ?s), ?t)" by simp
  have "s_orders ?s 100 = Some (sample_order 200)" by (simp add: sample_state_def)
  moreover have "s_orders ?t 100 \<noteq> Some (sample_order 200)"
    by (simp add: cancel_svc_def order_reject_svc_def sample_state_defs storage_svc_defs
        sample_defs host_call_defs Let_def)
  ultimately show ?thesis
    using order_closed_only_by_parties [OF step] by blast
qed

section \<open>Deposits\<close>

lemma sample_currency:
  "currency (currency_impl sample_service) ledger_free ledger_reserved ledger_alive 500"
  by (simp add: ledger.currency_axioms)

text \<open>
  Claim C2. Solvency, for a hook that answers with a busy state or refuses, and over the runs in
  which inputs of the pallet alternate with changes of the balances by other pallets that
  respect reserves: they lower no reserve of an account that stays alive, and they do not bring a
  dead account back to life while the pallet still lists a deposit of it. In every state such a
  run reaches, every living account has in reserve at least the fees of its open local orders as
  a client plus the penalties of the open local orders of its devices, also after failing calls.
\<close>

theorem escrow_solvent:
  assumes "currency (currency_impl cfg) free reserved alive ed" and "receiver_ok cfg"
    and "reachable service_init (funded_step reserved alive cfg) s"
    and "alive (h_currency s) a"
  shows "owed (book_svc cfg s) a \<le> reserved (h_currency s) a"
  using funded_run.reachable_inv [OF assms(3)] assms(1,2,4)
  by (auto simp: escrow_covered_def covers_def)

theorem escrow_solvent_witness:
  "owed (book_svc sample_service ordered_service) 200 \<le> ledger_reserved (h_currency ordered_service) 200
    \<and> owed (book_svc sample_service ordered_service) 100 \<le> ledger_reserved (h_currency ordered_service) 100"
proof -
  have "ledger_alive (h_currency ordered_service) 200" "ledger_alive (h_currency ordered_service) 100"
    by (simp_all add: ordered_service_eq sample_state_def ledger_alive_def)
  from this [THEN escrow_solvent [OF sample_currency sample_receiver_ok ordered_service_funded]]
  show ?thesis by blast
qed

text \<open>
  Claim C15. A device that reports a local order done before the deadline is paid: it receives the
  fee and its penalty back, the client's deposit is spent, the order is closed, the device is
  idle again, and no other account changes. The deposits are in reserve, and the client and the
  device are two different living accounts, of which the client keeps the existential
  deposit without its fee.
\<close>

theorem done_in_time_pays_device:
  assumes "currency (currency_impl cfg) free reserved alive ed"
    and "escrow_covered reserved alive cfg s"
    and "ensure_signed cfg origin = Inr d" and "s_devices s d = Some p" and "dev_state p = Busy2"
    and "s_orders s d = Some od" and "o_paraid od = self_para_id cfg" and "h_now s < o_until od"
    and "alive (h_currency s) (o_client od)" and "alive (h_currency s) d" and "o_client od \<noteq> d"
    and "ed \<le> free (h_currency s) (o_client od) + reserved (h_currency s) (o_client od)
      - unat (o_fee od)"
  shows "\<exists>t. done_svc cfg origin onoff s = (Inr (), t) \<and>
    s_orders t = (s_orders s)(d := None) \<and>
    s_devices t = (s_devices s)(d \<mapsto> p\<lparr>dev_state := state_of_onoff onoff\<rparr>) \<and>
    free (h_currency t) = (free (h_currency s))
      (d := free (h_currency s) d + unat (o_fee od) + unat (dev_penalty p)) \<and>
    reserved (h_currency t) = (reserved (h_currency s))
      (o_client od := reserved (h_currency s) (o_client od) - unat (o_fee od),
       d := reserved (h_currency s) d - unat (dev_penalty p))"
proof -
  have esc: "service_escrow cfg free reserved alive ed" using assms(1) by (simp add: service_escrow_def)
  show ?thesis by (rule service_escrow.done_pays_in_time [OF esc assms(2-)])
qed

theorem done_in_time_pays_device_witness:
  "\<exists>t. done_svc sample_service (Some 100) True (sample_state 3000 Busy2 (Some (sample_order 200)))
      = (Inr (), t) \<and>
    ledger_free (h_currency t) 100 = 990000 + 100000 + 10000 \<and>
    ledger_free (h_currency t) 200 = 900000 \<and> ledger_reserved (h_currency t) 200 = 0"
proof -
  let ?s = "sample_state 3000 Busy2 (Some (sample_order 200))"
  have "\<exists>t. done_svc sample_service (Some 100) True ?s = (Inr (), t) \<and>
    s_orders t = (s_orders ?s)(100 := None) \<and>
    s_devices t = (s_devices ?s)(100 \<mapsto> (sample_profile Busy2)\<lparr>dev_state := state_of_onoff True\<rparr>) \<and>
    ledger_free (h_currency t) = (ledger_free (h_currency ?s))
      (100 := ledger_free (h_currency ?s) 100 + unat (o_fee (sample_order 200))
        + unat (dev_penalty (sample_profile Busy2))) \<and>
    ledger_reserved (h_currency t) = (ledger_reserved (h_currency ?s))
      (o_client (sample_order 200) := ledger_reserved (h_currency ?s) (o_client (sample_order 200))
         - unat (o_fee (sample_order 200)),
       100 := ledger_reserved (h_currency ?s) 100 - unat (dev_penalty (sample_profile Busy2)))"
    by (rule done_in_time_pays_device [OF sample_currency sample_covered])
      (simp_all add: sample_state_defs signed_by_def ledger_observers)
  then show ?thesis by (force simp: sample_funds sample_fields)
qed

text \<open>
  Claim C16. A device reports a local order done at or after the deadline. The client and the
  device are two different accounts, both alive, and the deposits of the open orders are in
  reserve. Then the order is closed and the device is idle again, whatever happens to the
  balances. When the client survives the payment of its fee (the fee is zero or the client
  keeps the existential deposit), the call succeeds, the device earns the fee and its penalty
  goes to the client; a device that the penalty leaves below the existential deposit is
  reaped. When the client does not survive the payment, its account is reaped, the device earns
  the fee, and the call fails with the penalty still in the reserve of the device, unless the
  penalty is zero.
\<close>

theorem done_late_forfeits_penalty:
  assumes "strict_currency (currency_impl cfg) free reserved alive ed"
    and "escrow_covered reserved alive cfg s"
    and "ensure_signed cfg origin = Inr d" and "s_devices s d = Some p" and "dev_state p = Busy2"
    and "s_orders s d = Some od" and "o_paraid od = self_para_id cfg" and "o_until od \<le> h_now s"
    and "alive (h_currency s) (o_client od)" and "alive (h_currency s) d" and "o_client od \<noteq> d"
  shows "\<exists>r t. done_svc cfg origin onoff s = (r, t) \<and>
    s_orders t = (s_orders s)(d := None) \<and>
    s_devices t = (s_devices s)(d \<mapsto> p\<lparr>dev_state := state_of_onoff onoff\<rparr>) \<and>
    done_outcome free reserved ed False d
      \<lparr>dep_client = o_client od, dep_fee = o_fee od, dep_penalty = dev_penalty p\<rparr>
      (h_currency s) (r = Inr ()) (h_currency t)"
proof -
  let ?x = "\<lparr>dep_client = o_client od, dep_fee = o_fee od, dep_penalty = dev_penalty p\<rparr>"
  note dep = covered_deposit [OF assms(2,6,4,7)]
  have x: "dep_client ?x \<noteq> d" "alive (h_currency s) (dep_client ?x)"
    "unat (dep_fee ?x) \<le> reserved (h_currency s) (dep_client ?x)"
    "unat (dep_penalty ?x) \<le> reserved (h_currency s) d"
    using assms(9-11) dep by simp_all
  obtain rest c1 r2 c2 where pay:
    "repatriate_reserved (currency_impl cfg) (o_client od) d (o_fee od) Free (h_currency s) = (Inr rest, c1)"
    "repatriate_reserved (currency_impl cfg) d (o_client od) (dev_penalty p) Free c1 = (r2, c2)"
    and out: "done_outcome free reserved ed False d ?x (h_currency s) (\<exists>y. r2 = Inr y) c2"
    by (rule strict_currency.payment_late [OF assms(1) x(1,2) assms(10) x(3,4)]) simp
  obtain r t where op: "done_svc cfg origin onoff s = (r, t)" by fastforce
  then have "order_done_svc cfg od (h_now s) d p onoff (remove_order_svc d s) = (r, t)"
    using assms(3-6) by (simp add: done_svc_def Let_def)
  from done_currency [OF this assms(7)] order_done_storage [OF this] pay assms(8)
  have "h_currency t = c2" "(r = Inr ()) = (\<exists>y. r2 = Inr y)"
    "s_orders t = (s_orders s)(d := None)"
    "s_devices t = (s_devices s)(d \<mapsto> p\<lparr>dev_state := state_of_onoff onoff\<rparr>)"
    by auto
  with op out show ?thesis by auto
qed

text \<open>A client that pays its fee out of its last funds.\<close>

definition poor_client_state ::
  "(account_id, order_payload, account_id ledger, outbox) service_state" where
  "poor_client_state = (sample_state 5000 Busy2 (Some (sample_order 200)))
    \<lparr>h_currency := [100 \<mapsto> \<lparr>acc_free = 990000, acc_reserved = 10000\<rparr>,
                   200 \<mapsto> \<lparr>acc_free = 0, acc_reserved = 100000\<rparr>]\<rparr>"

lemma poor_client_covered:
  "escrow_covered ledger_reserved ledger_alive sample_service poor_client_state"
proof -
  have "book_svc sample_service poor_client_state
      = book_svc sample_service (sample_state 5000 Busy2 (Some (sample_order 200)))"
    by (intro book_svc_cong) (simp_all add: poor_client_state_def sample_state_def)
  with sample_covered [of 5000 Busy2] show ?thesis
    by (auto simp: escrow_covered_def covers_def poor_client_state_def sample_state_def
        ledger_observers split: if_splits)
qed

lemma strict_sample_currency:
  "strict_currency (currency_impl sample_service) ledger_free ledger_reserved ledger_alive 500"
  by (simp add: ledger_strict.strict_currency_axioms)

theorem done_late_forfeits_penalty_witness:
  "\<exists>t e. done_svc sample_service (Some 100) False poor_client_state = (Inl e, t) \<and>
    s_orders t 100 = None \<and> ledger_free (h_currency t) 100 = 990000 + 100000 \<and>
    ledger_reserved (h_currency t) 100 = 10000 \<and> ledger_free (h_currency t) 200 = 0"
proof -
  let ?s = poor_client_state
  let ?x = "\<lparr>dep_client = o_client (sample_order 200), dep_fee = o_fee (sample_order 200),
    dep_penalty = dev_penalty (sample_profile Busy2)\<rparr>"
  have "\<exists>r t. done_svc sample_service (Some 100) False ?s = (r, t) \<and>
    s_orders t = (s_orders ?s)(100 := None) \<and>
    s_devices t = (s_devices ?s)(100 \<mapsto> (sample_profile Busy2)\<lparr>dev_state := state_of_onoff False\<rparr>) \<and>
    done_outcome ledger_free ledger_reserved 500 False 100 ?x (h_currency ?s) (r = Inr ()) (h_currency t)"
    by (rule done_late_forfeits_penalty [OF strict_sample_currency poor_client_covered])
      (simp_all add: poor_client_state_def sample_state_defs signed_by_def ledger_observers)
  then obtain r t where t: "done_svc sample_service (Some 100) False ?s = (r, t)"
    "s_orders t = (s_orders ?s)(100 := None)"
    "done_outcome ledger_free ledger_reserved 500 False 100 ?x (h_currency ?s) (r = Inr ()) (h_currency t)"
    by blast
  from t(3) have "r \<noteq> Inr ()" "ledger_free (h_currency t) 100 = 990000 + 100000"
    "ledger_reserved (h_currency t) 100 = 10000" "ledger_free (h_currency t) 200 = 0"
    by (simp_all add: done_outcome_def survives_def poor_client_state_def sample_fields ledger_observers)
  with t show ?thesis by (cases r) auto
qed

text \<open>
  Claim C17. A client that cancels its own local order at or after the deadline gets the fee back
  and the device's penalty on top; the order is closed and the device keeps its busy state, so
  it is abandoned until it recovers. The deposits are in reserve, and the client and the device
  are two different living accounts, of which the device keeps the existential deposit without
  its penalty.
\<close>

theorem cancel_pays_client:
  assumes "currency (currency_impl cfg) free reserved alive ed"
    and "escrow_covered reserved alive cfg s"
    and "ensure_signed cfg origin = Inr (o_client od)" and "s_devices s d = Some p"
    and "s_orders s d = Some od" and "o_paraid od = self_para_id cfg" and "o_until od \<le> h_now s"
    and "alive (h_currency s) (o_client od)" and "alive (h_currency s) d" and "o_client od \<noteq> d"
    and "ed \<le> free (h_currency s) d + reserved (h_currency s) d - unat (dev_penalty p)"
  shows "\<exists>t. cancel_svc cfg origin d s = (Inr (), t) \<and>
    s_orders t = (s_orders s)(d := None) \<and> s_devices t d = Some p \<and>
    free (h_currency t) = (free (h_currency s))
      (o_client od := free (h_currency s) (o_client od) + unat (o_fee od) + unat (dev_penalty p)) \<and>
    reserved (h_currency t) = (reserved (h_currency s))
      (o_client od := reserved (h_currency s) (o_client od) - unat (o_fee od),
       d := reserved (h_currency s) d - unat (dev_penalty p))"
proof -
  have esc: "service_escrow cfg free reserved alive ed" using assms(1) by (simp add: service_escrow_def)
  from service_escrow.reject_overdue_pays [OF esc assms(2,4,5,6,7) refl assms(8,9,10,11)] assms(3-7)
  show ?thesis by (fastforce simp: cancel_svc_def Let_def)
qed

theorem cancel_pays_client_witness:
  "\<exists>t. cancel_svc sample_service (Some 200) 100 (sample_state 5000 Busy (Some (sample_order 200)))
      = (Inr (), t) \<and>
    ledger_free (h_currency t) 200 = 900000 + 100000 + 10000 \<and> phase_svc t 100 = Abandoned"
proof -
  let ?s = "sample_state 5000 Busy (Some (sample_order 200))"
  have "\<exists>t. cancel_svc sample_service (Some 200) 100 ?s = (Inr (), t) \<and>
    s_orders t = (s_orders ?s)(100 := None) \<and> s_devices t 100 = Some (sample_profile Busy) \<and>
    ledger_free (h_currency t) = (ledger_free (h_currency ?s))
      (o_client (sample_order 200) := ledger_free (h_currency ?s) (o_client (sample_order 200))
         + unat (o_fee (sample_order 200)) + unat (dev_penalty (sample_profile Busy))) \<and>
    ledger_reserved (h_currency t) = (ledger_reserved (h_currency ?s))
      (o_client (sample_order 200) := ledger_reserved (h_currency ?s) (o_client (sample_order 200))
         - unat (o_fee (sample_order 200)),
       100 := ledger_reserved (h_currency ?s) 100 - unat (dev_penalty (sample_profile Busy)))"
    by (rule cancel_pays_client [OF sample_currency sample_covered])
      (simp_all add: sample_state_defs signed_by_def ledger_observers)
  then show ?thesis by (force simp: sample_funds sample_fields phase_svc_def)
qed

text \<open>
  A device that rejects a local order before the deadline makes both sides whole: the
  client gets the fee back and the device its penalty, whatever it had accepted before.
\<close>

theorem reject_in_time_makes_whole:
  assumes "currency (currency_impl cfg) free reserved alive ed"
    and "escrow_covered reserved alive cfg s"
    and "ensure_signed cfg origin = Inr d" and "s_devices s d = Some p"
    and "dev_state p = Busy \<or> dev_state p = Busy2"
    and "s_orders s d = Some od" and "o_paraid od = self_para_id cfg" and "h_now s < o_until od"
    and "alive (h_currency s) (o_client od)" and "alive (h_currency s) d" and "o_client od \<noteq> d"
  shows "\<exists>t. accept_svc cfg origin True onoff s = (Inr (), t) \<and>
    s_orders t = (s_orders s)(d := None) \<and>
    s_devices t = (s_devices s)(d \<mapsto> p\<lparr>dev_state := state_of_onoff onoff\<rparr>) \<and>
    free (h_currency t) = (free (h_currency s))
      (o_client od := free (h_currency s) (o_client od) + unat (o_fee od),
       d := free (h_currency s) d + unat (dev_penalty p)) \<and>
    reserved (h_currency t) = (reserved (h_currency s))
      (o_client od := reserved (h_currency s) (o_client od) - unat (o_fee od),
       d := reserved (h_currency s) d - unat (dev_penalty p))"
proof -
  have esc: "service_escrow cfg free reserved alive ed" using assms(1) by (simp add: service_escrow_def)
  have "accept_svc cfg origin True onoff s = order_reject_svc cfg (Some od) (h_now s) d
      (p\<lparr>dev_state := state_of_onoff onoff\<rparr>) onoff s"
    using assms(3-6) by (auto simp: accept_svc_def Let_def onoff_if)
  then show ?thesis
    using service_escrow.reject_in_time_releases [OF esc assms(2,4,6,7,8) _ assms(9,10,11)] by simp
qed

theorem reject_in_time_makes_whole_witness:
  "\<exists>t. accept_svc sample_service (Some 100) True True (sample_state 3000 Busy (Some (sample_order 200)))
      = (Inr (), t) \<and>
    ledger_free (h_currency t) 200 = 1000000 \<and> ledger_free (h_currency t) 100 = 1000000"
proof -
  let ?s = "sample_state 3000 Busy (Some (sample_order 200))"
  have "\<exists>t. accept_svc sample_service (Some 100) True True ?s = (Inr (), t) \<and>
    s_orders t = (s_orders ?s)(100 := None) \<and>
    s_devices t = (s_devices ?s)(100 \<mapsto> (sample_profile Busy)\<lparr>dev_state := state_of_onoff True\<rparr>) \<and>
    ledger_free (h_currency t) = (ledger_free (h_currency ?s))
      (o_client (sample_order 200) := ledger_free (h_currency ?s) (o_client (sample_order 200))
         + unat (o_fee (sample_order 200)),
       100 := ledger_free (h_currency ?s) 100 + unat (dev_penalty (sample_profile Busy))) \<and>
    ledger_reserved (h_currency t) = (ledger_reserved (h_currency ?s))
      (o_client (sample_order 200) := ledger_reserved (h_currency ?s) (o_client (sample_order 200))
         - unat (o_fee (sample_order 200)),
       100 := ledger_reserved (h_currency ?s) 100 - unat (dev_penalty (sample_profile Busy)))"
    by (rule reject_in_time_makes_whole [OF sample_currency sample_covered])
      (simp_all add: sample_state_defs signed_by_def ledger_observers)
  then show ?thesis by (force simp: sample_funds sample_fields)
qed

end
