(* ===== verification/ServiceRules.thy ===== *)
theory ServiceRules
  imports ServiceSettle
begin

text \<open>
  The rules of the service pallet that are not about who is paid: when an order is admitted, what
  an input that fails leaves behind, what an abandoned device can do, and how orders of another
  chain are settled. The properties built on them are in theory \<open>ServiceRuleProps\<close>.
\<close>

section \<open>Admission\<close>

definition admissible_svc ::
  "('o, 'a, 'p, 'c, 'q) service_config \<Rightarrow> ('a, 'p) order \<Rightarrow> 'a \<Rightarrow>
   ('a, 'p, 'c, 'q) service_state \<Rightarrow> device_profile_svc \<Rightarrow> device_state \<Rightarrow> bool" where
  "admissible_svc cfg od d s p st \<longleftrightarrow>
    h_now s < o_until od \<and> s_orders s d = None \<and> s_devices s d = Some p \<and>
    dev_state p = Ready \<and> h_now s + dev_wcd p \<le> o_until od \<and> on_received cfg d od = Some st"

text \<open>A sum of clock and work cycle that overflows ends before the clock, so before any deadline.\<close>

lemma overflow_leaves_time:
  fixes n w u :: moment
  assumes "n < u" and "2 ^ 64 \<le> unat n + unat w"
  shows "n + w \<le> u" and "unat u < unat n + unat w"
proof -
  have bound: "unat w < 2 ^ 64" "unat u < 2 ^ 64" using unsigned_less [of w, where ?'a = nat] unsigned_less [of u, where ?'a = nat] by simp_all
  have "unat n + unat w < 2 * 2 ^ 64" using unsigned_less [of n, where ?'a = nat] bound by simp
  with assms(2) have "unat (n + w) = unat n + unat w - 2 ^ 64"
    by (simp add: unat_word_ariths mod_if)
  with bound assms(1) show "n + w \<le> u" by (simp add: word_le_nat_alt word_less_nat_alt)
  show "unat u < unat n + unat w" using bound(2) assms(2) by simp
qed

lemma received_error:
  "order_received_svc cfg od d s = (Inl e, t) \<Longrightarrow>
    s_devices t = s_devices s \<and> s_orders t = s_orders s"
  using order_received_storage by fastforce

lemma received_events_error:
  "order_received_svc cfg od d s = (Inl e, t) \<Longrightarrow> s_events t = s_events s"
  by (auto simp: order_received_svc_def Let_def and_then_def try_pure_def host_calls_svc
      split: option.splits if_splits prod.splits sum.splits)

lemma received_not_admissible:
  assumes "\<And>p st. \<not> admissible_svc cfg od d s p st"
  obtains e where "order_received_svc cfg od d s = (Inl e, s)"
proof -
  have "\<exists>e. order_received_svc cfg od d s = (Inl e, s)"
    using assms [of "the (s_devices s d)" "the (on_received cfg d od)"]
    by (cases "s_devices s d"; cases "on_received cfg d od")
      (auto simp: order_received_svc_def admissible_svc_def Let_def not_less not_le)
  then show ?thesis using that by blast
qed

lemma received_admissible_remote:
  assumes "admissible_svc cfg od d s p st" and "o_paraid od \<noteq> self_para_id cfg"
  shows "order_received_svc cfg od d s = (Inr (),
    let s' = deposit_event_svc (EvNewOrder d) (put_order_svc d od s);
        p' = p\<lparr>dev_state := st\<rparr>
    in if st = Busy2 then order_accept_svc cfg od (h_now s) d p' s' else put_device_svc d p' s')"
  using assms
  by (auto simp: admissible_svc_def order_received_svc_def Let_def not_le not_less)

lemma received_admissible_local:
  assumes "admissible_svc cfg od d s p st" and "o_paraid od = self_para_id cfg"
  shows "order_received_svc cfg od d s =
    (if \<not> can_reserve (currency_impl cfg) (o_client od) (o_fee od) (h_currency s)
     then (Inl (Pallet DeviceLowBail), s)
     else and_then (and_then (reserve_now cfg d (dev_penalty p) s)
                     (\<lambda>_ s. reserve_now cfg (o_client od) (o_fee od) s))
       (\<lambda>_ s'. (Inr (),
          let s' = deposit_event_svc (EvNewOrder d) (put_order_svc d od s');
              p' = p\<lparr>dev_state := st\<rparr>
          in if st = Busy2 then order_accept_svc cfg od (h_now s) d p' s'
             else put_device_svc d p' s')))"
  using assms
  by (auto simp: admissible_svc_def order_received_svc_def Let_def not_le not_less can_reserve_now_def)

lemma reserve_now_error:
  "reserve_now env a v s = (Inl e, t) \<longleftrightarrow>
    (\<exists>x c. reserve (currency_impl env) a v (h_currency s) = (Inl x, c) \<and> e = Foreign x \<and>
      t = s\<lparr>h_currency := c\<rparr>)"
  by (auto simp: reserve_now_def foreign_eq_Inl split: prod.splits)

context service_escrow
begin

lemma can_reserve_ok:
  assumes "can_reserve (currency_impl cfg) a v c"
  obtains c' where "reserve (currency_impl cfg) a v c = (Inr (), c')"
  using assms can_reserve_iff by auto

lemma cannot_reserve:
  assumes "\<not> can_reserve (currency_impl cfg) a v c"
  obtains e where "reserve (currency_impl cfg) a v c = (Inl e, c)"
proof -
  obtain r c' where op: "reserve (currency_impl cfg) a v c = (r, c')" by fastforce
  with assms can_reserve_iff [of a v c] obtain e where "r = Inl e" by (cases r) auto
  with op reserve_err show ?thesis using that by metis
qed

text \<open>
  An order of a client that is not the device itself is taken exactly when it is admissible and
  both sides can afford their deposit; otherwise nothing at all changes.
\<close>

lemma received_local_iff:
  assumes "o_paraid od = self_para_id cfg" and "o_client od \<noteq> d"
    and "order_received_svc cfg od d s = (r, t)"
  shows "r = Inr () \<longleftrightarrow> (\<exists>p st. admissible_svc cfg od d s p st \<and>
      can_reserve (currency_impl cfg) (o_client od) (o_fee od) (h_currency s) \<and>
      can_reserve (currency_impl cfg) d (dev_penalty p) (h_currency s))"
    and "r \<noteq> Inr () \<Longrightarrow> t = s"
proof -
  have "(r = Inr () \<longleftrightarrow> (\<exists>p st. admissible_svc cfg od d s p st \<and>
      can_reserve (currency_impl cfg) (o_client od) (o_fee od) (h_currency s) \<and>
      can_reserve (currency_impl cfg) d (dev_penalty p) (h_currency s))) \<and>
    (r \<noteq> Inr () \<longrightarrow> t = s)"
  proof (cases "\<exists>p st. admissible_svc cfg od d s p st")
    case False
    then obtain e where "order_received_svc cfg od d s = (Inl e, s)"
      using received_not_admissible [of cfg od d s] by blast
    with False assms(3) show ?thesis by auto
  next
    case True
    then obtain p st where adm: "admissible_svc cfg od d s p st" by blast
    have uniq: "p' = p" if "admissible_svc cfg od d s p' st'" for p' st'
      using that adm by (simp add: admissible_svc_def)
    note op = received_admissible_local [OF adm assms(1)]
    show ?thesis
    proof (cases "can_reserve (currency_impl cfg) (o_client od) (o_fee od) (h_currency s)")
      case False
      with op assms(3) show ?thesis by auto
    next
      case client: True
      show ?thesis
      proof (cases "can_reserve (currency_impl cfg) d (dev_penalty p) (h_currency s)")
        case False
        then obtain e where
          "reserve (currency_impl cfg) d (dev_penalty p) (h_currency s) = (Inl e, h_currency s)"
          by (rule cannot_reserve)
        then have rn: "reserve_now cfg d (dev_penalty p) s = (Inl (Foreign e), s)"
          by (simp add: reserve_now_def)
        from op client assms(3) have "r = Inl (Foreign e)" and "t = s" by (simp_all add: rn)
        with False uniq show ?thesis by auto
      next
        case True
        then obtain c1 where c1:
          "reserve (currency_impl cfg) d (dev_penalty p) (h_currency s) = (Inr (), c1)"
          by (rule can_reserve_ok)
        with client assms(2) have "can_reserve (currency_impl cfg) (o_client od) (o_fee od) c1"
          using can_reserve_local [OF c1] by simp
        then obtain c2 where c2:
          "reserve (currency_impl cfg) (o_client od) (o_fee od) c1 = (Inr (), c2)"
          by (rule can_reserve_ok)
        have rn: "reserve_now cfg d (dev_penalty p) s = (Inr (), s\<lparr>h_currency := c1\<rparr>)"
          "reserve_now cfg (o_client od) (o_fee od) (s\<lparr>h_currency := c1\<rparr>)
            = (Inr (), s\<lparr>h_currency := c2\<rparr>)"
          using c1 c2 by (simp_all add: reserve_now_def)
        from op client assms(3) have "r = Inr ()" by (simp add: rn)
        with client adm True show ?thesis by blast
      qed
    qed
  qed
  then show "r = Inr () \<longleftrightarrow> (\<exists>p st. admissible_svc cfg od d s p st \<and>
      can_reserve (currency_impl cfg) (o_client od) (o_fee od) (h_currency s) \<and>
      can_reserve (currency_impl cfg) d (dev_penalty p) (h_currency s))"
    and "r \<noteq> Inr () \<Longrightarrow> t = s" by auto
qed

text \<open>
  A device that orders from itself reserves both deposits on one account: the fee has to be free
  before the penalty is reserved and after, and when it is not after, the penalty stays.
\<close>

lemma received_own_iff:
  assumes "o_paraid od = self_para_id cfg" and "o_client od = d"
    and "order_received_svc cfg od d s = (r, t)"
  shows "(r = Inr () \<longleftrightarrow> (\<exists>p st c1. admissible_svc cfg od d s p st \<and>
      can_reserve (currency_impl cfg) d (o_fee od) (h_currency s) \<and>
      reserve (currency_impl cfg) d (dev_penalty p) (h_currency s) = (Inr (), c1) \<and>
      can_reserve (currency_impl cfg) d (o_fee od) c1)) \<and>
    (r \<noteq> Inr () \<longrightarrow> t = s \<or> (\<exists>p c1. s_devices s d = Some p \<and> t = s\<lparr>h_currency := c1\<rparr> \<and>
      reserve (currency_impl cfg) d (dev_penalty p) (h_currency s) = (Inr (), c1)))"
proof (cases "\<exists>p st. admissible_svc cfg od d s p st")
  case False
  then obtain e where "order_received_svc cfg od d s = (Inl e, s)"
    using received_not_admissible [of cfg od d s] by blast
  with False assms(3) show ?thesis by auto
next
  case True
  then obtain p st where adm: "admissible_svc cfg od d s p st" by blast
  then have dev: "s_devices s d = Some p" by (simp add: admissible_svc_def)
  have uniq: "p' = p" if "admissible_svc cfg od d s p' st'" for p' st'
    using that adm by (simp add: admissible_svc_def)
  note op = received_admissible_local [OF adm assms(1)]
  consider (low) "\<not> can_reserve (currency_impl cfg) d (o_fee od) (h_currency s)"
    | (pen) "can_reserve (currency_impl cfg) d (o_fee od) (h_currency s)"
        "\<not> can_reserve (currency_impl cfg) d (dev_penalty p) (h_currency s)"
    | (both) "can_reserve (currency_impl cfg) d (o_fee od) (h_currency s)"
        "can_reserve (currency_impl cfg) d (dev_penalty p) (h_currency s)" by blast
  then show ?thesis
  proof cases
    case low
    with op assms(2,3) show ?thesis by auto
  next
    case pen
    from pen(2) obtain e where e:
      "reserve (currency_impl cfg) d (dev_penalty p) (h_currency s) = (Inl e, h_currency s)"
      by (rule cannot_reserve)
    then have rn: "reserve_now cfg d (dev_penalty p) s = (Inl (Foreign e), s)"
      by (simp add: reserve_now_def)
    from op pen assms(2,3) have "r = Inl (Foreign e)" "t = s" by (simp_all add: rn)
    with e uniq show ?thesis by fastforce
  next
    case both
    from both(2) obtain c1 where c1:
      "reserve (currency_impl cfg) d (dev_penalty p) (h_currency s) = (Inr (), c1)"
      by (rule can_reserve_ok)
    then have rn: "reserve_now cfg d (dev_penalty p) s = (Inr (), s\<lparr>h_currency := c1\<rparr>)"
      by (simp add: reserve_now_def)
    show ?thesis
    proof (cases "can_reserve (currency_impl cfg) d (o_fee od) c1")
      case True
      then obtain c2 where "reserve (currency_impl cfg) d (o_fee od) c1 = (Inr (), c2)"
        by (rule can_reserve_ok)
      then have rn2: "reserve_now cfg d (o_fee od) (s\<lparr>h_currency := c1\<rparr>)
          = (Inr (), s\<lparr>h_currency := c2\<rparr>)"
        by (simp add: reserve_now_def)
      from op both assms(2,3) have "r = Inr ()" by (simp add: rn rn2)
      with both adm c1 True show ?thesis by blast
    next
      case False
      then obtain e where "reserve (currency_impl cfg) d (o_fee od) c1 = (Inl e, c1)"
        by (rule cannot_reserve)
      then have rn2: "reserve_now cfg d (o_fee od) (s\<lparr>h_currency := c1\<rparr>)
          = (Inl (Foreign e), s\<lparr>h_currency := c1\<rparr>)"
        by (simp add: reserve_now_def)
      from op both assms(2,3) have "r = Inl (Foreign e)" "t = s\<lparr>h_currency := c1\<rparr>"
        by (simp_all add: rn rn2)
      with c1 dev False uniq show ?thesis by fastforce
    qed
  qed
qed

end

section \<open>Failing inputs\<close>

text \<open>The storage of the pallet, without what the libraries own.\<close>

definition same_storage ::
  "('a, 'p, 'c, 'q) service_state \<Rightarrow> ('a, 'p, 'c, 'q) service_state \<Rightarrow> bool" where
  "same_storage s t \<longleftrightarrow>
    s_devices t = s_devices s \<and> s_orders t = s_orders s \<and> s_events t = s_events s"

lemma same_storage_refl [simp]: "same_storage s s"
  by (simp add: same_storage_def)

lemma received_error_storage:
  "order_received_svc cfg od d s = (Inl e, t) \<Longrightarrow> same_storage s t"
  by (simp add: same_storage_def received_error received_events_error)

lemma reject_error_storage:
  "order_reject_svc cfg ord now d dev onoff s = (Inl e, t) \<Longrightarrow> same_storage s t"
  by (auto simp: same_storage_def order_reject_svc_def Let_def and_then_def host_calls_svc
      split: option.splits if_splits prod.splits sum.splits)

lemma cancel_error_storage: "cancel_svc cfg origin d s = (Inl e, t) \<Longrightarrow> same_storage s t"
  by (auto simp: cancel_svc_def try_pure_def Let_def dest: reject_error_storage
      split: sum.splits if_splits)

lemma accept_error_storage: "accept_svc cfg origin rej onoff s = (Inl e, t) \<Longrightarrow> same_storage s t"
  by (auto simp: accept_svc_def try_pure_def Let_def dest: reject_error_storage
      split: sum.splits if_splits)

lemma register_error: "register_svc cfg origin pen w onoff s = (Inl e, t) \<Longrightarrow> t = s"
  by (auto simp: register_svc_def try_pure_def split: sum.splits if_splits)

lemma set_state_error: "set_state_svc cfg origin onoff s = (Inl e, t) \<Longrightarrow> t = s"
  by (auto simp: set_state_svc_def try_pure_def
      split: sum.splits option.splits bool.splits device_state.splits)

section \<open>Orders of another chain\<close>

lemma received_remote_currency:
  assumes "o_paraid od \<noteq> self_para_id cfg" and "order_received_svc cfg od d s = (r, t)"
  shows "h_currency t = h_currency s"
proof (cases "\<exists>p st. admissible_svc cfg od d s p st")
  case True
  then obtain p st where "admissible_svc cfg od d s p st" by blast
  from received_admissible_remote [OF this assms(1)] assms(2) show ?thesis
    by (auto simp: Let_def split: if_splits)
next
  case False
  then obtain e where "order_received_svc cfg od d s = (Inl e, s)"
    using received_not_admissible [of cfg od d s] by blast
  with assms(2) show ?thesis by simp
qed

lemma reject_remote_currency:
  assumes "o_paraid od \<noteq> self_para_id cfg"
    and "order_reject_svc cfg (Some od) now d dev onoff s = (r, t)"
  shows "h_currency t = h_currency s"
  using assms by (auto simp: order_reject_svc_def and_then_def host_calls_svc
      split: prod.splits sum.splits)

lemma done_remote_currency:
  assumes "o_paraid od \<noteq> self_para_id cfg"
    and "order_done_svc cfg od now d dev onoff s = (r, t)"
  shows "h_currency t = h_currency s"
  using assms by (auto simp: order_done_svc_def Let_def and_then_def host_calls_svc
      split: prod.splits sum.splits)

lemma blob_currency:
  assumes "p \<noteq> self_para_id cfg"
  shows "h_currency (handle_blob_message_svc cfg p n b s) = h_currency s"
proof (cases "decode_with (message_impl cfg) b")
  case None
  then show ?thesis by (simp add: handle_blob_message_svc_def)
next
  case (Some m)
  then show ?thesis
    using received_remote_currency [OF _ prod.collapse [symmetric], where cfg = cfg] assms
    by (cases m) (simp_all add: handle_blob_message_svc_def)
qed

section \<open>Abandoned devices\<close>

lemma abandoned_iff:
  "phase_svc s d = Abandoned \<longleftrightarrow> s_orders s d = None \<and>
    (\<exists>p. s_devices s d = Some p \<and> (dev_state p = Busy \<or> dev_state p = Busy2))"
  by (cases "s_devices s d"; cases "s_orders s d"; cases "dev_state (the (s_devices s d))")
    (auto simp: phase_svc_def)

lemma received_abandoned:
  assumes "phase_svc s d = Abandoned"
  obtains e where "order_received_svc cfg od d s = (Inl e, s)"
proof (rule received_not_admissible)
  show "\<not> admissible_svc cfg od d s p st" for p st
    using assms by (auto simp: abandoned_iff admissible_svc_def)
qed

lemma received_other:
  assumes "order_received_svc cfg od x s = (r, t)" and "x \<noteq> d"
  shows "phase_svc t d = phase_svc s d"
  using order_received_storage [OF assms(1)] assms(2) by (auto simp: phase_svc_def)

lemma received_phase_abandoned:
  assumes "order_received_svc cfg od x s = (r, t)" and "phase_svc s d = Abandoned"
  shows "phase_svc t d = Abandoned"
proof (cases "x = d")
  case True
  obtain e where "order_received_svc cfg od d s = (Inl e, s)"
    by (rule received_abandoned [OF assms(2)])
  with assms True show ?thesis by simp
qed (use received_other [OF assms(1)] assms(2) in simp)

lemma cancel_cases:
  assumes "cancel_svc cfg origin x s = (r, t)"
  shows "t = s \<or> (\<exists>od dev. s_orders s x = Some od \<and> s_devices s x = Some dev \<and>
    order_reject_svc cfg (Some od) (h_now s) x dev False s = (r, t))"
  using assms
  by (auto simp: cancel_svc_def try_pure_def Let_def ok_or_def
      split: sum.splits option.splits if_splits)

lemma cancel_phase_abandoned:
  assumes "cancel_svc cfg origin x s = (r, t)" and "phase_svc s d = Abandoned"
  shows "phase_svc t d = Abandoned"
  using cancel_cases [OF assms(1)]
proof (elim disjE exE conjE)
  fix od dev
  assume od: "s_orders s x = Some od"
    and rej: "order_reject_svc cfg (Some od) (h_now s) x dev False s = (r, t)"
  from od assms(2) have "x \<noteq> d" by (auto simp: abandoned_iff)
  with order_reject_storage [OF rej] have "phase_svc t d = phase_svc s d"
    by (auto simp: phase_svc_def)
  with assms(2) show ?thesis by simp
qed (use assms(2) in simp)

lemma accept_cases:
  assumes "accept_svc cfg origin rej onoff s = (r, t)"
  shows "t = s \<or> (\<exists>d dev. ensure_signed cfg origin = Inr d \<and> s_devices s d = Some dev \<and>
    (rej \<and> (dev_state dev = Busy \<or> dev_state dev = Busy2) \<and>
       order_reject_svc cfg (s_orders s d) (h_now s) d (dev\<lparr>dev_state := state_of_onoff onoff\<rparr>)
         onoff s = (r, t) \<or>
     \<not> rej \<and> dev_state dev = Busy \<and>
       (\<exists>od. s_orders s d = Some od \<and> t = order_accept_svc cfg od (h_now s) d dev s)))"
  using assms
  by (auto simp: accept_svc_def try_pure_def Let_def ok_or_def onoff_if
      split: sum.splits option.splits if_splits)

lemma done_cases:
  assumes "done_svc cfg origin onoff s = (r, t)"
  shows "t = s \<or> (\<exists>d dev od. ensure_signed cfg origin = Inr d \<and> s_devices s d = Some dev \<and>
    dev_state dev = Busy2 \<and> s_orders s d = Some od \<and>
    order_done_svc cfg od (h_now s) d dev onoff (remove_order_svc d s) = (r, t))"
  using assms
  by (auto simp: done_svc_def try_pure_def Let_def ok_or_def
      split: sum.splits option.splits if_splits)

lemma accept_phase_abandoned:
  assumes "accept_svc cfg origin rej onoff s = (r, t)" and "phase_svc s d = Abandoned"
    and "phase_svc t d \<noteq> Abandoned"
  shows "rej \<and> ensure_signed cfg origin = Inr d"
proof -
  consider (same) "t = s"
    | (reject) x dev where "rej" "ensure_signed cfg origin = Inr x"
        "order_reject_svc cfg (s_orders s x) (h_now s) x (dev\<lparr>dev_state := state_of_onoff onoff\<rparr>)
           onoff s = (r, t)"
    | (accept) x dev od where "s_orders s x = Some od" "t = order_accept_svc cfg od (h_now s) x dev s"
    using accept_cases [OF assms(1)] by blast
  then show ?thesis
  proof cases
    case same
    with assms(2,3) show ?thesis by simp
  next
    case reject
    have "x = d"
    proof (rule ccontr)
      assume "x \<noteq> d"
      with order_reject_storage [OF reject(3)] have "phase_svc t d = phase_svc s d"
        by (auto simp: phase_svc_def)
      with assms(2,3) show False by simp
    qed
    with reject show ?thesis by simp
  next
    case accept
    from accept(1) assms(2) have "x \<noteq> d" by (auto simp: abandoned_iff)
    with accept(2) assms(2,3) show ?thesis by (simp add: phase_svc_def)
  qed
qed

lemma done_phase_abandoned:
  assumes "done_svc cfg origin onoff s = (r, t)" and "phase_svc s d = Abandoned"
  shows "phase_svc t d = Abandoned"
  using done_cases [OF assms(1)]
proof (elim disjE exE conjE)
  fix x dev od
  assume od: "s_orders s x = Some od"
    and op: "order_done_svc cfg od (h_now s) x dev onoff (remove_order_svc x s) = (r, t)"
  from od assms(2) have "x \<noteq> d" by (auto simp: abandoned_iff)
  with order_done_storage [OF op] assms(2) show ?thesis by (simp add: phase_svc_def)
qed (use assms(2) in simp)

lemma killed_phase_abandoned:
  "phase_svc s d = Abandoned \<Longrightarrow> phase_svc (on_killed_account_svc a s) d = Abandoned"
  by (cases "s_orders s a") (auto simp: on_killed_account_svc_def phase_svc_def split: option.splits)

lemma set_state_phase_abandoned:
  assumes "set_state_svc cfg origin onoff s = (r, t)" and "phase_svc s d = Abandoned"
  shows "phase_svc t d = Abandoned"
proof (cases "ensure_signed cfg origin = Inr d")
  case True
  from assms(2) obtain p where "s_devices s d = Some p" "dev_state p = Busy \<or> dev_state p = Busy2"
    by (auto simp: abandoned_iff)
  with assms True show ?thesis by (auto simp: set_state_svc_def split: bool.splits)
next
  case False
  with assms show ?thesis
    by (auto simp: set_state_svc_def try_pure_def phase_svc_def
        split: sum.splits option.splits bool.splits device_state.splits)
qed

lemma register_phase_other:
  assumes "register_svc cfg origin pen w onoff s = (r, t)" and "ensure_signed cfg origin \<noteq> Inr d"
  shows "phase_svc t d = phase_svc s d"
  using assms
  by (auto simp: register_svc_def try_pure_def phase_svc_def split: sum.splits if_splits)

section \<open>Which calls move funds\<close>

lemma cancel_moves:
  assumes "cancel_svc cfg origin x s = (r, t)" and "h_currency t \<noteq> h_currency s"
  shows "\<exists>od. s_orders s x = Some od \<and> o_paraid od = self_para_id cfg"
proof -
  from cancel_cases [OF assms(1)] assms(2) obtain od dev where x: "s_orders s x = Some od"
    "order_reject_svc cfg (Some od) (h_now s) x dev False s = (r, t)" by auto
  with assms(2) reject_remote_currency [of od cfg] show ?thesis by metis
qed

lemma accept_moves:
  assumes "accept_svc cfg origin rej onoff s = (r, t)" and "h_currency t \<noteq> h_currency s"
  shows "\<exists>x od. rej \<and> ensure_signed cfg origin = Inr x \<and> s_orders s x = Some od \<and>
    o_paraid od = self_para_id cfg"
proof -
  from accept_cases [OF assms(1)] assms(2) obtain x dev where x: "ensure_signed cfg origin = Inr x" "rej"
    "order_reject_svc cfg (s_orders s x) (h_now s) x (dev\<lparr>dev_state := state_of_onoff onoff\<rparr>)
       onoff s = (r, t)" by auto
  then obtain od where od: "s_orders s x = Some od"
    using assms(2) by (cases "s_orders s x") (auto simp: order_reject_svc_def)
  with x(3) assms(2) reject_remote_currency [of od cfg] have "o_paraid od = self_para_id cfg" by metis
  with x(1,2) od show ?thesis by blast
qed

lemma done_moves:
  assumes "done_svc cfg origin onoff s = (r, t)" and "h_currency t \<noteq> h_currency s"
  shows "\<exists>x od. ensure_signed cfg origin = Inr x \<and> s_orders s x = Some od \<and>
    o_paraid od = self_para_id cfg"
proof -
  from done_cases [OF assms(1)] assms(2) obtain x dev od where x: "ensure_signed cfg origin = Inr x"
    "s_orders s x = Some od"
    "order_done_svc cfg od (h_now s) x dev onoff (remove_order_svc x s) = (r, t)" by blast
  with assms(2) done_remote_currency [of od cfg "h_now s" x dev onoff "remove_order_svc x s" r t]
  have "o_paraid od = self_para_id cfg" by auto
  with x show ?thesis by blast
qed

end
