(* ===== verification/ServiceRuleProps.thy ===== *)
theory ServiceRuleProps
  imports ServiceProps ServiceRules
begin

text \<open>
  The properties of the service pallet about admission, failing inputs, abandoned devices and
  orders of other chains, each with a concrete chain on which its hypotheses hold. They rest on
  the lemmas of theory \<open>ServiceRules\<close>.
\<close>

section \<open>Admission\<close>

text \<open>
  Claim C14. An order of the own chain is taken exactly when it is in time, the device is registered,
  ready and without an order, the work cycle (added with wrap-around) fits before the
  deadline, the hook of the runtime takes it, and the deposits can be reserved. For a client
  other than the device the deposits can be reserved when both sides can afford their own, and an
  order that is not taken changes nothing at all. A device that orders from itself must be able
  to reserve the fee both before and after its penalty is reserved; such an order that is not
  taken changes nothing either, except that the penalty of the device may stay in reserve.
\<close>

theorem order_admitted_iff:
  assumes "currency (currency_impl cfg) free reserved alive ed"
    and "o_paraid od = self_para_id cfg"
    and "order_received_svc cfg od d s = (r, t)"
  shows "(o_client od \<noteq> d \<longrightarrow>
      (r = Inr () \<longleftrightarrow> (\<exists>p st. s_devices s d = Some p \<and> on_received cfg d od = Some st \<and>
        h_now s < o_until od \<and> s_orders s d = None \<and> dev_state p = Ready \<and>
        h_now s + dev_wcd p \<le> o_until od \<and>
        can_reserve (currency_impl cfg) (o_client od) (o_fee od) (h_currency s) \<and>
        can_reserve (currency_impl cfg) d (dev_penalty p) (h_currency s))) \<and>
      (r \<noteq> Inr () \<longrightarrow> t = s)) \<and>
    (o_client od = d \<longrightarrow>
      (r = Inr () \<longleftrightarrow> (\<exists>p st c1. s_devices s d = Some p \<and> on_received cfg d od = Some st \<and>
        h_now s < o_until od \<and> s_orders s d = None \<and> dev_state p = Ready \<and>
        h_now s + dev_wcd p \<le> o_until od \<and>
        can_reserve (currency_impl cfg) d (o_fee od) (h_currency s) \<and>
        reserve (currency_impl cfg) d (dev_penalty p) (h_currency s) = (Inr (), c1) \<and>
        can_reserve (currency_impl cfg) d (o_fee od) c1)) \<and>
      (r \<noteq> Inr () \<longrightarrow> t = s \<or> (\<exists>p c1. s_devices s d = Some p \<and> t = s\<lparr>h_currency := c1\<rparr> \<and>
        reserve (currency_impl cfg) d (dev_penalty p) (h_currency s) = (Inr (), c1))))"
proof -
  have esc: "service_escrow cfg free reserved alive ed" using assms(1) by (simp add: service_escrow_def)
  note other = service_escrow.received_local_iff [OF esc assms(2) _ assms(3)]
    and own = service_escrow.received_own_iff [OF esc assms(2) _ assms(3)]
  show ?thesis
    by (intro conjI impI other(2)) (use other(1) own in \<open>auto simp: admissible_svc_def\<close>)
qed

text \<open>Whether an order is taken, and what a refused order of a device from itself leaves.\<close>

theorem order_admitted_iff_witness:
  "fst (order_received_svc sample_service (sample_order 200) 100 (sample_state 4000 Ready None)) = Inr ()
    \<and> order_received_svc sample_service (sample_order 200) 100 (sample_state 4001 Ready None)
      = (fst (order_received_svc sample_service (sample_order 200) 100 (sample_state 4001 Ready None)),
         sample_state 4001 Ready None)
    \<and> fst (order_received_svc sample_service ((sample_order 200)\<lparr>o_client := 100, o_fee := 985000\<rparr>) 100
        (sample_state 4000 Ready None)) \<noteq> Inr ()"
proof -
  let ?own = "(sample_order 200)\<lparr>o_client := 100, o_fee := 985000\<rparr>"
  have paraid: "o_paraid (sample_order 200) = self_para_id sample_service"
    "o_paraid ?own = self_para_id sample_service" and neq: "o_client (sample_order 200) \<noteq> 100"
    and own: "o_client ?own = 100" by (simp_all add: sample_order_def)
  note iff = mp [OF conjunct1 [OF order_admitted_iff [OF sample_currency paraid(1) prod.collapse [symmetric]]] neq]
    and self_iff = mp [OF conjunct2 [OF order_admitted_iff [OF sample_currency paraid(2) prod.collapse [symmetric]]] own]
  have "fst (order_received_svc sample_service (sample_order 200) 100 (sample_state 4000 Ready None))
      = Inr ()"
    using iff [of "sample_state 4000 Ready None"]
    by (simp add: sample_state_defs on_received_unit_def ledger_ops_def ledger_can_reserve_def)
  moreover have "fst (order_received_svc sample_service (sample_order 200) 100
      (sample_state 4001 Ready None)) \<noteq> Inr ()"
    using iff [of "sample_state 4001 Ready None"] by (simp add: sample_state_defs)
  then have "snd (order_received_svc sample_service (sample_order 200) 100
      (sample_state 4001 Ready None)) = sample_state 4001 Ready None"
    using iff [of "sample_state 4001 Ready None"] by blast
  moreover have "fst (order_received_svc sample_service ?own 100 (sample_state 4000 Ready None)) \<noteq> Inr ()"
    using self_iff [of "sample_state 4000 Ready None"]
    by (simp add: sample_state_defs on_received_unit_def ledger_ops_def ledger_can_reserve_def
        ledger_reserve_def)
  ultimately show ?thesis by (simp add: prod_eq_iff)
qed

text \<open>
  As long as the clock plus the work cycle does not exceed the width of a moment, a
  device that takes an order has a whole work cycle left until the deadline, measured in
  integers.
\<close>

theorem admitted_order_leaves_work_cycle:
  assumes "order_received_svc cfg od d s = (Inr (), t)" and "s_devices s d = Some p"
    and "unat (h_now s) + unat (dev_wcd p) < 2 ^ 64"
  shows "unat (h_now s) + unat (dev_wcd p) \<le> unat (o_until od) \<and> s_orders t d = Some od"
proof -
  have "\<exists>p st. admissible_svc cfg od d s p st"
  proof (rule ccontr)
    assume "\<not> ?thesis"
    then obtain e where "order_received_svc cfg od d s = (Inl e, s)"
      using received_not_admissible [of cfg od d s "\<exists>e. order_received_svc cfg od d s = (Inl e, s)"]
      by metis
    with assms(1) show False by simp
  qed
  with assms(2) have "h_now s + dev_wcd p \<le> o_until od" by (auto simp: admissible_svc_def)
  moreover have "unat (h_now s + dev_wcd p) = unat (h_now s) + unat (dev_wcd p)"
    using assms(3) by (simp add: unat_word_ariths)
  ultimately have "unat (h_now s) + unat (dev_wcd p) \<le> unat (o_until od)"
    by (simp add: word_le_nat_alt)
  with order_received_storage [OF assms(1)] show ?thesis by auto
qed

theorem admitted_order_leaves_work_cycle_witness:
  "4000 + 1000 \<le> unat (o_until (sample_order 200))"
proof -
  let ?s = "sample_state 4000 Ready None"
  have "order_received_svc sample_service (sample_order 200) 100 ?s
      = (Inr (), snd (order_received_svc sample_service (sample_order 200) 100 ?s))"
    by (simp add: order_received_svc_def sample_state_defs storage_svc_defs on_received_unit_def
        sample_defs host_call_defs Let_def)
  from admitted_order_leaves_work_cycle [OF this, of "sample_profile Ready"] show ?thesis
    by (simp add: sample_state_defs)
qed

text \<open>
  Claim C26. The sum of the clock and the work cycle wraps, and then the check it feeds means nothing:
  a ready device whose work cycle overflows the clock takes every remote order that is still in time,
  although the cycle ends after the deadline.
\<close>

theorem work_cycle_check_wraps:
  assumes "s_devices s d = Some p" and "dev_state p = Ready" and "s_orders s d = None"
    and "h_now s < o_until od" and "on_received cfg d od = Some st"
    and "o_paraid od \<noteq> self_para_id cfg" and "2 ^ 64 \<le> unat (h_now s) + unat (dev_wcd p)"
  shows "\<exists>t. order_received_svc cfg od d s = (Inr (), t) \<and> s_orders t d = Some od \<and>
    unat (o_until od) < unat (h_now s) + unat (dev_wcd p)"
proof -
  have "admissible_svc cfg od d s p st"
    using assms overflow_leaves_time(1) [OF assms(4,7)] by (simp add: admissible_svc_def)
  from received_admissible_remote [OF this assms(6)] obtain t where
    op: "order_received_svc cfg od d s = (Inr (), t)" by (simp add: Let_def)
  with order_received_storage [OF op] overflow_leaves_time(2) [OF assms(4,7)] show ?thesis by auto
qed

theorem work_cycle_check_wraps_witness:
  "\<exists>t. order_received_svc sample_service (sample_order 7) 100
      ((sample_state 4999 Ready None)\<lparr>s_devices := [100 \<mapsto> (sample_profile Ready)\<lparr>dev_wcd := 18446744073709551615\<rparr>]\<rparr>)
        = (Inr (), t) \<and>
    s_orders t 100 = Some (sample_order 7)"
proof -
  let ?p = "(sample_profile Ready)\<lparr>dev_wcd := 18446744073709551615\<rparr>"
  let ?s = "(sample_state 4999 Ready None)\<lparr>s_devices := [100 \<mapsto> ?p]\<rparr>"
  have "s_devices ?s 100 = Some ?p" "dev_state ?p = Ready" "s_orders ?s 100 = None"
    "h_now ?s < o_until (sample_order 7)" "on_received sample_service 100 (sample_order 7) = Some Busy"
    "o_paraid (sample_order 7) \<noteq> self_para_id sample_service"
    "2 ^ 64 \<le> unat (h_now ?s) + unat (dev_wcd ?p)"
    by (simp_all add: sample_state_defs on_received_unit_def)
  from work_cycle_check_wraps [OF this] show ?thesis by blast
qed
section \<open>Failing inputs\<close>

text \<open>
  Claim C30. A call that fails leaves the devices, the orders and the events of the pallet as they
  were, with one exception: \<^verbatim>\<open>done\<close>.
\<close>

theorem failed_call_keeps_storage:
  assumes "dispatch_svc cfg i s = (Inl e, t)" and "\<forall>origin onoff. i \<noteq> CallDone origin onoff"
  shows "s_devices t = s_devices s \<and> s_orders t = s_orders s \<and> s_events t = s_events s"
proof -
  have "same_storage s t"
  proof (cases i)
    case (CallOrder origin ob)
    with assms(1) show ?thesis
      by (auto simp: order_svc_def try_pure_def dest: received_error_storage split: sum.splits)
  next
    case (CallDone origin onoff)
    with assms(2) show ?thesis by blast
  qed (use assms(1) in \<open>auto dest: cancel_error_storage accept_error_storage register_error
        set_state_error\<close>)
  then show ?thesis by (simp add: same_storage_def)
qed

theorem failed_call_keeps_storage_witness:
  "s_orders (snd (cancel_svc sample_service (Some 200) 100
      (sample_state 3000 Busy (Some (sample_order 200))))) 100 = Some (sample_order 200)"
proof -
  let ?s = "sample_state 3000 Busy (Some (sample_order 200))"
  have "dispatch_svc sample_service (CallCancel (Some 200) 100) ?s
      = (Inl (Pallet Prohibited), snd (cancel_svc sample_service (Some 200) 100 ?s))"
    by (simp add: cancel_svc_def sample_state_defs signed_by_def)
  from failed_call_keeps_storage [OF this] show ?thesis by (simp add: sample_state_def)
qed

text \<open>
  Claim C31. A \<^verbatim>\<open>done\<close> that fails after its guards, because the payment or
  the message to the other chain failed, has already closed the order and freed the device: no
  event reports it, and calling \<^verbatim>\<open>done\<close> again is refused.
\<close>

theorem failed_done_still_closes:
  assumes "done_svc cfg origin onoff s = (Inl e, t)" and "ensure_signed cfg origin = Inr d"
    and "s_devices s d = Some p" and "dev_state p = Busy2" and "s_orders s d = Some od"
  shows "s_orders t = (s_orders s)(d := None) \<and>
    s_devices t = (s_devices s)(d \<mapsto> p\<lparr>dev_state := state_of_onoff onoff\<rparr>) \<and>
    s_events t = s_events s \<and>
    done_svc cfg origin onoff' t = (Inl (Pallet IllegalState), t)"
proof -
  from assms have op: "order_done_svc cfg od (h_now s) d p onoff (remove_order_svc d s) = (Inl e, t)"
    by (simp add: done_svc_def Let_def)
  note storage = order_done_storage [OF op]
  have "s_events t = s_events s"
    using op by (auto simp: order_done_svc_def Let_def and_then_def host_calls_svc storage_svc_defs
        split: if_splits prod.splits sum.splits)
  moreover have "done_svc cfg origin onoff' t = (Inl (Pallet IllegalState), t)"
    using assms(2) storage by (simp add: done_svc_def)
  ultimately show ?thesis using storage by simp
qed

text \<open>The same chain with its outbound channel closed.\<close>

definition closed_service ::
  "(signed_origin, account_id, order_payload, account_id ledger, outbox) service_config" where
  "closed_service = sample_service\<lparr>send_blob_message := closed_send\<rparr>"

lemma closed_service_fields [simp]:
  "ensure_signed closed_service = signed_by"
  "currency_impl closed_service = ledger_ops 500"
  "send_blob_message closed_service = closed_send"
  "message_impl closed_service = runtime_messages"
  "self_para_id closed_service = 200"
  "on_received closed_service = on_received_unit"
  by (simp_all add: closed_service_def)

theorem failed_done_still_closes_witness:
  "s_orders (snd (done_svc closed_service (Some 100) True
      (sample_state 3000 Busy2 (Some (sample_order 7))))) 100 = None"
proof -
  let ?s = "sample_state 3000 Busy2 (Some (sample_order 7))"
  have "done_svc closed_service (Some 100) True ?s = (Inl (Pallet CannotReachDestination),
      snd (done_svc closed_service (Some 100) True ?s))"
    by (simp add: done_svc_def order_done_svc_def sample_state_defs storage_svc_defs
        sample_defs host_call_defs Let_def)
  from failed_done_still_closes [OF this, of 100 "sample_profile Busy2" "sample_order 7"]
  show ?thesis by (simp add: sample_state_defs signed_by_def)
qed

text \<open>
  A device that accepts an order of another chain gets a success and an \<^verbatim>\<open>Accept\<close>
  event even when the message to that chain could not be sent.
\<close>

theorem accept_ignores_failed_send:
  assumes "ensure_signed cfg origin = Inr d" and "s_devices s d = Some p" and "dev_state p = Busy"
    and "s_orders s d = Some od" and "o_paraid od \<noteq> self_para_id cfg" and "h_now s < o_until od"
    and "send_blob_message cfg (o_paraid od)
      (encode_with (message_impl cfg) (OrderAccept (o_client od) d)) Ordered (h_outbox s) = (Inl err, q)"
  shows "accept_svc cfg origin False onoff s = (Inr (), s\<lparr>h_outbox := q,
    s_devices := (s_devices s)(d \<mapsto> p\<lparr>dev_state := Busy2\<rparr>), s_events := s_events s @ [EvAccept d]\<rparr>)"
  using assms
  by (simp add: accept_svc_def order_accept_svc_def send_message_now_def send_blob_now_def
      storage_svc_defs Let_def not_le [symmetric])

theorem accept_ignores_failed_send_witness:
  "\<exists>t. accept_svc closed_service (Some 100) False True (sample_state 3000 Busy (Some (sample_order 7)))
      = (Inr (), t) \<and> s_events t = [EvAccept 100] \<and> h_outbox t = []"
proof -
  let ?s = "sample_state 3000 Busy (Some (sample_order 7))"
  have "accept_svc closed_service (Some 100) False True ?s = (Inr (), ?s\<lparr>h_outbox := [],
    s_devices := (s_devices ?s)(100 \<mapsto> (sample_profile Busy)\<lparr>dev_state := Busy2\<rparr>),
    s_events := s_events ?s @ [EvAccept 100]\<rparr>)"
    by (rule accept_ignores_failed_send [where err = "''NoChannel''" and od = "sample_order 7"])
      (simp_all add: sample_state_defs signed_by_def closed_send_def)
  then show ?thesis by (simp add: sample_state_def)
qed

section \<open>Abandoned devices\<close>

text \<open>
  Claim C35. A device whose order was cancelled while it was busy stays abandoned, and takes no
  further order, until it registers again or rejects the order that is gone: nobody else can free
  it, and nothing else the device does can.
\<close>

theorem abandoned_until_owner_acts:
  assumes "dispatch_svc cfg i s = (r, t)" and "phase_svc s d = Abandoned"
    and "phase_svc t d \<noteq> Abandoned"
  shows "\<exists>origin. ensure_signed cfg origin = Inr d \<and>
    ((\<exists>pen w onoff. i = CallRegister origin pen w onoff) \<or>
     (\<exists>onoff. i = CallAccept origin True onoff))"
proof (cases i)
  case (CallOrder origin ob)
  with assms show ?thesis
    by (auto simp: order_svc_def try_pure_def dest: received_phase_abandoned split: sum.splits)
next
  case (CallCancel origin x)
  with assms cancel_phase_abandoned [of cfg origin x s r t d] show ?thesis by simp
next
  case (CallAccept origin rej onoff)
  with assms accept_phase_abandoned [of cfg origin rej onoff s r t d] show ?thesis by auto
next
  case (CallDone origin onoff)
  with assms done_phase_abandoned [of cfg origin onoff s r t d] show ?thesis by simp
next
  case (CallRegister origin pen w onoff)
  with assms register_phase_other [of cfg origin pen w onoff s r t d] show ?thesis by auto
next
  case (CallSetState origin onoff)
  with assms set_state_phase_abandoned [of cfg origin onoff s r t d] show ?thesis by simp
next
  case (KilledAccount a)
  with assms killed_phase_abandoned [of s d a] show ?thesis by auto
next
  case (XcmMessage p n x)
  with assms show ?thesis
    by (auto simp: handle_xcm_message_svc_def Let_def phase_svc_def split: sum.splits)
next
  case (BlobMessage p n b)
  with assms have "t = handle_blob_message_svc cfg p n b s" by simp
  with assms(2,3) received_phase_abandoned [OF prod.collapse [symmetric] assms(2), where cfg = cfg]
  show ?thesis
    by (auto simp: handle_blob_message_svc_def split: option.splits xcmp_message.splits)
qed

theorem abandoned_until_owner_acts_witness:
  "\<exists>origin. ensure_signed sample_service origin = Inr 100 \<and>
    ((\<exists>pen w onoff. (CallAccept (Some 100) True True :: (signed_origin, account_id, order_payload)
        service_input) = CallRegister origin pen w onoff) \<or>
     (\<exists>onoff. (CallAccept (Some 100) True True :: (signed_origin, account_id, order_payload)
        service_input) = CallAccept origin True onoff))"
proof (rule abandoned_until_owner_acts)
  let ?s = "sample_state 6000 Busy2 None"
  show "dispatch_svc sample_service (CallAccept (Some 100) True True) ?s
    = (fst (accept_svc sample_service (Some 100) True True ?s),
       snd (accept_svc sample_service (Some 100) True True ?s))" by simp
  show "phase_svc ?s 100 = Abandoned" by (simp add: phase_svc_def sample_state_defs)
  show "phase_svc (snd (accept_svc sample_service (Some 100) True True ?s)) 100 \<noteq> Abandoned"
    by (simp add: accept_svc_def order_reject_svc_def phase_svc_def sample_state_defs
        storage_svc_defs signed_by_def Let_def)
qed

section \<open>Orders of other chains\<close>

text \<open>
  Claim C34. The pallet moves funds only for orders placed on its own chain: a balance changes
  only when somebody orders, when an open local order is cancelled, rejected or completed, or
  when the chain delivers a message to itself. A message of another chain moves nothing.
\<close>

theorem funds_move_only_for_local_orders:
  assumes "dispatch_svc cfg i s = (r, t)" and "h_currency t \<noteq> h_currency s"
  shows "(\<exists>origin ob. i = CallOrder origin ob) \<or> (\<exists>n b. i = BlobMessage (self_para_id cfg) n b) \<or>
    (\<exists>d od origin onoff. s_orders s d = Some od \<and> o_paraid od = self_para_id cfg \<and>
      (i = CallCancel origin d \<or>
       ensure_signed cfg origin = Inr d \<and> i = CallAccept origin True onoff \<or>
       ensure_signed cfg origin = Inr d \<and> i = CallDone origin onoff))"
proof (cases i)
  case (CallCancel origin x)
  with assms cancel_moves [of cfg origin x s r t] show ?thesis by auto
next
  case (CallAccept origin rej onoff)
  with assms accept_moves [of cfg origin rej onoff s r t] show ?thesis by auto
next
  case (CallDone origin onoff)
  with assms done_moves [of cfg origin onoff s r t] show ?thesis by auto
next
  case (BlobMessage p n b)
  with assms blob_currency [of p cfg n b s] show ?thesis by auto
qed (use assms other_inputs_keep [OF _ assms(1)] in auto)

theorem funds_move_only_for_local_orders_witness:
  "\<exists>d od. s_orders (sample_state 3000 Busy2 (Some (sample_order 200))) d = Some od \<and>
    o_paraid od = self_para_id sample_service"
proof -
  let ?s = "sample_state 3000 Busy2 (Some (sample_order 200))"
  let ?t = "snd (done_svc sample_service (Some 100) True ?s)"
  have step: "dispatch_svc sample_service (CallDone (Some 100) True) ?s
      = (fst (done_svc sample_service (Some 100) True ?s), ?t)" by simp
  have "h_currency ?t 100 \<noteq> h_currency ?s 100"
    by (simp add: done_svc_def order_done_svc_def sample_state_defs storage_svc_defs
        sample_defs host_call_defs Let_def)
  then have "h_currency ?t \<noteq> h_currency ?s" by metis
  from funds_move_only_for_local_orders [OF step this] show ?thesis by blast
qed

text \<open>
  A device that completes an order of another chain is idle again, the order is closed,
  exactly one \<^verbatim>\<open>OrderDone\<close> naming the client and the device is handed to the channel of that
  chain, and no balance moves here.
\<close>

theorem remote_done_notifies:
  assumes "ensure_signed cfg origin = Inr d" and "s_devices s d = Some p" and "dev_state p = Busy2"
    and "s_orders s d = Some od" and "o_paraid od \<noteq> self_para_id cfg"
    and "send_blob_message cfg (o_paraid od)
      (encode_with (message_impl cfg) (OrderDone (o_client od) d onoff)) Ordered (h_outbox s)
      = (Inr n, q)"
  shows "done_svc cfg origin onoff s = (Inr (), s\<lparr>h_outbox := q,
    s_devices := (s_devices s)(d \<mapsto> p\<lparr>dev_state := state_of_onoff onoff\<rparr>),
    s_orders := (s_orders s)(d := None), s_events := s_events s @ [EvDone d]\<rparr>)"
  using assms
  by (simp add: done_svc_def order_done_svc_def send_message_now_def send_blob_now_def
      storage_svc_defs Let_def onoff_if)

theorem remote_done_notifies_witness:
  "\<exists>t. done_svc sample_service (Some 100) True (sample_state 3000 Busy2 (Some (sample_order 7)))
      = (Inr (), t) \<and>
    h_outbox t = [(7, encode_with runtime_messages (OrderDone 200 100 True))] \<and>
    h_currency t = h_currency (sample_state 3000 Busy2 (Some (sample_order 7)))"
proof -
  let ?s = "sample_state 3000 Busy2 (Some (sample_order 7))"
  have "done_svc sample_service (Some 100) True ?s = (Inr (), ?s\<lparr>
    h_outbox := [(7, encode_with runtime_messages (OrderDone 200 100 True))],
    s_devices := (s_devices ?s)(100 \<mapsto> (sample_profile Busy2)\<lparr>dev_state := state_of_onoff True\<rparr>),
    s_orders := (s_orders ?s)(100 := None), s_events := s_events ?s @ [EvDone 100]\<rparr>)"
    by (rule remote_done_notifies [where n = 0 and od = "sample_order 7"])
      (simp_all add: sample_state_defs signed_by_def queue_send_def)
  then show ?thesis by (simp add: sample_state_def)
qed

section \<open>A device that orders from itself\<close>

text \<open>
  The only check before the deposits are taken is that the client can reserve the fee.
  When the client is the device itself, the penalty is reserved first and the fee may then be out
  of reach: the order is refused, and the penalty stays in reserve although no order is open.
\<close>

theorem self_order_strands_penalty:
  "\<exists>t. order_svc sample_service (Some 100)
        (sample_request\<lparr>ob_fee := 985000\<rparr>) (sample_state 3000 Ready None)
      = (Inl (Foreign ''InsufficientBalance''), t) \<and>
    ledger_reserved (h_currency t) 100
      = ledger_reserved (h_currency (sample_state 3000 Ready None)) 100 + 10000 \<and>
    s_orders t = s_orders (sample_state 3000 Ready None) \<and> owed (book_svc sample_service t) 100 = 0"
proof -
  let ?s = "sample_state 3000 Ready None"
  let ?r = "order_svc sample_service (Some 100) (sample_request\<lparr>ob_fee := 985000\<rparr>) ?s"
  have fst: "fst ?r = Inl (Foreign ''InsufficientBalance'')"
    and cur: "ledger_reserved (h_currency (snd ?r)) 100 = 20000"
    and orders: "s_orders (snd ?r) = Map.empty" "s_orders ?s = Map.empty"
    by (simp_all add: order_svc_def order_received_svc_def sample_request_def sample_state_defs
        storage_svc_defs sample_defs host_call_defs on_received_unit_def Let_def)
  have "book_svc sample_service (snd ?r) = Map.empty" by (rule ext) (simp add: book_svc_def orders)
  with fst cur orders show ?thesis
    by (intro exI [of _ "snd ?r"]) (simp add: prod_eq_iff sample_funds)
qed

end
