(* ===== verification/Runtime.thy ===== *)
theory Runtime
  imports ServiceRules ClientSettle
begin

text \<open>
  The crate \<^verbatim>\<open>parachain-runtime\<close> (\<^verbatim>\<open>runtime/src/lib.rs\<close>): the constants of the chain, the two builds
  the features select, the hook the service build passes to the pallet, and the configurations of
  the two pallets with the libraries that the runtime plugs in as parameters.
\<close>

section \<open>Constants\<close>

type_synonym block_number = "32 word"

definition millisecs_per_block :: moment where "millisecs_per_block = 12000"

definition slot_duration :: moment where "slot_duration = millisecs_per_block"

text \<open>\<^verbatim>\<open>MILLISECS_PER_BLOCK as BlockNumber\<close> truncates a \<^verbatim>\<open>u64\<close> to a \<^verbatim>\<open>u32\<close>.\<close>

definition minutes :: block_number where "minutes = 60000 div ucast millisecs_per_block"

definition hours :: block_number where "hours = minutes * 60"

definition days :: block_number where "days = hours * 24"

definition primary_probability :: "nat \<times> nat" where "primary_probability = (1, 4)"

definition minimum_period :: moment where "minimum_period = slot_duration div 2"

definition existential_deposit :: balance where "existential_deposit = 500"

definition max_locks :: "32 word" where "max_locks = 50"

definition transaction_byte_fee :: balance where "transaction_byte_fee = 1"

definition block_hash_count :: block_number where "block_hash_count = 250"

definition ss58_prefix :: byte where "ss58_prefix = 42"

record runtime_version =
  spec_name :: string
  impl_name :: string
  authoring_version :: nat
  spec_version :: nat
  impl_version :: nat
  transaction_version :: nat

definition VERSION :: runtime_version where
  "VERSION =
    \<lparr>spec_name = ''robonomics-order'', impl_name = ''robonomics-order'', authoring_version = 1,
     spec_version = 202, impl_version = 1, transaction_version = 1\<rparr>"

section \<open>Weights\<close>

text \<open>
  A \<^verbatim>\<open>Perbill\<close> is its parts in a thousand million; multiplying a weight by it rounds to the
  nearest, a half down. The weight of a second of computation comes from the library.
\<close>

definition perbill_from_percent :: "nat \<Rightarrow> nat" where
  "perbill_from_percent p = p * 10000000"

definition perbill_mul :: "nat \<Rightarrow> nat \<Rightarrow> nat" where
  "perbill_mul parts w = parts * w div 1000000000
    + (if 500000000 < parts * w mod 1000000000 then 1 else 0)"

definition average_on_initialize_ratio :: nat where
  "average_on_initialize_ratio = perbill_from_percent 10"

definition normal_dispatch_ratio :: nat where
  "normal_dispatch_ratio = perbill_from_percent 75"

definition maximum_block_weight :: "nat \<Rightarrow> nat" where
  "maximum_block_weight weight_per_second = 2 * weight_per_second"

datatype dispatch_class = Normal | Operational | Mandatory

record class_weights =
  base_extrinsic :: nat
  max_total :: "nat option"
  reserved_weight :: "nat option"

record block_weights =
  base_block :: nat
  weights_of_class :: "dispatch_class \<Rightarrow> class_weights"
  block_initialization_ratio :: nat

text \<open>
  \<^verbatim>\<open>RuntimeBlockWeights\<close>: \<open>builder\<close> holds the values the builder of the library starts from, and
  \<open>validate\<close> is the check of \<^verbatim>\<open>build_or_panic\<close>. Every class gets the base weight, then two of them
  their limits.
\<close>

definition for_all_classes :: "nat \<Rightarrow> block_weights \<Rightarrow> block_weights" where
  "for_all_classes extrinsic_base b =
    b\<lparr>weights_of_class := (\<lambda>c. (weights_of_class b c)\<lparr>base_extrinsic := extrinsic_base\<rparr>)\<rparr>"

definition normal_limits :: "nat \<Rightarrow> class_weights \<Rightarrow> class_weights" where
  "normal_limits wps w =
    w\<lparr>max_total := Some (perbill_mul normal_dispatch_ratio (maximum_block_weight wps))\<rparr>"

definition operational_limits :: "nat \<Rightarrow> class_weights \<Rightarrow> class_weights" where
  "operational_limits wps w =
    w\<lparr>max_total := Some (maximum_block_weight wps),
      reserved_weight := Some (maximum_block_weight wps
        - perbill_mul normal_dispatch_ratio (maximum_block_weight wps))\<rparr>"

definition for_class ::
  "dispatch_class \<Rightarrow> (class_weights \<Rightarrow> class_weights) \<Rightarrow> block_weights \<Rightarrow> block_weights" where
  "for_class c f b = b\<lparr>weights_of_class := (weights_of_class b)(c := f (weights_of_class b c))\<rparr>"

definition RuntimeBlockWeights ::
  "block_weights \<Rightarrow> (block_weights \<Rightarrow> string option) \<Rightarrow> nat \<Rightarrow> nat \<Rightarrow> nat \<Rightarrow> string + block_weights"
  where
  "RuntimeBlockWeights builder validate wps block_base extrinsic_base =
    (let b = builder\<lparr>base_block := block_base\<rparr>;
         b = for_all_classes extrinsic_base b;
         b = for_class Normal (normal_limits wps) b;
         b = for_class Operational (operational_limits wps) b;
         b = b\<lparr>block_initialization_ratio := average_on_initialize_ratio\<rparr>
     in case validate b of None \<Rightarrow> Inr b | Some e \<Rightarrow> Inl e)"

definition runtime_block_length :: nat where
  "runtime_block_length = 5 * 1024 * 1024"

text \<open>
  The block times come out even: a day of blocks lasts a day, and a block is at least half a slot
  after the one before. The limits of the two classes share the block: what normal extrinsics may
  not use is reserved for operational ones.
\<close>

lemma block_times:
  "unat minutes * unat millisecs_per_block = 60 * 1000"
  "unat days * unat millisecs_per_block = 24 * 60 * 60 * 1000"
  "2 * minimum_period = slot_duration"
  by (simp_all add: minutes_def hours_def days_def millisecs_per_block_def minimum_period_def
      slot_duration_def)

lemma perbill_mul_le:
  assumes "parts \<le> 1000000000"
  shows "perbill_mul parts w \<le> w"
proof -
  define q r where "q = parts * w div 1000000000" and "r = parts * w mod 1000000000"
  from assms have "parts * w \<le> 1000000000 * w" by (rule mult_le_mono1)
  moreover have "parts * w = q * 1000000000 + r" by (simp add: q_def r_def)
  ultimately have "q * 1000000000 + r \<le> 1000000000 * w" by simp
  then have "q + (if 500000000 < r then 1 else 0) \<le> w" by (simp split: if_splits)
  then show ?thesis by (simp add: perbill_mul_def q_def r_def)
qed

lemma block_limits:
  assumes "RuntimeBlockWeights builder validate wps block_base extrinsic_base = Inr b"
  obtains normal reserve where "max_total (weights_of_class b Normal) = Some normal"
    and "max_total (weights_of_class b Operational) = Some (maximum_block_weight wps)"
    and "reserved_weight (weights_of_class b Operational) = Some reserve"
    and "normal + reserve = maximum_block_weight wps"
    and "weights_of_class b Mandatory = (weights_of_class builder Mandatory)
      \<lparr>base_extrinsic := extrinsic_base\<rparr>"
proof -
  have "perbill_mul normal_dispatch_ratio (maximum_block_weight wps) \<le> maximum_block_weight wps"
    by (rule perbill_mul_le) (simp add: normal_dispatch_ratio_def perbill_from_percent_def)
  with assms show ?thesis
    by (intro that) (auto simp: RuntimeBlockWeights_def Let_def for_all_classes_def for_class_def
        normal_limits_def operational_limits_def split: option.splits)
qed

section \<open>Builds\<close>

text \<open>The features are exclusive and one of them is required.\<close>

datatype build = ServiceBuild | ClientBuild

definition select_build :: "bool \<Rightarrow> bool \<Rightarrow> string + build" where
  "select_build service client =
    (if service \<and> client then
       Inl ''service and client features mutually exclusive and cannot be enabled together''
     else if \<not> (service \<or> client) then
       Inl ''one of the features service or client must be provided''
     else Inr (if service then ServiceBuild else ClientBuild))"

datatype pallet_name =
    System | Timestamp | Balances | Sudo | RandomnessCollectiveFlip | ParachainSystem
  | TransactionPayment | ParachainInfo | XcmHandler | ServiceModule | ClientModule

definition construct_runtime :: "build \<Rightarrow> pallet_name list" where
  "construct_runtime b =
    [System, Timestamp, Balances, Sudo, RandomnessCollectiveFlip, ParachainSystem,
     TransactionPayment, ParachainInfo, XcmHandler,
     (case b of ServiceBuild \<Rightarrow> ServiceModule | ClientBuild \<Rightarrow> ClientModule)]"

definition xcmp_message_handlers :: "build \<Rightarrow> pallet_name" where
  "xcmp_message_handlers b = (case b of ClientBuild \<Rightarrow> ClientModule | ServiceBuild \<Rightarrow> ServiceModule)"

lemma build_has_one_pallet:
  "(\<exists>b. select_build svc cli = Inr b) \<longleftrightarrow> svc \<noteq> cli"
  "select_build svc cli = Inr b \<Longrightarrow>
    (ServiceModule \<in> set (construct_runtime b) \<longleftrightarrow> svc) \<and>
    (ClientModule \<in> set (construct_runtime b) \<longleftrightarrow> cli) \<and>
    xcmp_message_handlers b = last (construct_runtime b)"
  by (cases svc; cases cli; auto simp: select_build_def construct_runtime_def
      xcmp_message_handlers_def)+

section \<open>The pallets as the runtime configures them\<close>

definition accept_on_receive :: "'a \<Rightarrow> ('a, 'p) order \<Rightarrow> device_state option" where
  "accept_on_receive device od = Some Busy2"

definition runtime_service :: "('o, 'a, 'p, 'c, 'q) env \<Rightarrow> para_id \<Rightarrow>
    ('o, 'a, 'p, 'c, 'q) service_config" where
  "runtime_service libs paraid = env.extend libs
    \<lparr>self_para_id = paraid, on_received = accept_on_receive\<rparr>"

text \<open>The client build configures its pallet with the libraries alone.\<close>

definition runtime_client :: "('o, 'a, 'p, 'c, 'q) env \<Rightarrow> ('o, 'a, 'p, 'c, 'q) env" where
  "runtime_client libs = libs"

lemma runtime_service_fields [simp]:
  "ensure_signed (runtime_service libs para) = ensure_signed libs"
  "currency_impl (runtime_service libs para) = currency_impl libs"
  "send_blob_message (runtime_service libs para) = send_blob_message libs"
  "message_impl (runtime_service libs para) = message_impl libs"
  "self_para_id (runtime_service libs para) = para"
  "on_received (runtime_service libs para) = accept_on_receive"
  by (simp_all add: runtime_service_def env.defs)

lemma accept_on_receive_ok: "receiver_ok (runtime_service libs para)"
  by (simp add: receiver_ok_def accept_on_receive_def)

text \<open>
  Under this hook a device never waits for its owner to accept: the state \<open>Busy\<close> does not occur.
\<close>

definition never_busy :: "('a, 'p, 'c, 'q) service_state \<Rightarrow> bool" where
  "never_busy s \<longleftrightarrow> (\<forall>d p. s_devices s d = Some p \<longrightarrow> dev_state p \<noteq> Busy)"

lemma never_busy_upd:
  "never_busy s \<Longrightarrow> s_devices t = (s_devices s)(d \<mapsto> p) \<Longrightarrow> dev_state p \<noteq> Busy \<Longrightarrow> never_busy t"
  by (auto simp: never_busy_def)

lemma never_busy_same: "never_busy s \<Longrightarrow> s_devices t = s_devices s \<Longrightarrow> never_busy t"
  by (simp add: never_busy_def)

lemma never_busy_received:
  assumes "never_busy s"
    and "order_received_svc (runtime_service libs para) od d s = (r, t)"
  shows "never_busy t"
  using order_received_storage [OF assms(2)] assms(1)
  by (auto simp: accept_on_receive_def intro: never_busy_same never_busy_upd)

lemma never_busy_cancel:
  assumes "never_busy s" and "cancel_svc cfg origin d s = (r, t)"
  shows "never_busy t"
  using cancel_cases [OF assms(2)]
proof (elim disjE exE conjE)
  fix od dev
  assume dev: "s_devices s d = Some dev"
    and rej: "order_reject_svc cfg (Some od) (h_now s) d dev False s = (r, t)"
  from assms(1) dev have "dev_state dev \<noteq> Busy" by (auto simp: never_busy_def)
  with order_reject_storage [OF rej] assms(1) show ?thesis
    by (auto intro: never_busy_same never_busy_upd)
qed (use assms(1) in simp)

lemma never_busy_accept:
  assumes "never_busy s" and "accept_svc cfg origin rej onoff s = (r, t)"
  shows "never_busy t"
proof -
  consider (same) "t = s"
    | (reject) x dev where "order_reject_svc cfg (s_orders s x) (h_now s) x
        (dev\<lparr>dev_state := state_of_onoff onoff\<rparr>) onoff s = (r, t)"
    | (accept) x dev od where "t = order_accept_svc cfg od (h_now s) x dev s"
    using accept_cases [OF assms(2)] by blast
  then show ?thesis
  proof cases
    case reject
    with order_reject_storage [OF reject] assms(1) show ?thesis
      by (auto intro: never_busy_same never_busy_upd)
  qed (use assms(1) in \<open>auto intro: never_busy_upd\<close>)
qed

lemma never_busy_done:
  assumes "never_busy s" and "done_svc cfg origin onoff s = (r, t)"
  shows "never_busy t"
  using done_cases [OF assms(2)]
proof (elim disjE exE conjE)
  fix x dev od
  assume "order_done_svc cfg od (h_now s) x dev onoff (remove_order_svc x s) = (r, t)"
  from order_done_storage(1) [OF this] assms(1) show ?thesis by (auto intro: never_busy_upd)
qed (use assms(1) in simp)

lemma never_busy_other:
  assumes "never_busy s"
  shows "register_svc cfg origin pen w onoff s = (r, t) \<Longrightarrow> never_busy t"
    and "set_state_svc cfg origin onoff s = (r, t) \<Longrightarrow> never_busy t"
    and "never_busy (on_killed_account_svc a s)"
    and "never_busy (handle_xcm_message_svc cfg para n x s)"
  using assms
  by (auto simp: register_svc_def set_state_svc_def try_pure_def on_killed_account_svc_def
      handle_xcm_message_svc_def Let_def never_busy_def
      split: sum.splits if_splits option.splits bool.splits device_state.splits)

lemma never_busy_blob:
  assumes "never_busy s"
  shows "never_busy (handle_blob_message_svc (runtime_service libs para) p n b s)"
  using assms never_busy_received [OF assms prod.collapse [symmetric]]
  by (auto simp: handle_blob_message_svc_def split: option.splits xcmp_message.splits)

lemma never_busy_dispatch:
  assumes "never_busy s" and "dispatch_svc (runtime_service libs para) i s = (r, t)"
  shows "never_busy t"
proof (cases i)
  case (CallOrder origin ob)
  with assms show ?thesis
    by (auto simp: order_svc_def try_pure_def intro: never_busy_received split: sum.splits)
qed (use assms in \<open>auto intro: never_busy_cancel never_busy_accept never_busy_done
      never_busy_other never_busy_blob\<close>)

lemma never_busy_init: "service_init s \<Longrightarrow> never_busy s"
  by (simp add: service_init_def never_busy_def)

lemma never_busy_step:
  assumes "never_busy s" and "service_step (runtime_service libs para) s t"
  shows "never_busy t"
  using assms(2)
proof cases
  case (input i r)
  with assms(1) show ?thesis by (auto intro: never_busy_dispatch)
next
  case (environment n c q)
  with assms(1) show ?thesis by (simp add: never_busy_def)
qed

interpretation runtime_run: invariant_system service_init "service_step (runtime_service libs para)"
    never_busy for libs para
  by unfold_locales (auto intro: never_busy_init never_busy_step)

end
