(* ===== verification/Network.thy ===== *)
theory Network
  imports ClientRuleProps ServiceRuleProps Runtime
begin

text \<open>
  The two parachains linked by their message channels. Each chain hands messages to an ordered
  outbound queue; the relay chain delivers the oldest message, unchanged and with the id of the
  sending chain, to the handler of the chain it is addressed to. An order is followed through
  both pallets, from the call on the client chain to the settlement of the deposits.
\<close>

section \<open>Two chains and their channels\<close>

record ('a, 'p, 'c, 'd) network =
  client_chain :: "('a, 'p, 'c, outbox) client_state"
  service_chain :: "('a, 'p, 'd, outbox) service_state"

definition on_client ::
  "('a, 'p, 'c, 'd) network \<Rightarrow> ('e, 'b, ('a, 'p, 'c, outbox) client_state) outcome \<Rightarrow>
   ('a, 'p, 'c, 'd) network" where
  "on_client w r = w\<lparr>client_chain := snd r\<rparr>"

definition on_service ::
  "('a, 'p, 'c, 'd) network \<Rightarrow> ('e, 'b, ('a, 'p, 'd, outbox) service_state) outcome \<Rightarrow>
   ('a, 'p, 'c, 'd) network" where
  "on_service w r = w\<lparr>service_chain := snd r\<rparr>"

definition deliver_to_service ::
  "('o, 'a, 'p, 'd, outbox) service_config \<Rightarrow> para_id \<Rightarrow> ('a, 'p, 'c, 'd) network \<Rightarrow>
   ('a, 'p, 'c, 'd) network" where
  "deliver_to_service cfg sender w =
    (case h_outbox (client_chain w) of
      [] \<Rightarrow> w
    | (para, blob) # q \<Rightarrow>
        w\<lparr>client_chain := (client_chain w)\<lparr>h_outbox := q\<rparr>,
          service_chain := (if para = self_para_id cfg
            then handle_blob_message_svc cfg sender 0 blob (service_chain w) else service_chain w)\<rparr>)"

definition deliver_to_client ::
  "('o, 'a, 'p, 'c, outbox) env \<Rightarrow> para_id \<Rightarrow> para_id \<Rightarrow> ('a, 'p, 'c, 'd) network \<Rightarrow>
   ('a, 'p, 'c, 'd) network" where
  "deliver_to_client cfg own sender w =
    (case h_outbox (service_chain w) of
      [] \<Rightarrow> w
    | (para, blob) # q \<Rightarrow>
        w\<lparr>service_chain := (service_chain w)\<lparr>h_outbox := q\<rparr>,
          client_chain := (if para = own
            then handle_blob_message_cli cfg sender 0 blob (client_chain w) else client_chain w)\<rparr>)"

definition client_clock :: "moment \<Rightarrow> ('a, 'p, 'c, 'd) network \<Rightarrow> ('a, 'p, 'c, 'd) network" where
  "client_clock n w = w\<lparr>client_chain := (client_chain w)\<lparr>h_now := n\<rparr>\<rparr>"

definition service_clock :: "moment \<Rightarrow> ('a, 'p, 'c, 'd) network \<Rightarrow> ('a, 'p, 'c, 'd) network" where
  "service_clock n w = w\<lparr>service_chain := (service_chain w)\<lparr>h_now := n\<rparr>\<rparr>"

lemmas network_defs =
  on_client_def on_service_def deliver_to_service_def deliver_to_client_def client_clock_def
  service_clock_def

text \<open>The libraries of both chains speak the same message format and use ordered queues.\<close>

definition linked ::
  "('a, 'p) prims \<Rightarrow> ('o, 'a, 'p, 'c, outbox) env \<Rightarrow> ('o2, 'a, 'p, 'd, outbox) service_config \<Rightarrow> bool"
  where
  "linked P cli svc \<longleftrightarrow>
    message_impl cli = message_codec P \<and> message_impl svc = message_codec P \<and>
    send_blob_message cli = queue_send \<and> send_blob_message svc = queue_send"

section \<open>One message at a time\<close>

lemma send_queue:
  assumes "send_blob_message cfg = queue_send"
  shows "send_message_now cfg para m err s =
    (Inr (), s\<lparr>h_outbox := h_outbox s @ [(para, encode_with (message_impl cfg) m)]\<rparr>)"
  using assms by (simp add: send_message_now_def send_blob_now_def queue_send_def)

text \<open>What the service chain does with an order it can take, under the hook of the runtime.\<close>

lemma runtime_takes_order:
  fixes who
  assumes "prim_codecs P" and "message_impl cfg = message_codec P"
    and "send_blob_message cfg = queue_send" and "on_received cfg = accept_on_receive"
    and "sender \<noteq> self_para_id cfg" and "h_now s < ob_until ob"
    and "s_orders s (ob_device ob) = None" and "s_devices s (ob_device ob) = Some q"
    and "dev_state q = Ready" and "h_now s + dev_wcd q \<le> ob_until ob"
  defines "od \<equiv> \<lparr>o_until = ob_until ob, o_data = ob_data ob, o_fee = ob_fee ob,
    o_client = who, o_paraid = sender\<rparr>"
  shows "handle_blob_message_svc cfg sender n (encode_with (message_codec P) (NewOrder who ob)) s =
    s\<lparr>h_outbox := h_outbox s @ [(sender, encode_with (message_codec P) (OrderAccept who (ob_device ob)))],
      s_devices := (s_devices s)(ob_device ob \<mapsto> q\<lparr>dev_state := Busy2\<rparr>),
      s_orders := (s_orders s)(ob_device ob \<mapsto> od),
      s_events := s_events s @ [EvNewOrder (ob_device ob), EvAccept (ob_device ob)]\<rparr>"
proof -
  have dec: "decode_with (message_codec P) (encode_with (message_codec P) m) = Some m" for m
    using prim_codecs.decode_encode_message [OF assms(1), of m "[]"] by simp
  have "admissible_svc cfg od (ob_device ob) s q Busy2"
    using assms(4,6-10) by (simp add: admissible_svc_def od_def accept_on_receive_def)
  from received_admissible_remote [OF this] assms(5)
  have "order_received_svc cfg od (ob_device ob) s = (Inr (),
      order_accept_svc cfg od (h_now s) (ob_device ob) (q\<lparr>dev_state := Busy2\<rparr>)
        (deposit_event_svc (EvNewOrder (ob_device ob)) (put_order_svc (ob_device ob) od s)))"
    by (simp add: od_def Let_def)
  then show ?thesis
    using assms(2,3,5)
    by (simp add: handle_blob_message_svc_def dec od_def order_accept_svc_def send_queue
        storage_svc_defs Let_def)
qed

section \<open>A round trip\<close>

text \<open>
  The order call on the client chain, its delivery, the delivery of the acceptance, the \<^verbatim>\<open>done\<close>
  call of the device on the service chain, and the delivery of the report when the clock of the
  client chain shows \<open>n\<close>.
\<close>

definition round_trip ::
  "('o, 'a, 'p, 'c, outbox) env \<Rightarrow> ('o2, 'a, 'p, 'd, outbox) service_config \<Rightarrow> para_id \<Rightarrow>
   'o \<Rightarrow> ('a, 'p) order_base \<Rightarrow> 'o2 \<Rightarrow> bool \<Rightarrow> moment \<Rightarrow> ('a, 'p, 'c, 'd) network \<Rightarrow>
   ('a, 'p, 'c, 'd) network" where
  "round_trip cli svc own corigin ob dorigin onoff n w =
    (let w = on_client w (order_cli cli corigin ob (client_chain w));
         w = deliver_to_service svc own w;
         w = deliver_to_client cli own (self_para_id svc) w;
         w = on_service w (done_svc svc dorigin onoff (service_chain w));
         w = client_clock n w
     in deliver_to_client cli own (self_para_id svc) w)"

text \<open>The service chain's part of the round trip.\<close>

lemma service_part:
  fixes who
  assumes "prim_codecs P" and "linked P cli svc" and "on_received svc = accept_on_receive"
    and "own \<noteq> self_para_id svc" and "ensure_signed svc dorigin = Inr (ob_device ob)"
    and "h_now s < ob_until ob"
    and "s_orders s (ob_device ob) = None" and "s_devices s (ob_device ob) = Some q"
    and "dev_state q = Ready" and "h_now s + dev_wcd q \<le> ob_until ob" and "h_outbox s = []"
  defines "s1 \<equiv> handle_blob_message_svc svc own 0 (encode_with (message_codec P) (NewOrder who ob)) s"
  shows "h_outbox s1 = [(own, encode_with (message_codec P) (OrderAccept who (ob_device ob)))]"
    and "\<exists>t. done_svc svc dorigin onoff (s1\<lparr>h_outbox := []\<rparr>) = (Inr (), t) \<and>
      h_outbox t = [(own, encode_with (message_codec P) (OrderDone who (ob_device ob) onoff))] \<and>
      s_orders t = s_orders s \<and> h_currency t = h_currency s \<and>
      s_devices t = (s_devices s)(ob_device ob \<mapsto> q\<lparr>dev_state := state_of_onoff onoff\<rparr>)"
proof -
  have link: "message_impl svc = message_codec P" "send_blob_message svc = queue_send"
    using assms(2) by (simp_all add: linked_def)
  have s1: "s1 =
    s\<lparr>h_outbox := [(own, encode_with (message_codec P) (OrderAccept who (ob_device ob)))],
      s_devices := (s_devices s)(ob_device ob \<mapsto> q\<lparr>dev_state := Busy2\<rparr>),
      s_orders := (s_orders s)(ob_device ob \<mapsto> \<lparr>o_until = ob_until ob, o_data = ob_data ob,
        o_fee = ob_fee ob, o_client = who, o_paraid = own\<rparr>),
      s_events := s_events s @ [EvNewOrder (ob_device ob), EvAccept (ob_device ob)]\<rparr>"
    unfolding s1_def
    using runtime_takes_order [OF assms(1) link assms(3,4,6,7,8,9,10), of 0 who] assms(11) by simp
  then show "h_outbox s1 = [(own, encode_with (message_codec P) (OrderAccept who (ob_device ob)))]"
    by simp
  have none: "(s_orders s)(ob_device ob := None) = s_orders s" using assms(7) by auto
  show "\<exists>t. done_svc svc dorigin onoff (s1\<lparr>h_outbox := []\<rparr>) = (Inr (), t) \<and>
      h_outbox t = [(own, encode_with (message_codec P) (OrderDone who (ob_device ob) onoff))] \<and>
      s_orders t = s_orders s \<and> h_currency t = h_currency s \<and>
      s_devices t = (s_devices s)(ob_device ob \<mapsto> q\<lparr>dev_state := state_of_onoff onoff\<rparr>)"
    using assms(4,5) link none
    by (simp add: s1 done_svc_def order_done_svc_def send_queue storage_svc_defs onoff_if Let_def)
qed

lemma on_done_host:
  "on_done_cli cfg who x onoff s = (r, t) \<Longrightarrow> h_outbox t = h_outbox s"
  by (auto simp: on_done_cli_def Let_def and_then_def try_pure_def host_calls_cli storage_cli_defs
      split: option.splits if_splits prod.splits sum.splits)

text \<open>The client chain's part: the call, and the two reports.\<close>

lemma client_part:
  fixes who
  assumes esc: "client_escrow cli free reserved alive ed" and P: "prim_codecs P"
    and link: "message_impl cli = message_codec P" "send_blob_message cli = queue_send"
    and cov: "desk_covered reserved alive s" and adm: "admissible_cli ob s p"
    and who: "ensure_signed cli corigin = Inr who" and neq: "who \<noteq> ob_device ob"
    and can: "can_reserve (currency_impl cli) who (ob_fee ob) (h_currency s)"
      "can_reserve (currency_impl cli) (ob_device ob) (dvc_penalty p) (h_currency s)"
    and live: "alive (h_currency s) who" "alive (h_currency s) (ob_device ob)"
    and rich: "ed \<le> free (h_currency s) who + reserved (h_currency s) who - unat (ob_fee ob)"
      "ed \<le> free (h_currency s) (ob_device ob) + reserved (h_currency s) (ob_device ob)
        - unat (dvc_penalty p)"
    and box: "h_outbox s = []"
  obtains s1 where "order_cli cli corigin ob s = (Inr (), s1)"
    and "h_outbox s1 = [(dvc_paraid p, encode_with (message_codec P) (NewOrder who ob))]"
    and "let s2 = handle_blob_message_cli cli sender m
            (encode_with (message_codec P) (OrderAccept who (ob_device ob))) (s1\<lparr>h_outbox := []\<rparr>);
          s3 = handle_blob_message_cli cli sender m'
            (encode_with (message_codec P) (OrderDone who (ob_device ob) onoff)) (s2\<lparr>h_now := n\<rparr>)
      in h_outbox s3 = [] \<and> c_orders s3 = c_orders s \<and>
        c_devices s3 = (c_devices s)(ob_device ob \<mapsto> p\<lparr>dvc_state := state_of_onoff onoff\<rparr>) \<and>
        reserved (h_currency s3) = reserved (h_currency s) \<and>
        free (h_currency s3) = (if n < ob_until ob
          then (free (h_currency s))
            (who := free (h_currency s) who - unat (ob_fee ob),
             ob_device ob := free (h_currency s) (ob_device ob) + unat (ob_fee ob))
          else (free (h_currency s))
            (who := free (h_currency s) who - unat (ob_fee ob) + unat (dvc_penalty p),
             ob_device ob := free (h_currency s) (ob_device ob) - unat (dvc_penalty p)
               + unat (ob_fee ob)))"
proof -
  let ?d = "ob_device ob" and ?od = "order_base_convert ob who" and ?p = "p\<lparr>dvc_state := Busy\<rparr>"
  have dec: "decode_with (message_codec P) (encode_with (message_codec P) m) = Some m" for m
    using prim_codecs.decode_encode_message [OF P, of m "[]"] by simp
  obtain c where c: "free c = (free (h_currency s))
        (?d := free (h_currency s) ?d - unat (dvc_penalty p),
         who := free (h_currency s) who - unat (ob_fee ob))"
      "reserved c = (reserved (h_currency s))
        (?d := reserved (h_currency s) ?d + unat (dvc_penalty p),
         who := reserved (h_currency s) who + unat (ob_fee ob))"
    and op: "order_cli cli corigin ob s =
      and_then (send_message_now cli (dvc_paraid p) (NewOrder who ob) CliCannotReachDestination
          (put_order_cli ?d ?od (s\<lparr>h_currency := c\<rparr>)))
        (\<lambda>_ s. (Inr (), deposit_event_cli (CeNewOrder who ?d) (put_device_cli ?d ?p s)))"
    and afford: "alive c = alive (h_currency s) \<and> unat (dvc_penalty p) \<le> free (h_currency s) ?d \<and>
      unat (ob_fee ob) \<le> free (h_currency s) who"
    by (rule client_escrow.order_placed [OF esc adm who neq can])
  define s1 where "s1 = s\<lparr>h_currency := c,
    h_outbox := [(dvc_paraid p, encode_with (message_codec P) (NewOrder who ob))],
    c_devices := (c_devices s)(?d \<mapsto> ?p), c_orders := (c_orders s)(?d \<mapsto> ?od),
    c_events := c_events s @ [CeNewOrder who ?d]\<rparr>"
  have call: "order_cli cli corigin ob s = (Inr (), s1)"
    unfolding op s1_def by (simp add: send_queue [OF link(2)] link(1) box storage_cli_defs)
  define s2 where "s2 = s1\<lparr>h_outbox := [], h_now := n, c_events := c_events s1 @ [CeAccept who ?d]\<rparr>"
  have accept: "(handle_blob_message_cli cli sender m
      (encode_with (message_codec P) (OrderAccept who ?d)) (s1\<lparr>h_outbox := []\<rparr>))\<lparr>h_now := n\<rparr> = s2"
    by (simp add: handle_blob_message_cli_def on_accept_cli_def link(1) dec s2_def deposit_event_cli_def)
  from client_escrow.order_cli_covered [OF esc cov call]
  have "desk_covered reserved alive s2"
    using book_cli_cong [of s2 s1] by (simp add: desk_covered_def s2_def)
  moreover have od: "c_orders s2 ?d = Some ?od" and dev: "c_devices s2 ?d = Some ?p"
    and cur: "h_currency s2 = c" and now: "h_now s2 = n" by (simp_all add: s2_def s1_def)
  moreover have "can_settle free reserved alive ed (h_currency s2) ?d
      \<lparr>dep_client = o_client ?od, dep_fee = o_fee ?od, dep_penalty = dvc_penalty ?p\<rparr>"
    using live rich neq afford by (auto simp: can_settle_def cur c)
  ultimately obtain s3 where s3: "on_done_cli cli who ?d onoff s2 = (Inr (), s3)"
    "c_orders s3 = (c_orders s2)(?d := None)"
    "c_devices s3 = (c_devices s2)(?d \<mapsto> ?p\<lparr>dvc_state := state_of_onoff onoff\<rparr>)"
    "(free (h_currency s3), reserved (h_currency s3)) =
      settle (settlement_of True n (ob_until ob)) ?d
        \<lparr>dep_client = who, dep_fee = ob_fee ob, dep_penalty = dvc_penalty p\<rparr> (free c, reserved c)"
    using client_escrow.done_settles [OF esc, of s2 ?d ?od ?p onoff] by (auto simp: cur now)
  have report: "handle_blob_message_cli cli sender m'
      (encode_with (message_codec P) (OrderDone who ?d onoff)) s2 = s3"
    using s3(1) by (simp add: handle_blob_message_cli_def link(1) dec)
  have storage: "h_outbox s3 = []" "c_orders s3 = c_orders s"
    "c_devices s3 = (c_devices s)(?d \<mapsto> p\<lparr>dvc_state := state_of_onoff onoff\<rparr>)"
    using on_done_host [OF s3(1)] adm s3(2,3) by (auto simp: s2_def s1_def admissible_cli_def)
  have "reserved (h_currency s3) = reserved (h_currency s)"
    using s3(4) neq by (auto simp: c Let_def)
  moreover have "free (h_currency s3) = (if n < ob_until ob
      then (free (h_currency s))
        (who := free (h_currency s) who - unat (ob_fee ob),
         ?d := free (h_currency s) ?d + unat (ob_fee ob))
      else (free (h_currency s))
        (who := free (h_currency s) who - unat (ob_fee ob) + unat (dvc_penalty p),
         ?d := free (h_currency s) ?d - unat (dvc_penalty p) + unat (ob_fee ob)))"
    using s3(4) neq afford by (auto simp: c Let_def settlement_of_def fun_eq_iff split: if_splits)
  moreover have "h_outbox s1 = [(dvc_paraid p, encode_with (message_codec P) (NewOrder who ob))]"
    by (simp add: s1_def)
  ultimately show ?thesis
    by (intro that [OF call]) (simp_all only: accept report storage Let_def simp_thms)
qed

lemma sample_linked: "linked runtime_prims sample_env (runtime_service sample_env 200)"
  by (simp add: linked_def)

end
