(* ===== verification/Talk.thy ===== *)
theory Talk
  imports ClientHistory Network
begin

text \<open>
  What the two pallets say to each other. For every input of either chain the lemmas bound what is
  added to the outbound queue: a message of the service chain answers an order that another chain
  has placed, a message of the client chain is an order it has just recorded, and handling a
  message never answers with more than one.
\<close>

fun parties :: "('a, 'p) xcmp_message \<Rightarrow> 'a \<times> 'a" where
  "parties (NewOrder who ob) = (who, ob_device ob)"
| "parties (OrderAccept who d) = (who, d)"
| "parties (OrderReject who d b) = (who, d)"
| "parties (OrderDone who d b) = (who, d)"

text \<open>Exactly one message is added, to chain \<open>para\<close>, about client \<open>c\<close> and device \<open>d\<close>.\<close>

definition said ::
  "('a, 'p) prims \<Rightarrow> ('c, outbox, 'y) host_scheme \<Rightarrow> ('c, outbox, 'z) host_scheme \<Rightarrow>
   para_id \<Rightarrow> 'a \<Rightarrow> 'a \<Rightarrow> bool"
  where
  "said P s t para c d \<longleftrightarrow> (\<exists>m :: ('a, 'p) xcmp_message. parties m = (c, d) \<and>
    h_outbox t = h_outbox s @ [(para, encode_with (message_codec P) m)])"

lemma saidI:
  "parties m = (c, d) \<Longrightarrow> h_outbox t = h_outbox s @ [(para, encode_with (message_codec P) m)] \<Longrightarrow>
    said P s t para c d"
  unfolding said_def by blast

lemma said_report:
  "\<exists>m. parties m = (c, d) \<and> encode_with C (OrderAccept c d) = encode_with C m"
  "\<exists>m. parties m = (c, d) \<and> encode_with C (OrderReject c d b) = encode_with C m"
  "\<exists>m. parties m = (c, d) \<and> encode_with C (OrderDone c d b) = encode_with C m"
  by (metis parties.simps(2)) (metis parties.simps(3), metis parties.simps(4))

lemma said_cong: "said P s t para c d \<Longrightarrow> h_outbox s' = h_outbox s \<Longrightarrow> h_outbox t' = h_outbox t \<Longrightarrow>
    said P s' t' para c d"
  by (simp add: said_def)

section \<open>The service chain\<close>

lemma storage_svc_outbox [simp]:
  "h_outbox (put_device_svc d p s) = h_outbox s"
  "h_outbox (remove_device_svc d s) = h_outbox s"
  "h_outbox (put_order_svc d od s) = h_outbox s"
  "h_outbox (remove_order_svc d s) = h_outbox s"
  "h_outbox (deposit_event_svc ev s) = h_outbox s"
  by (simp_all add: storage_svc_defs)

text \<open>An order that chain \<open>para\<close> has placed is known to the service chain.\<close>

definition remote_order ::
  "('o, 'a, 'p, 'c, 'q) service_config \<Rightarrow> ('a, 'p, 'c, 'q) service_state \<Rightarrow>
   para_id \<Rightarrow> 'a \<Rightarrow> 'a \<Rightarrow> bool" where
  "remote_order cfg s para c d \<longleftrightarrow>
    (\<exists>od. s_orders s d = Some od \<and> o_paraid od = para \<and> para \<noteq> self_para_id cfg \<and> o_client od = c)"

text \<open>
  One input that is not a message: the queue is unchanged or got one message about a known remote
  order, and no remote order is new.
\<close>

definition answers ::
  "('a, 'p) prims \<Rightarrow> ('o, 'a, 'p, 'c, outbox) service_config \<Rightarrow>
   ('a, 'p, 'c, outbox) service_state \<Rightarrow> ('a, 'p, 'c, outbox) service_state \<Rightarrow> bool" where
  "answers P cfg s t \<longleftrightarrow>
    (h_outbox t = h_outbox s \<or> (\<exists>para c d. remote_order cfg s para c d \<and> said P s t para c d)) \<and>
    (\<forall>para c d. remote_order cfg t para c d \<longrightarrow> remote_order cfg s para c d)"

definition linked_service ::
  "('a, 'p) prims \<Rightarrow> ('o, 'a, 'p, 'd, outbox) service_config \<Rightarrow> bool" where
  "linked_service P svc \<longleftrightarrow> message_impl svc = message_codec P \<and> send_blob_message svc = queue_send"

lemma answers_quiet:
  "h_outbox t = h_outbox s \<Longrightarrow> s_orders t = s_orders s \<Longrightarrow> answers P cfg s t"
  by (simp add: answers_def remote_order_def)

lemma send_linked:
  "linked_service P cfg \<Longrightarrow> send_message_now cfg para m err s =
    (Inr (), s\<lparr>h_outbox := h_outbox s @ [(para, encode_with (message_codec P) m)]\<rparr>)"
  by (simp add: linked_service_def send_queue)

lemma accept_outbox:
  assumes "linked_service P cfg"
  shows "h_outbox (order_accept_svc cfg od now d dev s) = h_outbox s @
    (if o_paraid od = self_para_id cfg then []
     else [(o_paraid od, encode_with (message_codec P) (OrderAccept (o_client od) d))])"
  using assms by (simp add: order_accept_svc_def Let_def send_linked)

lemma accept_says:
  assumes "linked_service P cfg"
  shows "h_outbox (order_accept_svc cfg od now d dev s) = h_outbox s \<or>
    o_paraid od \<noteq> self_para_id cfg \<and> said P s (order_accept_svc cfg od now d dev s) (o_paraid od) (o_client od) d"
  using assms by (simp add: accept_outbox said_def said_report)

lemma reject_says:
  assumes "linked_service P cfg" and "order_reject_svc cfg ord now d dev onoff s = (r, t)"
  shows "h_outbox t = h_outbox s \<or>
    (\<exists>od. ord = Some od \<and> o_paraid od \<noteq> self_para_id cfg \<and> said P s t (o_paraid od) (o_client od) d)"
  using assms
  by (auto simp: order_reject_svc_def Let_def and_then_def host_calls_svc send_linked
      said_def said_report split: option.splits if_splits prod.splits sum.splits)

lemma done_says:
  assumes "linked_service P cfg" and "order_done_svc cfg od now d dev onoff s = (r, t)"
  shows "h_outbox t = h_outbox s \<or> o_paraid od \<noteq> self_para_id cfg \<and> said P s t (o_paraid od) (o_client od) d"
  using assms
  by (auto simp: order_done_svc_def Let_def and_then_def host_calls_svc send_linked
      said_def said_report split: if_splits prod.splits sum.splits)

lemma received_says:
  assumes "linked_service P cfg" and "order_received_svc cfg od d s = (r, t)"
  shows "h_outbox t = h_outbox s \<or> o_paraid od \<noteq> self_para_id cfg \<and> said P s t (o_paraid od) (o_client od) d"
  using assms
  by (auto simp: order_received_svc_def Let_def and_then_def try_pure_def host_calls_svc
      accept_outbox said_def said_report split: option.splits if_splits prod.splits sum.splits)

lemma order_answers:
  assumes "linked_service P cfg" and "order_svc cfg origin ob s = (r, t)"
  shows "answers P cfg s t"
proof (cases "ensure_signed cfg origin")
  case (Inl e)
  with assms(2) show ?thesis by (auto simp: order_svc_def intro: answers_quiet)
next
  case (Inr who)
  let ?od = "\<lparr>o_until = ob_until ob, o_data = ob_data ob, o_fee = ob_fee ob, o_client = who,
    o_paraid = self_para_id cfg\<rparr>"
  from Inr assms(2) have op: "order_received_svc cfg ?od (ob_device ob) s = (r, t)"
    by (simp add: order_svc_def)
  from received_says [OF assms(1) op] order_received_storage [OF op] show ?thesis
    by (auto simp: answers_def remote_order_def split: if_splits)
qed

lemma closed_remote:
  "s_orders t = s_orders s \<or> s_orders t = (s_orders s)(d := None) \<Longrightarrow>
    remote_order cfg t para c x \<Longrightarrow> remote_order cfg s para c x"
  by (auto simp: remote_order_def split: if_splits)

lemma reject_answers:
  assumes "linked_service P cfg"
    and "order_reject_svc cfg (s_orders s d) now d dev onoff s = (r, t)"
  shows "answers P cfg s t"
  unfolding answers_def
proof
  show "h_outbox t = h_outbox s \<or> (\<exists>para c d. remote_order cfg s para c d \<and> said P s t para c d)"
    using reject_says [OF assms] by (auto simp: remote_order_def)
  show "\<forall>para c x. remote_order cfg t para c x \<longrightarrow> remote_order cfg s para c x"
    using order_reject_storage [OF assms(2)] closed_remote [of t s d cfg] by blast
qed

lemma cancel_answers:
  assumes "linked_service P cfg" and "cancel_svc cfg origin d s = (r, t)"
  shows "answers P cfg s t"
  using cancel_cases [OF assms(2)]
proof (elim disjE exE conjE)
  fix od dev
  assume "s_orders s d = Some od"
    and "order_reject_svc cfg (Some od) (h_now s) d dev False s = (r, t)"
  with reject_answers [OF assms(1), of s d] show ?thesis by simp
qed (simp add: answers_quiet)

lemma accept_answers:
  assumes "linked_service P cfg" and "accept_svc cfg origin rej onoff s = (r, t)"
  shows "answers P cfg s t"
proof -
  consider (same) "t = s"
    | (reject) x dev where "order_reject_svc cfg (s_orders s x) (h_now s) x dev onoff s = (r, t)"
    | (accept) x dev od where "s_orders s x = Some od" "t = order_accept_svc cfg od (h_now s) x dev s"
    using accept_cases [OF assms(2)] by blast
  then show ?thesis
  proof cases
    case accept
    with accept_says [OF assms(1), of od "h_now s" x dev s] show ?thesis
      by (auto simp: answers_def remote_order_def)
  qed (auto intro: answers_quiet reject_answers [OF assms(1)])
qed

lemma done_answers:
  assumes "linked_service P cfg" and "done_svc cfg origin onoff s = (r, t)"
  shows "answers P cfg s t"
  using done_cases [OF assms(2)]
proof (elim disjE exE conjE)
  fix x dev od
  assume od: "s_orders s x = Some od"
    and op: "order_done_svc cfg od (h_now s) x dev onoff (remove_order_svc x s) = (r, t)"
  have "h_outbox t = h_outbox s \<or> o_paraid od \<noteq> self_para_id cfg \<and> said P s t (o_paraid od) (o_client od) x"
    using done_says [OF assms(1) op] by (auto intro: said_cong)
  moreover have "s_orders t = (s_orders s)(x := None)" using order_done_storage(2) [OF op] by simp
  ultimately show ?thesis
    using od closed_remote [of t s x cfg] by (auto simp: answers_def) (auto simp: remote_order_def)
qed (simp add: answers_quiet)

lemma input_answers:
  assumes "linked_service P cfg" and "dispatch_svc cfg i s = (r, t)"
    and "\<And>p n b. i \<noteq> BlobMessage p n b"
  shows "answers P cfg s t"
proof (cases i)
  case (CallRegister origin pen w onoff)
  with assms(2) show ?thesis
    by (auto simp: register_svc_def try_pure_def intro: answers_quiet split: sum.splits if_splits)
next
  case (CallSetState origin onoff)
  with assms(2) show ?thesis
    by (auto simp: set_state_svc_def try_pure_def intro!: answers_quiet
        split: sum.splits option.splits bool.splits device_state.splits)
next
  case (KilledAccount a)
  with assms(2) show ?thesis
    by (auto simp: on_killed_account_svc_def intro: answers_quiet split: option.splits if_splits)
next
  case (XcmMessage p n x)
  with assms(2) show ?thesis
    by (auto simp: handle_xcm_message_svc_def Let_def intro: answers_quiet split: sum.splits)
next
  case (BlobMessage p n b)
  with assms(3) show ?thesis by blast
qed (use assms(1,2) in \<open>auto intro: order_answers cancel_answers accept_answers done_answers\<close>)

text \<open>A message: what it may add is what its decoded content announces.\<close>

lemma blob_answers:
  assumes "linked_service P cfg" and t_def: "t = handle_blob_message_svc cfg sender n b s"
  shows "h_outbox t = h_outbox s \<or>
      (\<exists>m. decode_with (message_codec P) b = Some m \<and> said P s t sender (fst (parties m)) (snd (parties m)))"
    and "remote_order cfg t para c d \<Longrightarrow> remote_order cfg s para c d \<or>
      para = sender \<and> (\<exists>m. decode_with (message_codec P) b = Some m \<and> parties m = (c, d))"
proof -
  have "(h_outbox t = h_outbox s \<or>
      (\<exists>m. decode_with (message_codec P) b = Some m \<and> said P s t sender (fst (parties m)) (snd (parties m)))) \<and>
    (remote_order cfg t para c d \<longrightarrow> remote_order cfg s para c d \<or>
      para = sender \<and> (\<exists>m. decode_with (message_codec P) b = Some m \<and> parties m = (c, d)))"
  proof (cases "\<exists>who ob. decode_with (message_codec P) b = Some (NewOrder who ob)")
    case False
    then have "t = s"
      using assms(1) by (auto simp: t_def handle_blob_message_svc_def linked_service_def
          split: option.splits xcmp_message.splits)
    then show ?thesis by simp
  next
    case True
    then obtain who ob where m: "decode_with (message_codec P) b = Some (NewOrder who ob)" by blast
    let ?od = "\<lparr>o_until = ob_until ob, o_data = ob_data ob, o_fee = ob_fee ob, o_client = who,
      o_paraid = sender\<rparr>"
    obtain r where op: "order_received_svc cfg ?od (ob_device ob) s = (r, t)"
      using m assms(1)
      by (cases "order_received_svc cfg ?od (ob_device ob) s")
        (simp add: t_def handle_blob_message_svc_def linked_service_def)
    from received_says [OF assms(1) op] order_received_storage [OF op] m show ?thesis
      by (auto simp: remote_order_def split: if_splits)
  qed
  then show "h_outbox t = h_outbox s \<or>
      (\<exists>m. decode_with (message_codec P) b = Some m \<and> said P s t sender (fst (parties m)) (snd (parties m)))"
    and "remote_order cfg t para c d \<Longrightarrow> remote_order cfg s para c d \<or>
      para = sender \<and> (\<exists>m. decode_with (message_codec P) b = Some m \<and> parties m = (c, d))" by auto
qed

section \<open>The client chain\<close>

lemma storage_cli_outbox [simp]:
  "h_outbox (put_device_cli d p s) = h_outbox s"
  "h_outbox (remove_device_cli d s) = h_outbox s"
  "h_outbox (remove_order_cli d s) = h_outbox s"
  "h_outbox (deposit_event_cli ev s) = h_outbox s"
  by (simp_all add: storage_cli_defs)

definition linked_client :: "('a, 'p) prims \<Rightarrow> ('o, 'a, 'p, 'c, outbox) env \<Rightarrow> bool" where
  "linked_client P cli \<longleftrightarrow> message_impl cli = message_codec P \<and> send_blob_message cli = queue_send"

lemma send_client:
  "linked_client P cli \<Longrightarrow> send_message_now cli para m err s =
    (Inr (), s\<lparr>h_outbox := h_outbox s @ [(para, encode_with (message_codec P) m)]\<rparr>)"
  by (simp add: linked_client_def send_queue)

lemma linked_sends: "linked_client P cli \<Longrightarrow> sends_ok cli"
  by (simp add: linked_client_def sends_ok_def queue_send_def)

lemma linked_parts: "linked P cli svc \<longleftrightarrow> linked_client P cli \<and> linked_service P svc"
  by (auto simp: linked_def linked_client_def linked_service_def)

text \<open>
  What an input that is not a message may add: nothing, the two bytes of \<^verbatim>\<open>test\<close>, or an order that
  the events record.
\<close>

inductive speaks ::
  "('a, 'p) prims \<Rightarrow> ('a, 'p, 'c, outbox) client_state \<Rightarrow> ('a, 'p, 'c, outbox) client_state \<Rightarrow> bool"
  for P s t where
  silent: "h_outbox t = h_outbox s \<Longrightarrow> speaks P s t"
| tested: "h_outbox t = h_outbox s @ [(200, [0x00, 0x20])] \<Longrightarrow> speaks P s t"
| ordered: "h_outbox t = h_outbox s @ [(para, encode_with (message_codec P) (NewOrder who ob))] \<Longrightarrow>
    CeNewOrder who (ob_device ob) \<in> set (c_events t) \<Longrightarrow> speaks P s t"

lemma order_reject_outbox:
  "order_reject_cli cfg who od now d dev s = (r, t) \<Longrightarrow> h_outbox t = h_outbox s"
  by (auto simp: order_reject_cli_def Let_def and_then_def host_calls_cli
      split: if_splits prod.splits sum.splits)

lemma cancel_outbox: "cancel_cli cfg origin d s = (r, t) \<Longrightarrow> h_outbox t = h_outbox s"
  using cancel_cli_cases order_reject_outbox by metis

lemma on_reject_outbox: "on_reject_cli cfg who d onoff s = (r, t) \<Longrightarrow> h_outbox t = h_outbox s"
  using on_reject_cases order_reject_outbox by metis

lemma blob_outbox: "h_outbox (handle_blob_message_cli cfg p n b s) = h_outbox s"
proof (cases "decode_with (message_impl cfg) b")
  case None
  then show ?thesis by (simp add: handle_blob_message_cli_def)
next
  case (Some m)
  then show ?thesis
    using on_reject_outbox [OF prod.collapse [symmetric], where cfg = cfg]
      on_done_host [OF prod.collapse [symmetric], where cfg = cfg]
    by (cases m) (simp_all add: handle_blob_message_cli_def on_accept_cli_def)
qed

lemma order_speaks:
  assumes "linked_client P cli" and "order_cli cli origin ob s = (r, t)"
  shows "speaks P s t"
proof -
  have "h_outbox t = h_outbox s \<or>
    (\<exists>para who. h_outbox t = h_outbox s @ [(para, encode_with (message_codec P) (NewOrder who ob))] \<and>
      CeNewOrder who (ob_device ob) \<in> set (c_events t))"
    using assms
    by (auto simp: order_cli_def Let_def and_then_def try_pure_def host_calls_cli send_client
        order_convert_base_convert split: option.splits if_splits prod.splits sum.splits)
  then show ?thesis by (auto intro: silent ordered)
qed

lemma test_speaks:
  "linked_client P cli \<Longrightarrow> test_cli cli origin s = (r, t) \<Longrightarrow> speaks P s t"
  by (auto simp: test_cli_def send_blob_now_def linked_client_def queue_send_def intro: tested)

lemma input_speaks:
  assumes "linked_client P cli" and "dispatch_cli cli i s = (r, t)"
  shows "speaks P s t"
proof (cases i)
  case (CliRegister origin para pen w onoff)
  with assms(2) show ?thesis
    by (auto simp: register_cli_def try_pure_def intro: silent split: sum.splits if_splits)
next
  case (CliKilled a)
  with assms(2) show ?thesis
    by (auto simp: on_killed_account_cli_def intro: silent split: option.splits if_splits)
next
  case (CliXcm p n x)
  with assms(2) show ?thesis
    by (auto simp: handle_xcm_message_cli_def Let_def intro: silent split: sum.splits)
next
  case (CliBlob p n b)
  with assms(2) show ?thesis by (auto simp: blob_outbox intro: silent)
qed (use assms in \<open>auto intro: order_speaks test_speaks dest: cancel_outbox intro: silent\<close>)

end
