(* ===== verification/NetworkHistory.thy ===== *)
theory NetworkHistory
  imports Talk
begin

text \<open>
  Runs of the two linked chains: any input on either side, messages delivered one at a time, clocks
  and balances moved by others in between, and messages of other chains to the service chain. The invariant of these runs relates the events of the
  client chain to the orders and the messages of both, and says that no report comes out of
  nothing. A second result bounds the exchange of messages: it always runs dry.
\<close>

section \<open>Steps of the network\<close>

inductive network_step ::
  "('o, 'a, 'p, 'c, outbox) env \<Rightarrow> ('o2, 'a, 'p, 'd, outbox) service_config \<Rightarrow> para_id \<Rightarrow>
   ('a, 'p, 'c, 'd) network \<Rightarrow> ('a, 'p, 'c, 'd) network \<Rightarrow> bool"
  for cli svc own where
  client_acts: "dispatch_cli cli i (client_chain w) = (r, t) \<Longrightarrow> (\<And>p n b. i \<noteq> CliBlob p n b) \<Longrightarrow>
    network_step cli svc own w (w\<lparr>client_chain := t\<rparr>)"
| service_acts: "dispatch_svc svc i (service_chain w) = (r, u) \<Longrightarrow> (\<And>n b. i \<noteq> BlobMessage own n b) \<Longrightarrow>
    network_step cli svc own w (w\<lparr>service_chain := u\<rparr>)"
| to_service: "network_step cli svc own w (deliver_to_service svc own w)"
| to_client: "network_step cli svc own w (deliver_to_client cli own (self_para_id svc) w)"
| client_passes: "h_now (client_chain w) \<le> n \<Longrightarrow> network_step cli svc own w
    (w\<lparr>client_chain := (client_chain w)\<lparr>h_now := n, h_currency := c\<rparr>\<rparr>)"
| service_passes: "h_now (service_chain w) \<le> n \<Longrightarrow> network_step cli svc own w
    (w\<lparr>service_chain := (service_chain w)\<lparr>h_now := n, h_currency := e\<rparr>\<rparr>)"

definition fresh_network :: "('a, 'p, 'c, 'd) network \<Rightarrow> bool" where
  "fresh_network w \<longleftrightarrow> fresh_desk (client_chain w) \<and> service_init (service_chain w) \<and>
    h_outbox (client_chain w) = [] \<and> h_outbox (service_chain w) = []"

section \<open>What the events explain\<close>

definition announced :: "'a client_event list \<Rightarrow> 'a \<Rightarrow> 'a \<Rightarrow> bool" where
  "announced evs c d \<longleftrightarrow> CeNewOrder c d \<in> set evs"

fun concerns :: "'a client_event \<Rightarrow> ('a \<times> 'a) option" where
  "concerns (CeAccept c d) = Some (c, d)"
| "concerns (CeReject c d) = Some (c, d)"
| "concerns (CeDone c d) = Some (c, d)"
| "concerns _ = None"

text \<open>Every reaction to an order comes after the announcement of an order of those two.\<close>

fun explained :: "'a client_event list \<Rightarrow> 'a client_event list \<Rightarrow> bool" where
  "explained before [] = True"
| "explained before (ev # evs) =
    ((case concerns ev of None \<Rightarrow> True | Some (c, d) \<Rightarrow> announced before c d) \<and>
     explained (before @ [ev]) evs)"

lemma explained_append:
  "explained before (evs @ evs') \<longleftrightarrow> explained before evs \<and> explained (before @ evs) evs'"
  by (induction evs arbitrary: before) simp_all

lemma explained_neutral: "list_all neutral_event evs \<Longrightarrow> explained before evs"
  by (induction evs arbitrary: before) (auto elim: neutral_event.elims)

lemma explained_occurs:
  assumes "explained before (xs @ ev # ys)" and "concerns ev = Some (c, d)"
  shows "CeNewOrder c d \<in> set (before @ xs)"
  using assms by (simp add: explained_append announced_def)

definition boxed :: "('a, 'p) prims \<Rightarrow> 'a client_event list \<Rightarrow> outbox \<Rightarrow> bool" where
  "boxed P evs box \<longleftrightarrow> (\<forall>(para, blob) \<in> set box. \<forall>m :: ('a, 'p) xcmp_message.
    decode_with (message_codec P) blob = Some m \<longrightarrow> announced evs (fst (parties m)) (snd (parties m)))"

text \<open>The messages of the service chain to the client chain; it may have others to other chains.\<close>

definition to_chain :: "para_id \<Rightarrow> outbox \<Rightarrow> outbox" where
  "to_chain own box = filter (\<lambda>(para, blob). para = own) box"

lemma to_chain_simps [simp]:
  "to_chain own [] = []"
  "to_chain own (box @ box') = to_chain own box @ to_chain own box'"
  "to_chain own ((para, blob) # box) = (if para = own then (para, blob) # to_chain own box else to_chain own box)"
  by (simp_all add: to_chain_def)

definition network_history ::
  "('a, 'p) prims \<Rightarrow> ('o2, 'a, 'p, 'd, outbox) service_config \<Rightarrow> para_id \<Rightarrow> ('a, 'p, 'c, 'd) network \<Rightarrow>
   bool" where
  "network_history P svc own w \<longleftrightarrow> (let evs = c_events (client_chain w) in
    explained [] evs \<and>
    (\<forall>d od. c_orders (client_chain w) d = Some od \<longrightarrow> announced evs (o_client od) d) \<and>
    boxed P evs (h_outbox (client_chain w)) \<and> boxed P evs (to_chain own (h_outbox (service_chain w))) \<and>
    (\<forall>c d. remote_order svc (service_chain w) own c d \<longrightarrow> announced evs c d))"

text \<open>The two bytes of the \<^verbatim>\<open>test\<close> call are not a message.\<close>

definition test_blob_unread :: "('a, 'p) prims \<Rightarrow> bool" where
  "test_blob_unread P \<longleftrightarrow> decode_with (message_codec P) [0x00, 0x20] = None"

lemma announced_mono: "announced evs c d \<Longrightarrow> announced (evs @ evs') c d"
  by (simp add: announced_def)

lemma boxed_mono: "boxed P evs box \<Longrightarrow> boxed P (evs @ evs') box"
  by (auto simp: boxed_def announced_def)

lemma boxed_append: "boxed P evs (box @ box') \<longleftrightarrow> boxed P evs box \<and> boxed P evs box'"
  by (auto simp: boxed_def)

lemma boxed_Nil [simp]: "boxed P evs []"
  by (simp add: boxed_def)

lemma boxed_Cons: "boxed P evs (x # box) \<Longrightarrow> boxed P evs box"
  by (simp add: boxed_def)

lemma boxed_message:
  assumes "prim_codecs P"
  shows "boxed P evs [(para, encode_with (message_codec P) m)]
    \<longleftrightarrow> announced evs (fst (parties m)) (snd (parties m))"
  using prim_codecs.decode_encode_message [OF assms, of m "[]"] by (simp add: boxed_def)

lemma boxed_said:
  assumes "prim_codecs P" and "said P s t para c d" and "para = own \<Longrightarrow> announced evs c d"
    and "boxed P evs (to_chain own (h_outbox s))"
  shows "boxed P evs (to_chain own (h_outbox t))"
  using assms by (auto simp: said_def boxed_append boxed_message)

section \<open>Every step keeps the history\<close>

lemma closes_parties:
  "closes_device m = Some d \<Longrightarrow> report_event m = Some ev \<Longrightarrow> concerns ev = Some (parties m)"
  by (cases m) auto

text \<open>The events after an input of the client chain, when its queues take every message.\<close>

lemma change_explained:
  assumes "desk_change cli i s t" and "sends_ok cli" and "message_impl cli = message_codec P"
    and "explained [] (c_events s)"
    and "\<And>d od. c_orders s d = Some od \<Longrightarrow> announced (c_events s) (o_client od) d"
    and "\<And>p n b m. i = CliBlob p n b \<Longrightarrow> decode_with (message_codec P) b = Some m \<Longrightarrow>
      announced (c_events s) (fst (parties m)) (snd (parties m))"
  shows "explained [] (c_events t) \<and> (\<exists>evs. c_events t = c_events s @ evs) \<and>
    (\<forall>d od. c_orders t d = Some od \<longrightarrow> announced (c_events t) (o_client od) d)"
  using assms(1)
proof cases
  case (quiet evs)
  with assms(4,5) show ?thesis
    by (auto simp: explained_append explained_neutral intro: announced_mono)
next
  case (placed origin ob who)
  with assms(4,5) show ?thesis
    by (auto simp: explained_append announced_def)
next
  case (cancelled d od)
  with assms(4,5) show ?thesis
    by (auto simp: explained_append intro: announced_mono)
next
  case (reported p n b m d ev od)
  then have "announced (c_events s) (fst (parties m)) (snd (parties m))"
    using assms(3,6) by simp
  with reported assms(4,5) closes_parties [OF reported(3,4)] show ?thesis
    by (auto simp: explained_append intro: announced_mono split: prod.splits)
next
  case (accepted p n b who d)
  then have "announced (c_events s) who d" using assms(3) assms(6) [of p n b "OrderAccept who d"] by simp
  with accepted assms(4,5) show ?thesis
    by (auto simp: explained_append intro: announced_mono)
qed (use assms(2) in simp)

lemma client_input_history:
  assumes "prim_codecs P" and "linked_client P cli"
    and "test_blob_unread P"
    and "network_history P svc own w" and "dispatch_cli cli i (client_chain w) = (r, t)"
    and "\<And>p n b m. i = CliBlob p n b \<Longrightarrow> decode_with (message_codec P) b = Some m \<Longrightarrow>
      announced (c_events (client_chain w)) (fst (parties m)) (snd (parties m))"
  shows "network_history P svc own (w\<lparr>client_chain := t\<rparr>)"
proof -
  let ?s = "client_chain w"
  have link: "message_impl cli = message_codec P" using assms(2) by (simp add: linked_client_def)
  have ev: "explained [] (c_events t)" "\<exists>evs. c_events t = c_events ?s @ evs"
    "\<forall>d od. c_orders t d = Some od \<longrightarrow> announced (c_events t) (o_client od) d"
    using change_explained [OF dispatch_change [OF assms(5)] linked_sends [OF assms(2)] link]
      assms(4,6) by (auto simp: network_history_def Let_def)
  then obtain evs where evs: "c_events t = c_events ?s @ evs" by blast
  have "boxed P (c_events t) (h_outbox t)"
    using input_speaks [OF assms(2,5)]
  proof cases
    case silent
    with assms(4) evs show ?thesis by (simp add: network_history_def Let_def boxed_mono)
  next
    case tested
    with assms(3,4) evs show ?thesis
      by (simp add: network_history_def Let_def boxed_mono boxed_append)
        (simp add: boxed_def test_blob_unread_def)
  next
    case (ordered para who ob)
    with assms(1,4) evs show ?thesis
      by (simp add: network_history_def Let_def boxed_mono boxed_append boxed_message announced_def)
  qed
  with ev assms(4) evs show ?thesis
    by (auto simp: network_history_def Let_def intro: boxed_mono announced_mono)
qed

lemma service_input_history:
  assumes "prim_codecs P" and "network_history P svc own w" and "answers P svc (service_chain w) u"
  shows "network_history P svc own (w\<lparr>service_chain := u\<rparr>)"
proof -
  let ?evs = "c_events (client_chain w)"
  have "boxed P ?evs (to_chain own (h_outbox u))"
    using assms(3) unfolding answers_def
  proof (elim conjE disjE exE)
    fix para c d
    assume known: "remote_order svc (service_chain w) para c d"
      and said: "said P (service_chain w) u para c d"
    show ?thesis
      by (rule boxed_said [OF assms(1) said])
        (use known assms(2) in \<open>simp_all add: network_history_def Let_def\<close>)
  qed (use assms(2) in \<open>simp add: network_history_def Let_def\<close>)
  with assms(2,3) show ?thesis by (simp add: network_history_def answers_def Let_def)
qed

text \<open>A message to the service chain: from the client chain, as announced, or from another chain.\<close>

lemma message_history:
  assumes "prim_codecs P" and "linked_service P svc" and "network_history P svc own w"
    and "\<And>m. sender = own \<Longrightarrow> decode_with (message_codec P) blob = Some m \<Longrightarrow>
      announced (c_events (client_chain w)) (fst (parties m)) (snd (parties m))"
  shows "network_history P svc own
    (w\<lparr>service_chain := handle_blob_message_svc svc sender n blob (service_chain w)\<rparr>)"
proof -
  let ?evs = "c_events (client_chain w)"
  define u where "u = handle_blob_message_svc svc sender n blob (service_chain w)"
  have "boxed P ?evs (to_chain own (h_outbox u))"
    using blob_answers(1) [OF assms(2) u_def] assms(3,4)
    by (auto simp: network_history_def Let_def intro: boxed_said [OF assms(1)])
  moreover have "announced ?evs c d" if "remote_order svc u own c d" for c d
    using blob_answers(2) [OF assms(2) u_def that] assms(3,4)
    by (auto simp: network_history_def Let_def)
  ultimately show ?thesis using assms(3) by (simp add: network_history_def Let_def u_def)
qed

lemma to_service_history:
  fixes w :: "('a, 'p, 'c, 'd) network"
  assumes "prim_codecs P" and "linked_service P svc" and "network_history P svc own w"
  shows "network_history P svc own (deliver_to_service svc own w)"
proof (cases "h_outbox (client_chain w)")
  case Nil
  with assms(3) show ?thesis by (simp add: deliver_to_service_def)
next
  case (Cons x q)
  obtain para blob where x: "x = (para, blob)" by fastforce
  let ?evs = "c_events (client_chain w)"
  have told: "announced ?evs (fst (parties m)) (snd (parties m))"
    if "decode_with (message_codec P) blob = Some m" for m :: "('a, 'p) xcmp_message"
    using that assms(3) Cons x by (auto simp: network_history_def boxed_def Let_def)
  let ?w = "w\<lparr>client_chain := (client_chain w)\<lparr>h_outbox := q\<rparr>\<rparr>"
  have w: "network_history P svc own ?w"
    using assms(3) Cons by (auto simp: network_history_def Let_def intro: boxed_Cons)
  from message_history [OF assms(1,2) w, of own blob 0] told w Cons x show ?thesis
    by (simp add: deliver_to_service_def)
qed

lemma to_client_history:
  fixes w :: "('a, 'p, 'c, 'd) network"
  assumes "prim_codecs P" and "linked_client P cli"
    and "test_blob_unread P"
    and "network_history P svc own w"
  shows "network_history P svc own (deliver_to_client cli own sender w)"
proof (cases "h_outbox (service_chain w)")
  case Nil
  with assms(4) show ?thesis by (simp add: deliver_to_client_def)
next
  case (Cons x q)
  obtain para blob where x: "x = (para, blob)" by fastforce
  let ?w = "w\<lparr>service_chain := (service_chain w)\<lparr>h_outbox := q\<rparr>\<rparr>"
  have w: "network_history P svc own ?w"
    using assms(4) Cons x boxed_Cons [of P _ x "to_chain own q"]
    by (auto simp: network_history_def Let_def remote_order_def split: if_splits)
  show ?thesis
  proof (cases "para = own")
    case False
    with w Cons x show ?thesis by (simp add: deliver_to_client_def)
  next
    case True
    have told: "announced (c_events (client_chain w)) (fst (parties m)) (snd (parties m))"
      if "decode_with (message_codec P) blob = Some m" for m :: "('a, 'p) xcmp_message"
      using that assms(4) Cons x True by (auto simp: network_history_def boxed_def Let_def)
    have "dispatch_cli cli (CliBlob sender 0 blob) (client_chain ?w)
        = (Inr (), handle_blob_message_cli cli sender 0 blob (client_chain w))" by simp
    from client_input_history [OF assms(1-3) w this] told
    have "network_history P svc own
        (?w\<lparr>client_chain := handle_blob_message_cli cli sender 0 blob (client_chain w)\<rparr>)" by simp
    with w Cons x True show ?thesis by (simp add: deliver_to_client_def)
  qed
qed

lemma fresh_history: "fresh_network w \<Longrightarrow> network_history P svc own w"
  by (simp add: fresh_network_def fresh_desk_def client_init_def service_init_def
      network_history_def boxed_def remote_order_def)

lemma clock_history:
  assumes "network_history P svc own w"
  shows "network_history P svc own (w\<lparr>client_chain := (client_chain w)\<lparr>h_now := n, h_currency := c\<rparr>\<rparr>)"
    and "network_history P svc own (w\<lparr>service_chain := (service_chain w)\<lparr>h_now := n, h_currency := e\<rparr>\<rparr>)"
  using assms by (simp_all add: network_history_def Let_def remote_order_def)

definition history_kept ::
  "('a, 'p) prims \<Rightarrow> ('o, 'a, 'p, 'c, outbox) env \<Rightarrow> ('o2, 'a, 'p, 'd, outbox) service_config \<Rightarrow>
   para_id \<Rightarrow> ('a, 'p, 'c, 'd) network \<Rightarrow> bool" where
  "history_kept P cli svc own w \<longleftrightarrow>
    (prim_codecs P \<and> linked P cli svc \<and>
     test_blob_unread P \<longrightarrow>
     network_history P svc own w)"

lemma step_history:
  assumes "history_kept P cli svc own w" and "network_step cli svc own w w'"
  shows "history_kept P cli svc own w'"
  unfolding history_kept_def
proof (intro impI, elim conjE)
  assume P: "prim_codecs P" and link: "linked P cli svc"
    and dec: "test_blob_unread P"
  note links = link [unfolded linked_parts, THEN conjunct1] link [unfolded linked_parts, THEN conjunct2]
  have w: "network_history P svc own w" using assms(1) P link dec by (simp add: history_kept_def)
  show "network_history P svc own w'"
    using assms(2)
  proof cases
    case (client_acts i r t)
    with client_input_history [OF P links(1) dec w client_acts(2)] show ?thesis by blast
  next
    case (service_acts i r u)
    show ?thesis
    proof (cases "\<exists>p n b. i = BlobMessage p n b")
      case True
      then obtain p n b where i: "i = BlobMessage p n b" by blast
      with service_acts(3) have "p \<noteq> own" by blast
      with i service_acts(1,2) message_history [OF P links(2) w, of p b n] show ?thesis by auto
    next
      case False
      with service_input_history [OF P w input_answers [OF links(2) service_acts(2)]] service_acts(1)
      show ?thesis by blast
    qed
  qed (use w P links dec in \<open>auto intro: to_service_history to_client_history clock_history\<close>)
qed

interpretation network_run: invariant_system fresh_network "network_step cli svc own"
    "history_kept P cli svc own" for cli svc own P
  by unfold_locales (simp add: history_kept_def fresh_history, rule step_history)

section \<open>The property\<close>

text \<open>
  Claim C10. Nothing is settled that was not ordered: in every run of the two linked chains, with
  orders, cancellations, answers and deliveries in any order, and with whatever other chains order
  from the service chain, an acceptance, a rejection or a completion that the client chain records
  for a client and a device comes after an order of that client for that device, and every message
  under way between the two is about such a pair.
\<close>

theorem reports_follow_orders:
  fixes w :: "('a, 'p, 'c, 'd) network"
  assumes "prim_codecs P" and "linked P cli svc"
    and "test_blob_unread P"
    and "reachable fresh_network (network_step cli svc own) w"
  shows "(\<forall>xs ys c d ev. c_events (client_chain w) = xs @ ev # ys \<longrightarrow>
      ev \<in> {CeAccept c d, CeReject c d, CeDone c d} \<longrightarrow> CeNewOrder c d \<in> set xs) \<and>
    (\<forall>(para, blob) \<in> set (to_chain own (h_outbox (service_chain w)) @ h_outbox (client_chain w)).
      \<forall>m. decode_with (message_codec P) blob = Some m \<longrightarrow>
        CeNewOrder (fst (parties m)) (snd (parties m)) \<in> set (c_events (client_chain w)))"
proof -
  have "history_kept P cli svc own w" by (rule network_run.reachable_inv [OF assms(4)])
  with assms(1-3) have w: "network_history P svc own w" by (simp add: history_kept_def)
  have "CeNewOrder c d \<in> set xs"
    if "c_events (client_chain w) = xs @ ev # ys" "ev \<in> {CeAccept c d, CeReject c d, CeDone c d}"
    for xs ys c d ev
  proof -
    have "explained [] (xs @ ev # ys)" using w that(1) by (simp add: network_history_def Let_def)
    with explained_occurs [of "[]" xs ev ys c d] that(2) show ?thesis by auto
  qed
  moreover have "\<forall>(para, blob) \<in>
      set (to_chain own (h_outbox (service_chain w)) @ h_outbox (client_chain w)).
      \<forall>m. decode_with (message_codec P) blob = Some m \<longrightarrow>
        CeNewOrder (fst (parties m)) (snd (parties m)) \<in> set (c_events (client_chain w))"
    using w by (auto simp: network_history_def Let_def boxed_def announced_def)
  ultimately show ?thesis by blast
qed

text \<open>A run of the sample network: registration on both chains, an order, its delivery.\<close>

definition joined_network ::
  "(account_id, order_payload, account_id ledger, account_id ledger) network" where
  "joined_network = \<lparr>client_chain = ordered_desk, service_chain = registered_service\<rparr>"

lemma sample_unread: "test_blob_unread runtime_prims"
  by (simp add: test_blob_unread_def decode_with_def message_codec_def runtime_prims_def
      uint_codec_def)

lemma joined_run:
  "reachable fresh_network (network_step sample_env (runtime_service sample_env 200) 100)
    joined_network"
proof -
  let ?step = "network_step sample_env (runtime_service sample_env 200) 100"
  let ?w0 = "\<lparr>client_chain = empty_desk, service_chain = empty_service\<rparr>"
  let ?w1 = "\<lparr>client_chain = registered_desk, service_chain = empty_service\<rparr>"
  let ?w2 = "\<lparr>client_chain = ordered_desk, service_chain = empty_service\<rparr>"
  have "fresh_network ?w0"
    by (simp add: fresh_network_def fresh_desk_def client_init_def empty_desk_def
        empty_service_init) (simp add: empty_service_def)
  moreover have "?step ?w0 ?w1"
    using client_acts [of sample_env "CliRegister (Some 100) 200 10000 1000 True" ?w0
        "fst (register_cli sample_env (Some 100) 200 10000 1000 True empty_desk)" registered_desk]
    by (simp add: registered_desk_def)
  moreover have "?step ?w1 ?w2"
    using client_acts [of sample_env "CliOrder (Some 200) desk_request" ?w1
        "fst (order_cli sample_env (Some 200) desk_request registered_desk)" ordered_desk]
    by (simp add: ordered_desk_def)
  moreover have "?step ?w2 joined_network"
    using service_acts [of "runtime_service sample_env 200" "CallRegister (Some 100) 10000 1000 True"
        ?w2 "Inr ()" registered_service]
    by (simp add: joined_network_def registered_service_def register_svc_def empty_service_def
        signed_by_def)
  ultimately show ?thesis by (blast intro: reachable.intros)
qed

theorem reports_follow_orders_witness:
  "CeNewOrder 200 100 \<in> set (c_events (client_chain joined_network))"
proof -
  have "prim_codecs runtime_prims" by (rule runtime.prim_codecs_axioms)
  from reports_follow_orders [OF this sample_linked sample_unread joined_run]
  have "decode_with runtime_messages (encode_with runtime_messages (NewOrder 200 desk_request)) = Some m
      \<Longrightarrow> CeNewOrder (fst (parties m)) (snd (parties m)) \<in> set (c_events (client_chain joined_network))"
    for m :: "(account_id, order_payload) xcmp_message"
    by (simp add: joined_network_def ordered_desk_eq)
  from this [of "NewOrder 200 desk_request"] show ?thesis
    using runtime.decode_encode_message [of "NewOrder 200 desk_request" "[]"]
    by (simp add: desk_request_def)
qed

section \<open>The exchange of messages ends\<close>

inductive delivery ::
  "('o, 'a, 'p, 'c, outbox) env \<Rightarrow> ('o2, 'a, 'p, 'd, outbox) service_config \<Rightarrow> para_id \<Rightarrow>
   ('a, 'p, 'c, 'd) network \<Rightarrow> ('a, 'p, 'c, 'd) network \<Rightarrow> bool"
  for cli svc own w where
  next_order: "h_outbox (client_chain w) \<noteq> [] \<Longrightarrow>
    delivery cli svc own w (deliver_to_service svc own w)"
| next_report: "h_outbox (service_chain w) \<noteq> [] \<Longrightarrow>
    delivery cli svc own w (deliver_to_client cli own (self_para_id svc) w)"

definition pending :: "('a, 'p, 'c, 'd) network \<Rightarrow> nat" where
  "pending w = 2 * length (h_outbox (client_chain w)) + length (h_outbox (service_chain w))"

lemma delivery_pending:
  assumes "linked_service P svc" and "delivery cli svc own w w'"
  shows "pending w' < pending w"
  using assms(2)
proof cases
  case next_order
  then obtain para blob q where box: "h_outbox (client_chain w) = (para, blob) # q"
    by (cases "h_outbox (client_chain w)") auto
  have "length (h_outbox (handle_blob_message_svc svc own 0 blob (service_chain w)))
      \<le> Suc (length (h_outbox (service_chain w)))"
    using blob_answers(1) [OF assms(1) refl, of own 0 blob "service_chain w"]
    by (auto simp: said_def)
  with box next_order(1) show ?thesis by (simp add: pending_def deliver_to_service_def)
next
  case next_report
  then show ?thesis
    by (cases "h_outbox (service_chain w)")
      (auto simp: pending_def deliver_to_client_def blob_outbox split: prod.splits)
qed

text \<open>
  Claim C28. The two chains cannot keep each other busy: in whatever order the waiting messages are
  delivered, there are at most two deliveries for each message the client chain has sent and one
  for each message of the service chain, and deliveries stop only when no message is left.
\<close>

theorem message_exchange_ends:
  assumes "linked P cli svc" and "(delivery cli svc own ^^ n) w w'"
  shows "n \<le> 2 * length (h_outbox (client_chain w)) + length (h_outbox (service_chain w)) \<and>
    ((\<exists>w''. delivery cli svc own w' w'') \<or>
      h_outbox (client_chain w') = [] \<and> h_outbox (service_chain w') = [])"
proof -
  have link: "linked_service P svc" using assms(1) by (simp add: linked_parts)
  have "n + pending w' \<le> pending w"
    using assms(2)
  proof (induction n arbitrary: w')
    case (Suc n)
    then obtain v where "(delivery cli svc own ^^ n) w v" "delivery cli svc own v w'" by auto
    with Suc.IH delivery_pending [OF link] show ?case by fastforce
  qed simp
  then show ?thesis by (auto simp: pending_def intro: next_order next_report)
qed

theorem message_exchange_ends_witness:
  "\<exists>w'. (delivery sample_env (runtime_service sample_env 200) 100 ^^ 1) joined_network w' \<and>
    (1 :: nat) \<le> 2 * length (h_outbox (client_chain joined_network))"
proof -
  let ?svc = "runtime_service sample_env 200"
  let ?w = "deliver_to_service ?svc 100 joined_network"
  have "delivery sample_env ?svc 100 joined_network ?w"
    by (rule next_order) (simp add: joined_network_def ordered_desk_eq)
  then have "(delivery sample_env ?svc 100 ^^ 1) joined_network ?w" by (simp only: relpowp_1)
  with message_exchange_ends [OF sample_linked this] show ?thesis
    by (auto simp: joined_network_def ordered_desk_eq)
qed

end
