(* ===== verification/NetworkProps.thy ===== *)
theory NetworkProps
  imports Network
begin

text \<open>
  The properties that span the two chains: the round trip of an order and its settlement, the
  hook of the runtime, orders the service chain refuses without a word, and a report that reaches
  the client chain after its order has been replaced.
\<close>

section \<open>The round trip of an order\<close>

text \<open>
  Claim C1. End to end. Two chains are linked, nothing is on the way, and the service chain has the
  hook of the runtime. On the client chain the client and the device are two different living
  accounts, the deposits are covered, each of the two can reserve its own, and each keeps the
  existential deposit without it. The device, registered for this service chain, is ready and without
  an order on both chains, and
  its work cycle fits before the deadline on both clocks. Now the client orders, the service
  chain takes the order, the device completes it, and both messages arrive, the report when the
  clock of the client chain shows \<open>n\<close>. Then the open orders of both chains are those from before,
  the device has the state it asked for on both, no message is left, all reserves of the client
  chain are what they were, the service chain has moved no funds, and on the client chain the
  device has earned the fee when the report came in time, and the fee less its penalty, which
  the client has got, when it came late.
\<close>

theorem round_trip_settles:
  fixes w :: "('a, 'p, 'c, 'd) network"
  assumes "currency (currency_impl cli) free reserved alive ed" and "prim_codecs P"
    and "linked P cli svc" and "on_received svc = accept_on_receive" and "own \<noteq> self_para_id svc"
    and "desk_covered reserved alive (client_chain w)" and "admissible_cli ob (client_chain w) p"
    and "dvc_paraid p = self_para_id svc"
    and "ensure_signed cli corigin = Inr who" and "who \<noteq> ob_device ob"
    and "can_reserve (currency_impl cli) who (ob_fee ob) (h_currency (client_chain w))"
    and "can_reserve (currency_impl cli) (ob_device ob) (dvc_penalty p) (h_currency (client_chain w))"
    and "alive (h_currency (client_chain w)) who"
    and "alive (h_currency (client_chain w)) (ob_device ob)"
    and "ed \<le> free (h_currency (client_chain w)) who + reserved (h_currency (client_chain w)) who
      - unat (ob_fee ob)"
    and "ed \<le> free (h_currency (client_chain w)) (ob_device ob)
      + reserved (h_currency (client_chain w)) (ob_device ob) - unat (dvc_penalty p)"
    and "h_outbox (client_chain w) = []" and "h_outbox (service_chain w) = []"
    and "ensure_signed svc dorigin = Inr (ob_device ob)"
    and "h_now (service_chain w) < ob_until ob" and "s_orders (service_chain w) (ob_device ob) = None"
    and "s_devices (service_chain w) (ob_device ob) = Some q" and "dev_state q = Ready"
    and "h_now (service_chain w) + dev_wcd q \<le> ob_until ob"
  shows "let w' = round_trip cli svc own corigin ob dorigin onoff n w;
      f = free (h_currency (client_chain w)) in
    h_outbox (client_chain w') = [] \<and> h_outbox (service_chain w') = [] \<and>
    c_orders (client_chain w') = c_orders (client_chain w) \<and>
    s_orders (service_chain w') = s_orders (service_chain w) \<and>
    c_devices (client_chain w') = (c_devices (client_chain w))
      (ob_device ob \<mapsto> p\<lparr>dvc_state := state_of_onoff onoff\<rparr>) \<and>
    s_devices (service_chain w') = (s_devices (service_chain w))
      (ob_device ob \<mapsto> q\<lparr>dev_state := state_of_onoff onoff\<rparr>) \<and>
    h_currency (service_chain w') = h_currency (service_chain w) \<and>
    reserved (h_currency (client_chain w')) = reserved (h_currency (client_chain w)) \<and>
    free (h_currency (client_chain w')) =
      (if n < ob_until ob
       then f(who := f who - unat (ob_fee ob), ob_device ob := f (ob_device ob) + unat (ob_fee ob))
       else f(who := f who - unat (ob_fee ob) + unat (dvc_penalty p),
              ob_device ob := f (ob_device ob) - unat (dvc_penalty p) + unat (ob_fee ob)))"
proof -
  let ?d = "ob_device ob" and ?s = "client_chain w" and ?v = "service_chain w"
  let ?blob = "\<lambda>m. encode_with (message_codec P) m"
  have esc: "client_escrow cli free reserved alive ed" using assms(1) by (simp add: client_escrow_def)
  have link: "message_impl cli = message_codec P" "send_blob_message cli = queue_send"
    using assms(3) by (simp_all add: linked_def)
  obtain s1 where call: "order_cli cli corigin ob ?s = (Inr (), s1)"
    and box: "h_outbox s1 = [(dvc_paraid p, ?blob (NewOrder who ob))]"
    and fin: "let s2 = handle_blob_message_cli cli (self_para_id svc) 0 (?blob (OrderAccept who ?d))
            (s1\<lparr>h_outbox := []\<rparr>);
          s3 = handle_blob_message_cli cli (self_para_id svc) 0 (?blob (OrderDone who ?d onoff))
            (s2\<lparr>h_now := n\<rparr>)
      in h_outbox s3 = [] \<and> c_orders s3 = c_orders ?s \<and>
        c_devices s3 = (c_devices ?s)(?d \<mapsto> p\<lparr>dvc_state := state_of_onoff onoff\<rparr>) \<and>
        reserved (h_currency s3) = reserved (h_currency ?s) \<and>
        free (h_currency s3) = (if n < ob_until ob
          then (free (h_currency ?s))
            (who := free (h_currency ?s) who - unat (ob_fee ob),
             ?d := free (h_currency ?s) ?d + unat (ob_fee ob))
          else (free (h_currency ?s))
            (who := free (h_currency ?s) who - unat (ob_fee ob) + unat (dvc_penalty p),
             ?d := free (h_currency ?s) ?d - unat (dvc_penalty p) + unat (ob_fee ob)))"
    by (rule client_part [OF esc assms(2) link assms(6,7,9-17)])
  define v1 where "v1 = handle_blob_message_svc svc own 0 (?blob (NewOrder who ob)) ?v"
  note v1 = service_part [OF assms(2-5,19-24,18), where who = who, folded v1_def]
  obtain t where t: "done_svc svc dorigin onoff (v1\<lparr>h_outbox := []\<rparr>) = (Inr (), t)"
    "h_outbox t = [(own, ?blob (OrderDone who ?d onoff))]"
    "s_orders t = s_orders ?v" "h_currency t = h_currency ?v"
    "s_devices t = (s_devices ?v)(?d \<mapsto> q\<lparr>dev_state := state_of_onoff onoff\<rparr>)"
    using v1(2) by blast
  have w': "round_trip cli svc own corigin ob dorigin onoff n w = w\<lparr>client_chain := handle_blob_message_cli cli (self_para_id svc) 0
        (?blob (OrderDone who ?d onoff))
        ((handle_blob_message_cli cli (self_para_id svc) 0 (?blob (OrderAccept who ?d))
          (s1\<lparr>h_outbox := []\<rparr>))\<lparr>h_now := n\<rparr>), service_chain := t\<lparr>h_outbox := []\<rparr>\<rparr>"
    unfolding round_trip_def
    by (simp add: network_defs Let_def call box assms(8) v1_def [symmetric] v1(1) t(1,2))
  show ?thesis
    using fin unfolding Let_def w' by (simp add: t)
qed

text \<open>The two chains the round trip is evaluated on.\<close>

definition sample_network ::
  "(account_id, order_payload, account_id ledger, account_id ledger) network" where
  "sample_network =
    \<lparr>client_chain = sample_desk 3000 Ready None, service_chain = sample_state 3000 Ready None\<rparr>"

theorem round_trip_settles_witness:
  "ledger_free (h_currency (client_chain (round_trip sample_env (runtime_service sample_env 200) 100
      (Some 200) desk_request (Some 100) True 4000 sample_network))) 100 = 990000 + 100000"
proof -
  have "book_cli (sample_desk 3000 Ready None) = Map.empty"
    by (rule ext) (simp add: book_cli_def sample_desk_def)
  then have sample_funded:
    "desk_covered ledger_reserved ledger_alive (client_chain sample_network)"
    "admissible_cli desk_request (client_chain sample_network) (sample_desk_profile Ready)"
    by (auto simp: sample_network_def desk_covered_def covers_def admissible_cli_def)
      (simp_all add: desk_defs)
  have "prim_codecs runtime_prims" by (rule runtime.prim_codecs_axioms)
  note start = desk_currency this sample_linked
  have "let w' = round_trip sample_env (runtime_service sample_env 200) 100 (Some 200) desk_request
        (Some 100) True 4000 sample_network;
      f = ledger_free (h_currency (client_chain sample_network)) in
    h_outbox (client_chain w') = [] \<and> h_outbox (service_chain w') = [] \<and>
    c_orders (client_chain w') = c_orders (client_chain sample_network) \<and>
    s_orders (service_chain w') = s_orders (service_chain sample_network) \<and>
    c_devices (client_chain w') = (c_devices (client_chain sample_network))
      (ob_device desk_request \<mapsto> (sample_desk_profile Ready)\<lparr>dvc_state := state_of_onoff True\<rparr>) \<and>
    s_devices (service_chain w') = (s_devices (service_chain sample_network))
      (ob_device desk_request \<mapsto> (sample_profile Ready)\<lparr>dev_state := state_of_onoff True\<rparr>) \<and>
    h_currency (service_chain w') = h_currency (service_chain sample_network) \<and>
    ledger_reserved (h_currency (client_chain w')) = ledger_reserved (h_currency (client_chain sample_network)) \<and>
    ledger_free (h_currency (client_chain w')) =
      (if 4000 < ob_until desk_request
       then f(200 := f 200 - unat (ob_fee desk_request),
              ob_device desk_request := f (ob_device desk_request) + unat (ob_fee desk_request))
       else f(200 := f 200 - unat (ob_fee desk_request) + unat (dvc_penalty (sample_desk_profile Ready)),
              ob_device desk_request := f (ob_device desk_request)
                - unat (dvc_penalty (sample_desk_profile Ready)) + unat (ob_fee desk_request)))"
    by (rule round_trip_settles [OF start _ _ sample_funded])
      (simp_all add: sample_network_def desk_defs sample_state_defs signed_by_def
        ledger_ops_def ledger_can_reserve_def ledger_observers)
  then show ?thesis
    by (simp add: Let_def sample_network_def desk_funds) (simp add: desk_request_def)
qed

section \<open>Orders that are refused without a word\<close>

text \<open>
  Claim C32. An order of another chain that the service chain cannot take changes nothing there:
  no event reports it and no message goes back, so the client chain keeps the order open.
\<close>

theorem refused_remote_order_is_silent:
  assumes "decode_with (message_impl cfg) blob = Some (NewOrder who ob)"
    and "\<not> (h_now s < ob_until ob \<and> s_orders s (ob_device ob) = None \<and>
      (\<exists>p. s_devices s (ob_device ob) = Some p \<and> dev_state p = Ready \<and>
        h_now s + dev_wcd p \<le> ob_until ob))"
  shows "handle_blob_message_svc cfg sender n blob s = s"
proof -
  let ?od = "\<lparr>o_until = ob_until ob, o_data = ob_data ob, o_fee = ob_fee ob, o_client = who,
    o_paraid = sender\<rparr>"
  have "\<not> admissible_svc cfg ?od (ob_device ob) s p st" for p st
    using assms(2) by (auto simp: admissible_svc_def)
  then obtain e where "order_received_svc cfg ?od (ob_device ob) s = (Inl e, s)"
    by (rule received_not_admissible)
  with assms(1) show ?thesis by (simp add: handle_blob_message_svc_def)
qed

theorem refused_remote_order_is_silent_witness:
  "h_outbox (handle_blob_message_svc (runtime_service sample_env 200) 100 7
    (encode_with runtime_messages (NewOrder 200 desk_request)) (sample_state 4500 Ready None)) = []"
proof -
  have dec: "decode_with (message_impl (runtime_service sample_env 200))
      (encode_with runtime_messages (NewOrder 200 desk_request)) = Some (NewOrder 200 desk_request)"
    using runtime.decode_encode_message [of "NewOrder 200 desk_request" "[]"] by simp
  have "handle_blob_message_svc (runtime_service sample_env 200) 100 7
      (encode_with runtime_messages (NewOrder 200 desk_request)) (sample_state 4500 Ready None)
    = sample_state 4500 Ready None"
    by (rule refused_remote_order_is_silent [OF dec]) (simp add: desk_request_def sample_state_defs)
  then show ?thesis by (simp add: sample_state_def)
qed

section \<open>The hook of the runtime\<close>

text \<open>
  With the hook the runtime configures, every order is accepted the moment it is taken,
  so in every state the chain can reach a call of \<^verbatim>\<open>accept\<close> that does not reject fails and
  changes nothing.
\<close>

theorem runtime_accept_is_refused:
  assumes "reachable service_init (service_step (runtime_service libs para)) s"
    and "accept_svc (runtime_service libs para) origin False onoff s = (r, t)"
  shows "r \<noteq> Inr () \<and> t = s"
proof (cases "ensure_signed libs origin")
  case (Inl e)
  with assms(2) show ?thesis by (auto simp: accept_svc_def)
next
  case (Inr d)
  have "never_busy s" by (rule runtime_run.reachable_inv [OF assms(1)])
  with Inr assms(2) show ?thesis
    by (cases "s_devices s d") (auto simp: accept_svc_def Let_def never_busy_def)
qed

theorem runtime_accept_is_refused_witness:
  "snd (accept_svc (runtime_service sample_env 200) (Some 100) False True empty_service) = empty_service"
proof -
  have "reachable service_init (service_step (runtime_service sample_env 200)) empty_service"
    by (rule reachable_init [of service_init, OF empty_service_init])
  from runtime_accept_is_refused [OF this prod.collapse [symmetric]] show ?thesis by blast
qed

section \<open>A report that arrives late\<close>

text \<open>
  Client 200 orders from device 100, the service chain takes the order. The client cancels it when
  it is overdue; the device registers again on the client chain, and client 201 orders from it.
  Only then the device completes the first order on the service chain.
\<close>

definition later_request :: "(account_id, order_payload) order_base" where
  "later_request = desk_request\<lparr>ob_until := 9000\<rparr>"

definition three_parties :: "nat \<Rightarrow> nat \<Rightarrow> nat \<Rightarrow> nat \<Rightarrow> nat \<Rightarrow> nat \<Rightarrow> account_id ledger" where
  "three_parties f r f' r' f'' r'' = [100 \<mapsto> \<lparr>acc_free = f, acc_reserved = r\<rparr>,
     200 \<mapsto> \<lparr>acc_free = f', acc_reserved = r'\<rparr>, 201 \<mapsto> \<lparr>acc_free = f'', acc_reserved = r''\<rparr>]"

definition stale_start ::
  "(account_id, order_payload, account_id ledger, account_id ledger) network" where
  "stale_start =
    \<lparr>client_chain = (sample_desk 3000 Ready None)
       \<lparr>h_currency := three_parties 1000000 0 1000000 0 1000000 0\<rparr>,
     service_chain = sample_state 3000 Ready None\<rparr>"

definition stale_ordered ::
  "(account_id, order_payload, account_id ledger, account_id ledger) network" where
  "stale_ordered =
    (let w = on_client stale_start (order_cli sample_env (Some 200) desk_request (client_chain stale_start));
         w = deliver_to_service (runtime_service sample_env 200) 100 w
     in deliver_to_client sample_env 100 200 w)"

definition stale_replaced ::
  "(account_id, order_payload, account_id ledger, account_id ledger) network" where
  "stale_replaced =
    (let w = client_clock 5000 stale_ordered;
         w = on_client w (cancel_cli sample_env (Some 200) 100 (client_chain w));
         w = on_client w (register_cli sample_env (Some 100) 200 10000 1000 True (client_chain w))
     in on_client w (order_cli sample_env (Some 201) later_request (client_chain w)))"

definition stale_reported ::
  "(account_id, order_payload, account_id ledger, account_id ledger) network" where
  "stale_reported =
    (let w = service_clock 5000 stale_replaced;
         w = deliver_to_service (runtime_service sample_env 200) 100 w;
         w = on_service w (done_svc (runtime_service sample_env 200) (Some 100) True (service_chain w))
     in deliver_to_client sample_env 100 200 w)"

lemma runtime_decode:
  "decode_with runtime_messages (encode_with runtime_messages m) = Some m"
  using runtime.decode_encode_message [of m "[]"] by simp

lemma stale_ordered_eq:
  "stale_ordered =
    \<lparr>client_chain = (sample_desk 3000 Busy (Some desk_order))
       \<lparr>h_currency := three_parties 990000 10000 900000 100000 1000000 0,
        c_events := [CeNewOrder 200 100, CeAccept 200 100]\<rparr>,
     service_chain = (sample_state 3000 Busy2 (Some (desk_order\<lparr>o_paraid := 100\<rparr>)))
       \<lparr>s_events := [EvNewOrder 100, EvAccept 100]\<rparr>\<rparr>"
proof -
  let ?s = "(sample_desk 3000 Ready None)\<lparr>h_currency := three_parties 1000000 0 1000000 0 1000000 0\<rparr>"
  have call: "snd (order_cli sample_env (Some 200) desk_request ?s) =
      (sample_desk 3000 Busy (Some desk_order))
       \<lparr>h_currency := three_parties 990000 10000 900000 100000 1000000 0,
        h_outbox := [(200, encode_with runtime_messages (NewOrder 200 desk_request))],
        c_events := [CeNewOrder 200 100]\<rparr>"
    by (simp add: order_cli_def desk_defs storage_cli_defs sample_defs host_call_defs Let_def
        order_convert_def three_parties_def fun_eq_iff)
  have take: "handle_blob_message_svc (runtime_service sample_env 200) 100 0
      (encode_with runtime_messages (NewOrder 200 desk_request)) (sample_state 3000 Ready None) =
      (sample_state 3000 Busy2 (Some (desk_order\<lparr>o_paraid := 100\<rparr>)))
       \<lparr>h_outbox := [(100, encode_with runtime_messages (OrderAccept 200 100))],
        s_events := [EvNewOrder 100, EvAccept 100]\<rparr>"
    by (simp add: handle_blob_message_svc_def runtime_decode order_received_svc_def
        order_accept_svc_def accept_on_receive_def desk_defs sample_state_defs storage_svc_defs
        queue_send_def host_call_defs Let_def fun_eq_iff)
  show ?thesis
    unfolding stale_ordered_def stale_start_def
    by (simp add: network_defs Let_def call take handle_blob_message_cli_def runtime_decode
        on_accept_cli_def deposit_event_cli_def)
      (simp add: sample_desk_def sample_state_def)
qed

lemma stale_replaced_eq:
  "stale_replaced =
    \<lparr>client_chain = (sample_desk 5000 Busy (Some (desk_order\<lparr>o_until := 9000, o_client := 201\<rparr>)))
       \<lparr>h_currency := three_parties 980000 10000 1010000 0 900000 100000,
        h_outbox := [(200, encode_with runtime_messages (NewOrder 201 later_request))],
        c_events := [CeNewOrder 200 100, CeAccept 200 100, CeReject 200 100, CeNewDevice 100,
          CeNewOrder 201 100]\<rparr>,
     service_chain = service_chain stale_ordered\<rparr>"
proof -
  let ?s = "(client_chain stale_ordered)\<lparr>h_now := 5000\<rparr>"
  have cancel: "snd (cancel_cli sample_env (Some 200) 100 ?s) =
      (sample_desk 5000 Busy None)\<lparr>h_currency := three_parties 990000 0 1010000 0 1000000 0,
        c_events := [CeNewOrder 200 100, CeAccept 200 100, CeReject 200 100]\<rparr>"
    by (simp add: stale_ordered_eq cancel_cli_def order_reject_cli_def desk_defs storage_cli_defs
        sample_defs host_call_defs Let_def three_parties_def fun_eq_iff)
  show ?thesis
    unfolding stale_replaced_def
    by (simp add: network_defs Let_def cancel)
      (simp add: register_cli_def order_cli_def later_request_def desk_defs storage_cli_defs
        sample_defs host_call_defs Let_def order_convert_def three_parties_def fun_eq_iff)
qed

text \<open>
  A report is matched to an order by the device alone. When the device completes an order
  after it was cancelled, and another client has ordered from it meanwhile, the report closes the
  order of the other client: the device is paid nothing, the deposit of the other client stays in
  reserve, and no open order is left that could release it.
\<close>

theorem stale_report_closes_next_order:
  "c_orders (client_chain stale_replaced) 100 = Some (desk_order\<lparr>o_until := 9000, o_client := 201\<rparr>) \<and>
   c_orders (client_chain stale_reported) = Map.empty \<and>
   ledger_reserved (h_currency (client_chain stale_reported)) 201 = 100000 \<and>
   owed (book_cli (client_chain stale_reported)) 201 = 0 \<and>
   ledger_free (h_currency (client_chain stale_reported)) 100
     = ledger_free (h_currency (client_chain stale_replaced)) 100 + 10000"
proof -
  let ?v = "(service_chain stale_ordered)\<lparr>h_now := 5000\<rparr>"
  have refuse: "handle_blob_message_svc (runtime_service sample_env 200) 100 0
      (encode_with runtime_messages (NewOrder 201 later_request)) ?v = ?v"
    by (simp add: handle_blob_message_svc_def runtime_decode order_received_svc_def
        stale_ordered_eq later_request_def desk_defs sample_state_def)
  have complete: "h_outbox (snd (done_svc (runtime_service sample_env 200) (Some 100) True ?v)) =
      [(100, encode_with runtime_messages (OrderDone 200 100 True))]"
    by (simp add: stale_ordered_eq done_svc_def order_done_svc_def desk_defs sample_state_defs
        storage_svc_defs queue_send_def host_call_defs signed_by_def Let_def)
  have final: "client_chain stale_reported = snd (on_done_cli sample_env 200 100 True
      ((client_chain stale_replaced)\<lparr>h_outbox := []\<rparr>))"
    unfolding stale_reported_def
    by (simp add: network_defs Let_def stale_replaced_eq refuse complete
        handle_blob_message_cli_def runtime_decode)
  have eval: "c_orders (client_chain stale_reported) = Map.empty"
    "h_currency (client_chain stale_reported) = three_parties 990000 0 1010000 0 900000 100000"
    unfolding final
    by (simp_all add: stale_replaced_eq on_done_cli_def desk_defs storage_cli_defs sample_defs
        host_call_defs Let_def three_parties_def fun_eq_iff)
  then have "book_cli (client_chain stale_reported) = Map.empty" by (auto simp: book_cli_def)
  with eval show ?thesis
    by (simp add: stale_replaced_eq sample_desk_def ledger_observers three_parties_def)
qed

end
