(* ===== verification/Recovery.thy ===== *)
theory Recovery
  imports NetworkProps ClientHistory
begin

text \<open>
  Ways out: an order that is past its deadline can always be closed by its client, on either chain,
  and the device can then register again. The last section shows that an order message from the
  chain itself is an order call.
\<close>

section \<open>The service chain\<close>

lemma send_succeeds:
  assumes "sends_ok cfg"
  obtains t where "send_message_now cfg para m err s = (Inr (), t)"
proof (cases "send_message_now cfg para m err s")
  case (Pair r t)
  then show ?thesis using that assms by (cases r) (auto dest: send_fails)
qed

context currency
begin

lemma repatriate_after_unreserve:
  assumes "alive c b"
  shows "\<exists>rest c'. repatriate_reserved cur a b v Free (snd (unreserve cur x u c)) = (Inr rest, c')"
  using unreserve_moves [OF prod.collapse [symmetric], of x u c] assms repatriate_alive by metis

end

lemma overdue_reject_succeeds:
  assumes "currency (currency_impl cfg) free reserved alive ed" and "o_until od \<le> now"
    and "o_paraid od = self_para_id cfg \<Longrightarrow> alive (h_currency s) (o_client od)"
    and "o_paraid od \<noteq> self_para_id cfg \<Longrightarrow> sends_ok cfg"
  obtains t where "order_reject_svc cfg (Some od) now d dev onoff s = (Inr (), t)"
proof (cases "o_paraid od = self_para_id cfg")
  case True
  have late: "\<not> now < o_until od" using assms(2) by simp
  from currency.repatriate_after_unreserve [OF assms(1) assms(3) [OF True]]
  obtain rest c where "repatriate_reserved (currency_impl cfg) d (o_client od) (dev_penalty dev) Free
      (h_currency (unreserve_now cfg (o_client od) (o_fee od) s)) = (Inr rest, c)"
    by (fastforce simp: unreserve_now_def)
  with True late that show ?thesis
    by (simp add: order_reject_svc_def Let_def repatriate_now_def)
next
  case False
  obtain t where "send_message_now cfg (o_paraid od) (OrderReject (o_client od) d onoff)
      CannotReachDestination s = (Inr (), t)"
    using send_succeeds [OF assms(4) [OF False]] .
  with False that show ?thesis by (simp add: order_reject_svc_def)
qed

lemma register_frees:
  assumes "ensure_signed cfg origin = Inr d" and "s_orders s d = None"
  shows "\<exists>u. register_svc cfg origin pen w onoff s = (Inr (), u) \<and> s_orders u = s_orders s \<and>
    s_devices u = (s_devices s)(d \<mapsto>
      \<lparr>dev_state = state_of_onoff onoff, dev_penalty = pen, dev_wcd = w\<rparr>)"
  using assms by (simp add: register_svc_def state_of_onoff_def)

text \<open>
  Claim C18. No order lasts for ever, with a hook that answers with a busy state or refuses: in
  every state the service chain can reach, the client of an order past its deadline can cancel it,
  provided the client's account exists here or, for an order of another chain, the channel takes
  the message; and the device can register right after and is ready for the next order, while no
  other device and no other order is touched.
\<close>

theorem overdue_order_can_be_cleared:
  assumes "currency (currency_impl cfg) free reserved alive ed" and "receiver_ok cfg"
    and "reachable service_init (service_step cfg) s"
    and "s_orders s d = Some od" and "o_until od \<le> h_now s"
    and "ensure_signed cfg client = Inr (o_client od)" and "ensure_signed cfg device = Inr d"
    and "o_paraid od = self_para_id cfg \<Longrightarrow> alive (h_currency s) (o_client od)"
    and "o_paraid od \<noteq> self_para_id cfg \<Longrightarrow> sends_ok cfg"
  shows "\<exists>t u. cancel_svc cfg client d s = (Inr (), t) \<and>
    register_svc cfg device pen w True t = (Inr (), u) \<and>
    phase_svc u d = Idle True \<and> s_orders u = (s_orders s)(d := None) \<and>
    (\<forall>x. x \<noteq> d \<longrightarrow> s_devices u x = s_devices s x)"
proof -
  have "service_wf s" using service_run.reachable_inv [OF assms(3)] assms(2) by simp
  then obtain p where p: "s_devices s d = Some p" using service_wf_order assms(4) by metis
  obtain t where t: "order_reject_svc cfg (Some od) (h_now s) d p False s = (Inr (), t)"
    using overdue_reject_succeeds [OF assms(1,5,8,9)] .
  have "cancel_svc cfg client d s = (Inr (), t)"
    using assms(4-6) p t by (auto simp: cancel_svc_def Let_def)
  moreover have store: "s_devices t = (s_devices s)(d \<mapsto> p)" "s_orders t = (s_orders s)(d := None)"
    using order_reject_storage [OF t] by auto
  moreover obtain u where "register_svc cfg device pen w True t = (Inr (), u)"
    "s_orders u = s_orders t" "s_devices u = (s_devices t)(d \<mapsto>
      \<lparr>dev_state = state_of_onoff True, dev_penalty = pen, dev_wcd = w\<rparr>)"
    using register_frees [OF assms(7), of t pen w True] store by auto
  ultimately show ?thesis by (auto simp: phase_svc_def)
qed

definition overdue_service ::
  "(account_id, order_payload, account_id ledger, outbox) service_state" where
  "overdue_service = ordered_service\<lparr>h_now := 6000\<rparr>"

lemma overdue_service_reachable:
  "reachable service_init (service_step sample_service) overdue_service"
proof -
  have "service_step sample_service ordered_service (ordered_service
      \<lparr>h_now := 6000, h_currency := h_currency ordered_service, h_outbox := h_outbox ordered_service\<rparr>)"
    by (rule environment) (simp add: ordered_service_eq sample_state_def)
  then show ?thesis
    using reachable_step [OF ordered_service_reachable] by (simp add: overdue_service_def)
qed

theorem overdue_order_can_be_cleared_witness:
  "\<exists>t u. cancel_svc sample_service (Some 200) 100 overdue_service = (Inr (), t) \<and>
    register_svc sample_service (Some 100) 5 5 True t = (Inr (), u) \<and> phase_svc u 100 = Idle True"
proof -
  let ?s = overdue_service and ?od = "the (s_orders overdue_service 100)"
  have od: "s_orders ?s 100 = Some (sample_order 200)"
    by (simp add: overdue_service_def ordered_service_eq sample_state_def)
  have "\<exists>t u. cancel_svc sample_service (Some 200) 100 ?s = (Inr (), t) \<and>
    register_svc sample_service (Some 100) 5 5 True t = (Inr (), u) \<and>
    phase_svc u 100 = Idle True \<and> s_orders u = (s_orders ?s)(100 := None) \<and>
    (\<forall>x. x \<noteq> 100 \<longrightarrow> s_devices u x = s_devices ?s x)"
    by (rule overdue_order_can_be_cleared [OF sample_currency sample_receiver_ok
          overdue_service_reachable od])
      (simp_all add: overdue_service_def ordered_service_eq sample_state_defs signed_by_def
        ledger_observers)
  then show ?thesis by blast
qed

section \<open>The client chain\<close>

lemma overdue_desk_reject_succeeds:
  assumes "currency (currency_impl cfg) free reserved alive ed" and "o_until od \<le> now"
    and "alive (h_currency s) (o_client od)"
  obtains t where "order_reject_cli cfg who od now d dev s = (Inr (), t)"
proof -
  have late: "\<not> now < o_until od" using assms(2) by simp
  from currency.repatriate_after_unreserve [OF assms(1,3)]
  obtain rest c where "repatriate_reserved (currency_impl cfg) d (o_client od) (dvc_penalty dev) Free
      (h_currency (unreserve_now cfg who (o_fee od) s)) = (Inr rest, c)"
    by (fastforce simp: unreserve_now_def)
  with late that show ?thesis by (simp add: order_reject_cli_def Let_def repatriate_now_def)
qed

text \<open>
  Claim C19. The same on the client chain: whatever messages have or have not arrived, and also when
  the order was never sent, the client of an order past its deadline can cancel it as long as its
  account exists, and the device can then register and is ready again.
\<close>

theorem overdue_desk_order_can_be_cleared:
  assumes "currency (currency_impl cfg) free reserved alive ed"
    and "reachable client_init (client_step cfg) s"
    and "c_orders s d = Some od" and "o_until od \<le> h_now s"
    and "ensure_signed cfg client = Inr (o_client od)" and "ensure_signed cfg device = Inr d"
    and "alive (h_currency s) (o_client od)"
  shows "\<exists>t u. cancel_cli cfg client d s = (Inr (), t) \<and>
    register_cli cfg device para pen w True t = (Inr (), u) \<and>
    desk_phase u d = Free_desk True \<and> c_orders u = (c_orders s)(d := None) \<and>
    (\<forall>x. x \<noteq> d \<longrightarrow> c_devices u x = c_devices s x)"
proof -
  have "client_wf s" by (rule client_run.reachable_inv [OF assms(2)])
  then obtain p where p: "c_devices s d = Some p" using client_wf_order assms(3) by metis
  obtain t where t: "order_reject_cli cfg (o_client od) od (h_now s) d p s = (Inr (), t)"
    using overdue_desk_reject_succeeds [OF assms(1,4,7)] .
  have "cancel_cli cfg client d s = (Inr (), t)"
    using assms(3-5) p t by (auto simp: cancel_cli_def Let_def)
  moreover have store: "c_devices t = (c_devices s)(d \<mapsto> p)" "c_orders t = (c_orders s)(d := None)"
    using order_reject_cli_storage [OF t] by auto
  moreover have "\<exists>u. register_cli cfg device para pen w True t = (Inr (), u) \<and>
      c_orders u = c_orders t \<and> c_devices u = (c_devices t)(d \<mapsto>
        \<lparr>dvc_state = Ready, dvc_penalty = pen, dvc_wcd = w, dvc_paraid = para\<rparr>)"
    using assms(6) store by (simp add: register_cli_def)
  ultimately show ?thesis by (auto simp: desk_phase_def)
qed

definition overdue_desk ::
  "(account_id, order_payload, account_id ledger, outbox) client_state" where
  "overdue_desk = ordered_desk\<lparr>h_now := 6000\<rparr>"

lemma overdue_desk_reachable: "reachable client_init (client_step sample_env) overdue_desk"
proof -
  have "client_step sample_env ordered_desk (ordered_desk
      \<lparr>h_now := 6000, h_currency := h_currency ordered_desk, h_outbox := h_outbox ordered_desk\<rparr>)"
    by (rule client_environment) (simp add: ordered_desk_eq sample_desk_def)
  then show ?thesis using reachable_step [OF desk_runs(1)] by (simp add: overdue_desk_def)
qed

theorem overdue_desk_order_can_be_cleared_witness:
  "\<exists>t u. cancel_cli sample_env (Some 200) 100 overdue_desk = (Inr (), t) \<and>
    register_cli sample_env (Some 100) 200 5 5 True t = (Inr (), u) \<and> desk_phase u 100 = Free_desk True"
proof -
  let ?s = overdue_desk
  have od: "c_orders ?s 100 = Some desk_order"
    by (simp add: overdue_desk_def ordered_desk_eq sample_desk_def)
  have "\<exists>t u. cancel_cli sample_env (Some 200) 100 ?s = (Inr (), t) \<and>
    register_cli sample_env (Some 100) 200 5 5 True t = (Inr (), u) \<and>
    desk_phase u 100 = Free_desk True \<and> c_orders u = (c_orders ?s)(100 := None) \<and>
    (\<forall>x. x \<noteq> 100 \<longrightarrow> c_devices u x = c_devices ?s x)"
    by (rule overdue_desk_order_can_be_cleared [OF desk_currency overdue_desk_reachable od])
      (simp_all add: overdue_desk_def ordered_desk_eq desk_defs signed_by_def ledger_observers)
  then show ?thesis by blast
qed

section \<open>The hook of the runtime\<close>

text \<open>The service chain without the hook: its devices accept by hand.\<close>

definition accept_by_hand ::
  "('o, 'a, 'p, 'c, 'q) service_config \<Rightarrow> ('o, 'a, 'p, 'c, 'q) service_config" where
  "accept_by_hand cfg = cfg\<lparr>on_received := on_received_unit\<rparr>"

lemma accept_by_hand_fields [simp]:
  "ensure_signed (accept_by_hand cfg) = ensure_signed cfg"
  "currency_impl (accept_by_hand cfg) = currency_impl cfg"
  "send_blob_message (accept_by_hand cfg) = send_blob_message cfg"
  "message_impl (accept_by_hand cfg) = message_impl cfg"
  "self_para_id (accept_by_hand cfg) = self_para_id cfg"
  "on_received (accept_by_hand cfg) = on_received_unit"
  by (simp_all add: accept_by_hand_def)

lemma by_hand_sends:
  "send_message_now (accept_by_hand cfg) para m err s = send_message_now cfg para m err s"
  by (simp add: send_message_now_def send_blob_now_def)

lemma by_hand_calls:
  "can_reserve_now (accept_by_hand cfg) a v s = can_reserve_now cfg a v s"
  "reserve_now (accept_by_hand cfg) = reserve_now cfg"
  "order_accept_svc (accept_by_hand cfg) od now d dev s = order_accept_svc cfg od now d dev s"
  by (simp_all add: fun_eq_iff can_reserve_now_def reserve_now_def order_accept_svc_def
      by_hand_sends Let_def)

lemma accept_overwrites:
  "order_accept_svc cfg od now d (dev\<lparr>dev_state := st\<rparr>) s = order_accept_svc cfg od now d dev s"
  "order_accept_svc cfg od now d dev (put_device_svc d p s) = order_accept_svc cfg od now d dev s"
  by (simp_all add: order_accept_svc_def put_device_svc_def)

lemma taken_order_is_accepted:
  assumes "ensure_signed cfg origin = Inr d" and "h_now s < o_until od"
    and "h_now u = h_now s" and "s_orders u d = Some od"
  shows "accept_svc (accept_by_hand cfg) origin False onoff (put_device_svc d (dev\<lparr>dev_state := Busy\<rparr>) u)
    = (Inr (), order_accept_svc cfg od (h_now s) d (dev\<lparr>dev_state := Busy2\<rparr>) u)"
  using assms
  using accept_overwrites(2) [of cfg od "h_now s" d dev "dev\<lparr>dev_state := Busy\<rparr>" u]
  by (simp add: accept_svc_def Let_def not_le by_hand_calls accept_overwrites(1) put_device_svc_def)

text \<open>The deposits an order of the own chain needs, and an order that passes the checks before them.\<close>

definition take_deposits ::
  "('o, 'a, 'p, 'c, 'q) service_config \<Rightarrow> ('a, 'p) order \<Rightarrow> 'a \<Rightarrow> device_profile_svc \<Rightarrow>
   ('a, 'p, 'c, 'q) service_state \<Rightarrow> ('a, 'p, 'c, 'q) service_result" where
  "take_deposits cfg od d p s =
    (if o_paraid od = self_para_id cfg then
       (if \<not> can_reserve_now cfg (o_client od) (o_fee od) s then (Inl (Pallet DeviceLowBail), s)
        else and_then (reserve_now cfg d (dev_penalty p) s)
          (\<lambda>_ s. reserve_now cfg (o_client od) (o_fee od) s))
     else (Inr (), s))"

lemma take_deposits_facts:
  "take_deposits (accept_by_hand cfg) od d p s = take_deposits cfg od d p s"
  "take_deposits cfg od d p s = (Inr (), u) \<Longrightarrow> h_now u = h_now s"
  by (auto simp: take_deposits_def by_hand_calls reserve_now_def and_then_def
      split: if_splits prod.splits sum.splits)

lemma received_checked:
  assumes "admissible_svc cfg od d s p st"
  shows "order_received_svc cfg od d s = and_then (take_deposits cfg od d p s) (\<lambda>_ u.
    let u = deposit_event_svc (EvNewOrder d) (put_order_svc d od u); dev = p\<lparr>dev_state := st\<rparr>
    in (Inr (), if st = Busy2 then order_accept_svc cfg od (h_now s) d dev u
                else put_device_svc d dev u))"
proof -
  have "\<not> o_until od \<le> h_now s" "\<not> o_until od < h_now s + dev_wcd p"
    using assms by (simp_all add: admissible_svc_def not_le not_less)
  with assms show ?thesis
    by (simp add: admissible_svc_def order_received_svc_def take_deposits_def Let_def)
qed

lemma hook_refused:
  assumes "\<nexists>p. admissible_svc (runtime_service libs para) od d s p Busy2"
  shows "order_received_svc (runtime_service libs para) od d s
    = order_received_svc (accept_by_hand (runtime_service libs para)) od d s"
    and "fst (order_received_svc (runtime_service libs para) od d s) \<noteq> Inr ()"
  using assms
  by (cases "s_devices s d"; auto simp: order_received_svc_def admissible_svc_def
      accept_on_receive_def Let_def not_le not_less)+

text \<open>
  Claim C33. The hook of the runtime is an acceptance by the device and nothing else: taking an order
  with it, whatever the order and whether or not it is taken, has the same result and leaves the
  same chain as taking it without the hook and letting the device accept it in the same block.
\<close>

theorem hook_is_immediate_acceptance:
  fixes s :: "('a, 'p, 'c, 'q) service_state"
  assumes "ensure_signed libs origin = Inr d"
  shows "order_received_svc (runtime_service libs para) od d s =
    and_then (order_received_svc (accept_by_hand (runtime_service libs para)) od d s)
      (\<lambda>_ t. accept_svc (accept_by_hand (runtime_service libs para)) origin False onoff t)"
proof (cases "\<exists>p. admissible_svc (runtime_service libs para) od d s p Busy2")
  case False
  obtain q t where op: "order_received_svc (runtime_service libs para) od d s = (q, t)" by fastforce
  with hook_refused(2) [OF False] obtain e where "q = Inl e" by (cases q) auto
  with op hook_refused(1) [OF False] show ?thesis by simp
next
  case True
  let ?cfg = "runtime_service libs para"
  from True obtain p where hook: "admissible_svc ?cfg od d s p Busy2" by blast
  then have hand: "admissible_svc (accept_by_hand ?cfg) od d s p Busy" and now: "h_now s < o_until od"
    by (simp_all add: admissible_svc_def on_received_unit_def)
  obtain q u where pay: "take_deposits ?cfg od d p s = (q, u)" by fastforce
  show ?thesis
  proof (cases q)
    case (Inl e)
    with pay show ?thesis by (simp add: received_checked [OF hook] received_checked [OF hand]
        take_deposits_facts(1))
  next
    case (Inr v)
    with pay have "h_now u = h_now s" using take_deposits_facts(2) by simp
    with pay Inr assms now show ?thesis
      by (simp add: received_checked [OF hook] received_checked [OF hand] take_deposits_facts(1)
          Let_def taken_order_is_accepted [of ?cfg origin d s] put_order_svc_def deposit_event_svc_def)
  qed
qed

definition signed_runtime ::
  "(signed_origin, account_id, order_payload, account_id ledger, outbox) service_config" where
  "signed_runtime = runtime_service sample_env 200"

theorem hook_is_immediate_acceptance_witness:
  "s_devices (snd (order_received_svc signed_runtime (sample_order 7) 100 (sample_state 3000 Ready None)))
      100 = Some (sample_profile Busy2) \<and>
    and_then (order_received_svc (accept_by_hand signed_runtime) (sample_order 7) 100
        (sample_state 3000 Ready None))
      (\<lambda>_ t. accept_svc (accept_by_hand signed_runtime) (Some 100) False True t)
    = order_received_svc signed_runtime (sample_order 7) 100 (sample_state 3000 Ready None)"
proof -
  have "ensure_signed sample_env (Some 100) = Inr 100" by (simp add: sample_env_def signed_by_def)
  from hook_is_immediate_acceptance [OF this, of 200 "sample_order 7" "sample_state 3000 Ready None" True]
  have "order_received_svc signed_runtime (sample_order 7) 100 (sample_state 3000 Ready None)
    = and_then (order_received_svc (accept_by_hand signed_runtime) (sample_order 7) 100
        (sample_state 3000 Ready None))
      (\<lambda>_ t. accept_svc (accept_by_hand signed_runtime) (Some 100) False True t)"
    by (simp only: signed_runtime_def)
  moreover have "s_devices (snd (order_received_svc signed_runtime (sample_order 7) 100
      (sample_state 3000 Ready None))) 100 = Some (sample_profile Busy2)"
    by (simp add: signed_runtime_def order_received_svc_def order_accept_svc_def
        accept_on_receive_def sample_state_defs storage_svc_defs host_call_defs queue_send_def Let_def)
  ultimately show ?thesis by metis
qed

section \<open>Orders from the chain itself\<close>

text \<open>
  A message of the own chain is as good as a signature: when the chain receives an order
  that names itself as the sender, it does exactly what the order call of that client does, with
  the deposits taken from the client the message names.
\<close>

theorem own_message_is_order_call:
  assumes "decode_with (message_impl cfg) blob = Some (NewOrder who ob)"
    and "ensure_signed cfg origin = Inr who"
  shows "handle_blob_message_svc cfg (self_para_id cfg) n blob s = snd (order_svc cfg origin ob s)"
  using assms by (simp add: handle_blob_message_svc_def order_svc_def)

theorem own_message_is_order_call_witness:
  "handle_blob_message_svc (runtime_service sample_env 200) 200 7
      (encode_with runtime_messages (NewOrder 200 desk_request)) (sample_state 3000 Ready None)
    = snd (order_svc (runtime_service sample_env 200) (Some 200) desk_request
        (sample_state 3000 Ready None))"
proof -
  have "decode_with (message_impl (runtime_service sample_env 200))
      (encode_with runtime_messages (NewOrder 200 desk_request)) = Some (NewOrder 200 desk_request)"
    using runtime.decode_encode_message [of "NewOrder 200 desk_request" "[]"] by simp
  from own_message_is_order_call [OF this, of "Some 200" 7 "sample_state 3000 Ready None"]
  show ?thesis by (simp add: signed_by_def)
qed

end
