(* ===== verification/ServiceHistory.thy ===== *)
theory ServiceHistory
  imports ServiceRuleProps
begin

text \<open>
  The events of the service pallet as a record of the life of each device. \<open>phase_event\<close> labels
  the life cycle automaton with the events that an input deposits; over a run, the events about a
  device form a word of the order protocol, and its last event tells the phase the device is in.
\<close>

section \<open>The labelled life cycle\<close>

fun event_device :: "'a service_event \<Rightarrow> 'a option" where
  "event_device (EvNewDevice d) = Some d"
| "event_device (EvNewOrder d) = Some d"
| "event_device (EvAccept d) = Some d"
| "event_device (EvReject d) = Some d"
| "event_device (EvDone d) = Some d"
| "event_device (EvBadVersion h) = None"
| "event_device (EvMessageReceived b) = None"

inductive phase_event :: "'a \<Rightarrow> ('a, 'p) phase \<Rightarrow> 'a service_event list \<Rightarrow> ('a, 'p) phase \<Rightarrow> bool"
  for d where
  unrelated: "list_all (\<lambda>e. event_device e = None) evs \<Longrightarrow> phase_event d p evs p"
| registers: "p \<in> {Absent, Idle b', Abandoned} \<Longrightarrow> phase_event d p [EvNewDevice d] (Idle b)"
| switches: "phase_event d (Idle b) [] (Idle b')"
| offers: "phase_event d (Idle True) [EvNewOrder d] (Offered od)"
| takes: "phase_event d (Idle True) [EvNewOrder d, EvAccept d] (Working od)"
| accepts: "phase_event d (Offered od) [EvAccept d] (Working od)"
| refuses: "p \<in> {Offered od, Working od, Abandoned} \<Longrightarrow> phase_event d p [EvReject d] (Idle b)"
| cancels: "p \<in> {Offered od, Working od} \<Longrightarrow> phase_event d p [EvReject d] Abandoned"
| finishes: "phase_event d (Working od) [EvDone d] (Idle b)"
| fails: "phase_event d (Working od) [] (Idle b)"
| leaves: "phase_event d (Idle False) [] Absent"

text \<open>One input: one device, its edge, and the events on it.\<close>

definition recorded_move ::
  "('a, 'p, 'c, 'q) service_state \<Rightarrow> ('a, 'p, 'c, 'q) service_state \<Rightarrow> 'a \<Rightarrow> bool" where
  "recorded_move s t d \<longleftrightarrow>
    (\<forall>x. x \<noteq> d \<longrightarrow> phase_svc t x = phase_svc s x) \<and>
    (\<exists>evs. s_events t = s_events s @ evs \<and> phase_event d (phase_svc s d) evs (phase_svc t d))"

lemma recordedI:
  assumes "s_devices t = (s_devices s)(d := p)" and "s_orders t = (s_orders s)(d := od)"
    and "s_events t = s_events s @ evs"
    and "phase_event d (phase_svc s d) evs (phase_of p od)"
  shows "recorded_move s t d"
  using assms by (auto simp: recorded_move_def phase_svc_def)

lemma recorded_quiet:
  assumes "s_devices t = s_devices s" and "s_orders t = s_orders s"
    and "s_events t = s_events s @ evs" and "list_all (\<lambda>e. event_device e = None) evs"
  shows "recorded_move s t d"
  using assms by (auto simp: recorded_move_def phase_svc_def intro: unrelated)

lemma recorded_same:
  "s_devices t = s_devices s \<Longrightarrow> s_orders t = s_orders s \<Longrightarrow> s_events t = s_events s \<Longrightarrow>
    recorded_move s t d"
  by (rule recorded_quiet [where evs = "[]"]) simp_all

section \<open>What each operation records\<close>

lemma storage_svc_events [simp]:
  "s_events (put_device_svc d p s) = s_events s"
  "s_events (remove_device_svc d s) = s_events s"
  "s_events (put_order_svc d od s) = s_events s"
  "s_events (remove_order_svc d s) = s_events s"
  "s_events (deposit_event_svc ev s) = s_events s @ [ev]"
  by (simp_all add: storage_svc_defs)

lemma accept_svc_events [simp]:
  "s_events (order_accept_svc cfg od now d dev s) = s_events s @ [EvAccept d]"
  by (simp add: order_accept_svc_def Let_def)

lemma reject_svc_events:
  assumes "order_reject_svc cfg ord now d dev onoff s = (r, t)"
  shows "s_events t = s_events s @ (if r = Inr () then [EvReject d] else [])"
  using assms
  by (auto simp: order_reject_svc_def Let_def and_then_def host_calls_svc
      split: option.splits if_splits prod.splits sum.splits)

lemma done_svc_events:
  assumes "order_done_svc cfg od now d dev onoff s = (r, t)"
  shows "s_events t = s_events s @ (if r = Inr () then [EvDone d] else [])"
  using assms
  by (auto simp: order_done_svc_def Let_def and_then_def host_calls_svc
      split: option.splits if_splits prod.splits sum.splits)

lemma received_svc_events:
  assumes "order_received_svc cfg od d s = (Inr (), t)" and "on_received cfg d od = Some st"
  shows "s_events t = s_events s @ (if st = Busy2 then [EvNewOrder d, EvAccept d] else [EvNewOrder d])"
  using assms
  by (auto simp: order_received_svc_def Let_def and_then_def try_pure_def host_calls_svc
      split: option.splits if_splits prod.splits sum.splits)

lemma received_recorded:
  assumes "receiver_ok cfg" and "order_received_svc cfg od d s = (r, t)"
  shows "recorded_move s t d"
  using order_received_storage [OF assms(2)]
proof (elim disjE exE conjE)
  fix dev st
  assume rcv: "on_received cfg d od = Some st" and r: "r = Inr ()"
    and *: "s_devices s d = Some dev" "dev_state dev = Ready" "s_orders s d = None"
    "s_devices t = (s_devices s)(d \<mapsto> dev\<lparr>dev_state := st\<rparr>)"
    "s_orders t = (s_orders s)(d \<mapsto> od)"
  from rcv assms(1) have "st = Busy \<or> st = Busy2" unfolding receiver_ok_def by blast
  with received_svc_events [OF assms(2) [unfolded r] rcv] *(1-3)
  show ?thesis
    by (intro recordedI [OF *(4,5)]) (auto simp: phase_svc_def intro: phase_event.intros)
next
  assume "r \<noteq> Inr ()" "s_devices t = s_devices s" "s_orders t = s_orders s"
  then show ?thesis
    using assms(2) received_events_error [of cfg od d s _ t] by (cases r) (auto intro: recorded_same)
qed

lemma cancel_recorded:
  assumes "service_wf s" and "cancel_svc cfg origin d s = (r, t)"
  shows "recorded_move s t d"
  using cancel_cases [OF assms(2)]
proof (elim disjE exE conjE)
  fix od dev
  assume od: "s_orders s d = Some od" and dev: "s_devices s d = Some dev"
    and rej: "order_reject_svc cfg (Some od) (h_now s) d dev False s = (r, t)"
  from service_wf_order [OF assms(1) od] dev have state: "dev_state dev = Busy \<or> dev_state dev = Busy2"
    by auto
  from order_reject_storage [OF rej] show ?thesis
  proof (elim disjE conjE)
    assume "r = Inr ()" "s_devices t = (s_devices s)(d \<mapsto> dev)" "s_orders t = (s_orders s)(d := None)"
    with reject_svc_events [OF rej] od dev state show ?thesis
      by (intro recordedI) (auto simp: phase_svc_def intro: phase_event.intros)
  qed (use reject_svc_events [OF rej] in \<open>auto intro: recorded_same\<close>)
qed (auto intro: recorded_same)

lemma accept_recorded:
  assumes "accept_svc cfg origin rej onoff s = (r, t)"
  shows "\<exists>d. recorded_move s t d"
proof -
  consider (same) "t = s"
    | (reject) d dev where "s_devices s d = Some dev" "dev_state dev = Busy \<or> dev_state dev = Busy2"
        "order_reject_svc cfg (s_orders s d) (h_now s) d (dev\<lparr>dev_state := state_of_onoff onoff\<rparr>)
           onoff s = (r, t)"
    | (accept) d dev od where "s_devices s d = Some dev" "dev_state dev = Busy"
        "s_orders s d = Some od" "t = order_accept_svc cfg od (h_now s) d dev s"
    using accept_cases [OF assms] by blast
  then show ?thesis
  proof cases
    case same
    then show ?thesis by (auto intro: recorded_same)
  next
    case reject
    from order_reject_storage [OF reject(3)] show ?thesis
    proof (elim disjE conjE)
      assume "r = Inr ()" "s_devices t = (s_devices s)(d \<mapsto> dev\<lparr>dev_state := state_of_onoff onoff\<rparr>)"
        "s_orders t = (s_orders s)(d := None)"
      with reject_svc_events [OF reject(3)] reject(1,2) have "recorded_move s t d"
        by (intro recordedI; cases "s_orders s d") (auto simp: phase_svc_def intro: phase_event.intros)
      then show ?thesis ..
    qed (use reject_svc_events [OF reject(3)] in \<open>auto intro: recorded_same\<close>)
  next
    case accept
    then have "recorded_move s t d"
      by (intro recordedI [where od = "Some od"]) (auto simp: phase_svc_def intro: phase_event.intros)
    then show ?thesis ..
  qed
qed

lemma done_recorded:
  assumes "done_svc cfg origin onoff s = (r, t)"
  shows "\<exists>d. recorded_move s t d"
  using done_cases [OF assms]
proof (elim disjE exE conjE)
  fix d dev od
  assume s: "s_devices s d = Some dev" "dev_state dev = Busy2" "s_orders s d = Some od"
    and op: "order_done_svc cfg od (h_now s) d dev onoff (remove_order_svc d s) = (r, t)"
  have "recorded_move s t d"
    using order_done_storage [OF op] done_svc_events [OF op] s
    by (intro recordedI [where od = None]) (auto simp: phase_svc_def intro: phase_event.intros)
  then show ?thesis ..
qed (auto intro: recorded_same)

lemma register_recorded:
  assumes "service_wf s" and "register_svc cfg origin pen w onoff s = (r, t)"
  shows "\<exists>d. recorded_move s t d"
proof (cases "\<exists>d. ensure_signed cfg origin = Inr d \<and> s_orders s d = None")
  case True
  then obtain d where d: "ensure_signed cfg origin = Inr d" "s_orders s d = None" by blast
  have "phase_svc s d \<noteq> Stray" using assms(1) by (simp add: service_wf_def)
  then have "phase_event d (phase_svc s d) [EvNewDevice d] (Idle onoff)"
    using d(2) by (cases "s_devices s d"; cases "dev_state (the (s_devices s d))")
      (auto simp: phase_svc_def intro: registers)
  with d assms(2) have "recorded_move s t d"
    by (intro recordedI [where od = None and
          p = "Some \<lparr>dev_state = state_of_onoff onoff, dev_penalty = pen, dev_wcd = w\<rparr>"])
      (auto simp: register_svc_def onoff_if)
  then show ?thesis ..
next
  case False
  with assms(2) have "t = s" by (auto simp: register_svc_def try_pure_def split: sum.splits if_splits)
  then show ?thesis by (auto intro: recorded_same)
qed

text \<open>A device that is switched off or on, or removed, has no order.\<close>

lemma idle_no_order:
  assumes "service_wf s" and "s_devices s d = Some p" and "dev_state p = Off \<or> dev_state p = Ready"
  shows "s_orders s d = None"
proof (cases "s_orders s d")
  case (Some od)
  obtain q where "s_devices s d = Some q" "dev_state q = Busy \<or> dev_state q = Busy2"
    using service_wf_order [OF assms(1) Some] .
  with assms(2,3) show ?thesis by auto
qed

lemma set_state_cases:
  assumes "set_state_svc cfg origin onoff s = (r, t)"
  shows "t = s \<or> (\<exists>d p x. s_devices s d = Some p \<and> (dev_state p = Off \<or> dev_state p = Ready) \<and>
    (x = Off \<or> x = Ready) \<and> t = put_device_svc d (p\<lparr>dev_state := x\<rparr>) s)"
proof (cases "ensure_signed cfg origin")
  case (Inr d)
  show ?thesis
  proof (cases "s_devices s d")
    case (Some p)
    with Inr assms show ?thesis by (cases "dev_state p"; cases onoff) (auto simp: set_state_svc_def)
  qed (use Inr assms in \<open>auto simp: set_state_svc_def\<close>)
qed (use assms in \<open>auto simp: set_state_svc_def\<close>)

lemma set_state_recorded:
  assumes "service_wf s" and "set_state_svc cfg origin onoff s = (r, t)"
  shows "\<exists>d. recorded_move s t d"
proof (cases "t = s")
  case False
  with set_state_cases [OF assms(2)] obtain d p x where
    p: "s_devices s d = Some p" and idle: "dev_state p = Off \<or> dev_state p = Ready"
    and t: "x = Off \<or> x = Ready" "t = put_device_svc d (p\<lparr>dev_state := x\<rparr>) s" by blast
  have "recorded_move s t d"
    using p idle t idle_no_order [OF assms(1) p idle]
    by (intro recordedI [where od = None and evs = "[]"]) (auto simp: phase_svc_def intro: switches)
  then show ?thesis ..
qed (auto intro: recorded_same)

lemma killed_recorded:
  assumes "service_wf s"
  shows "recorded_move s (on_killed_account_svc d s) d"
proof (cases "\<exists>p. s_devices s d = Some p \<and> dev_state p = Off")
  case True
  then obtain p where p: "s_devices s d = Some p" "dev_state p = Off" by blast
  then show ?thesis
    using idle_no_order [OF assms p(1)]
    by (intro recordedI [where p = None and od = None and evs = "[]"])
      (auto simp: phase_svc_def on_killed_account_svc_def intro: leaves)
next
  case False
  then have "on_killed_account_svc d s = s"
    by (auto simp: on_killed_account_svc_def split: option.splits)
  then show ?thesis by (auto intro: recorded_same)
qed

lemma blob_recorded:
  assumes "receiver_ok cfg"
  shows "\<exists>d. recorded_move s (handle_blob_message_svc cfg p n b s) d"
proof (cases "decode_with (message_impl cfg) b")
  case None
  then show ?thesis by (auto simp: handle_blob_message_svc_def intro: recorded_same)
next
  case (Some m)
  then show ?thesis
    using received_recorded [OF assms prod.collapse [symmetric]]
    by (cases m) (auto simp: handle_blob_message_svc_def intro: recorded_same)
qed

lemma xcm_recorded: "recorded_move s (handle_xcm_message_svc cfg p n x s) d"
  by (cases "xcm_try_from cfg x")
    (auto simp: handle_xcm_message_svc_def Let_def
      intro: recorded_same recorded_quiet [where evs = "[EvBadVersion (hashing cfg x)]"])

lemma dispatch_recorded:
  assumes "receiver_ok cfg" and "service_wf s" and "dispatch_svc cfg i s = (r, t)"
  shows "\<exists>d. recorded_move s t d"
proof (cases i)
  case (CallOrder origin ob)
  with assms(3) show ?thesis
    by (auto simp: order_svc_def try_pure_def intro: recorded_same
        dest!: received_recorded [OF assms(1)] split: sum.splits)
next
  case (CallCancel origin d)
  with assms show ?thesis by (auto intro: cancel_recorded)
next
  case (CallAccept origin rej onoff)
  with assms(3) show ?thesis by (auto intro: accept_recorded)
next
  case (CallDone origin onoff)
  with assms(3) show ?thesis by (auto intro: done_recorded)
next
  case (CallRegister origin pen w onoff)
  with assms show ?thesis by (auto intro: register_recorded)
next
  case (CallSetState origin onoff)
  with assms show ?thesis by (auto intro: set_state_recorded)
next
  case (KilledAccount d)
  with assms show ?thesis by (auto intro: killed_recorded)
next
  case (XcmMessage p n x)
  with assms show ?thesis by (auto intro: xcm_recorded)
next
  case (BlobMessage p n b)
  with assms blob_recorded [OF assms(1)] show ?thesis by auto
qed

section \<open>The order protocol\<close>

text \<open>The events about one device, and which of them may follow which.\<close>

definition device_log :: "'a \<Rightarrow> 'a service_event list \<Rightarrow> 'a service_event list" where
  "device_log d evs = filter (\<lambda>e. event_device e = Some d) evs"

fun is_new_order :: "'a service_event \<Rightarrow> bool" where
  "is_new_order (EvNewOrder d) = True"
| "is_new_order _ = False"

fun follows :: "'a service_event \<Rightarrow> 'a service_event \<Rightarrow> bool" where
  "follows e (EvNewDevice d) \<longleftrightarrow> \<not> is_new_order e"
| "follows e (EvNewOrder d) \<longleftrightarrow> \<not> is_new_order e"
| "follows e (EvAccept d) \<longleftrightarrow> e = EvNewOrder d"
| "follows e (EvDone d) \<longleftrightarrow> e = EvAccept d"
| "follows e (EvReject d) \<longleftrightarrow> e = EvNewOrder d \<or> e = EvAccept d \<or> e = EvReject d"
| "follows e _ \<longleftrightarrow> False"

fun told_by :: "'a \<Rightarrow> ('a, 'p) phase \<Rightarrow> 'a service_event list \<Rightarrow> bool" where
  "told_by d Absent l \<longleftrightarrow> l = [] \<or> \<not> is_new_order (last l)"
| "told_by d (Idle b) l \<longleftrightarrow> l \<noteq> [] \<and> \<not> is_new_order (last l)"
| "told_by d (Offered od) l \<longleftrightarrow> l \<noteq> [] \<and> last l = EvNewOrder d"
| "told_by d (Working od) l \<longleftrightarrow> l \<noteq> [] \<and> last l = EvAccept d"
| "told_by d Abandoned l \<longleftrightarrow> l \<noteq> [] \<and> last l = EvReject d"
| "told_by d Stray l \<longleftrightarrow> False"

definition protocol_log :: "'a \<Rightarrow> ('a, 'p) phase \<Rightarrow> 'a service_event list \<Rightarrow> bool" where
  "protocol_log d p l \<longleftrightarrow> successively follows l \<and> (l \<noteq> [] \<longrightarrow> hd l = EvNewDevice d) \<and> told_by d p l"

definition protocol_kept :: "('a, 'p, 'c, 'q) service_state \<Rightarrow> bool" where
  "protocol_kept s \<longleftrightarrow> (\<forall>d. protocol_log d (phase_svc s d) (device_log d (s_events s)))"

lemma event_protocol:
  assumes "phase_event d p evs q" and "protocol_log d p l"
  shows "protocol_log d q (l @ device_log d evs)"
  using assms(1)
proof cases
  case unrelated
  then have "device_log d evs = []" by (auto simp: device_log_def filter_empty_conv list_all_iff)
  with assms(2) unrelated show ?thesis by simp
qed (use assms(2) in \<open>auto simp: protocol_log_def device_log_def successively_append_iff hd_append\<close>)

lemma move_protocol:
  assumes "recorded_move s t d" and "protocol_kept s"
  shows "protocol_kept t"
  unfolding protocol_kept_def
proof
  fix x
  have x: "protocol_log x (phase_svc s x) (device_log x (s_events s))"
    using assms(2) by (simp add: protocol_kept_def)
  obtain evs where evs: "s_events t = s_events s @ evs"
    "phase_event d (phase_svc s d) evs (phase_svc t d)"
    using assms(1) by (auto simp: recorded_move_def)
  have app: "device_log x (s_events t) = device_log x (s_events s) @ device_log x evs"
    using evs(1) by (simp add: device_log_def)
  show "protocol_log x (phase_svc t x) (device_log x (s_events t))"
  proof (cases "x = d")
    case True
    with event_protocol [OF evs(2)] x app show ?thesis by simp
  next
    case False
    then have "phase_svc t x = phase_svc s x" using assms(1) by (simp add: recorded_move_def)
    moreover have "device_log x evs = []"
      using evs(2) False by cases (auto simp: device_log_def filter_empty_conv list_all_iff)
    ultimately show ?thesis using x app by simp
  qed
qed

definition fresh_service :: "('a, 'p, 'c, 'q) service_state \<Rightarrow> bool" where
  "fresh_service s \<longleftrightarrow> service_init s \<and> s_events s = []"

lemma step_protocol:
  assumes "service_step cfg s t" and "receiver_ok cfg" and "service_wf s" and "protocol_kept s"
  shows "protocol_kept t"
  using assms(1)
proof cases
  case (input i r)
  from dispatch_recorded [OF assms(2,3) this] obtain d where "recorded_move s t d" ..
  from move_protocol [OF this assms(4)] show ?thesis .
next
  case (environment n c q)
  with assms(4) show ?thesis by (simp add: protocol_kept_def phase_svc_def)
qed

definition service_recorded ::
  "('o, 'a, 'p, 'c, 'q) service_config \<Rightarrow> ('a, 'p, 'c, 'q) service_state \<Rightarrow> bool" where
  "service_recorded cfg s \<longleftrightarrow> (receiver_ok cfg \<longrightarrow> service_wf s \<and> protocol_kept s)"

lemma fresh_recorded: "fresh_service s \<Longrightarrow> service_recorded cfg s"
  by (auto simp: fresh_service_def service_init_wf service_recorded_def protocol_kept_def
      protocol_log_def device_log_def phase_svc_def service_init_def)

lemma step_recorded:
  assumes "service_recorded cfg s" and "service_step cfg s t"
  shows "service_recorded cfg t"
  unfolding service_recorded_def
proof
  assume ok: "receiver_ok cfg"
  with assms(1) have s: "service_wf s" "protocol_kept s" by (simp_all add: service_recorded_def)
  obtain d where "legal_move s t d" using service_step_legal [OF assms(2) ok s(1)] ..
  from legal_move_wf [OF this s(1)] have "service_wf t" .
  with step_protocol [OF assms(2) ok s] show "service_wf t \<and> protocol_kept t" by simp
qed

interpretation service_history: invariant_system fresh_service "service_step cfg"
    "service_recorded cfg" for cfg
  by unfold_locales (auto intro: fresh_recorded step_recorded)

section \<open>The property\<close>

text \<open>
  Claim C13. With a hook that answers with a busy state or refuses, the events about a device are
  a word of the order protocol: it starts with its registration, every acceptance follows the
  order it accepts and every completion the acceptance, with nothing about the device in between,
  a rejection follows an order, its acceptance or the cancellation of it, and a new order or
  registration never follows an unanswered order. The last event tells what the device is doing.
\<close>

theorem service_events_follow_protocol:
  assumes "receiver_ok cfg" and "reachable fresh_service (service_step cfg) s"
    and "l = filter (\<lambda>e. event_device e = Some d) (s_events s)"
  shows "successively follows l \<and> (l \<noteq> [] \<longrightarrow> hd l = EvNewDevice d) \<and>
    (case phase_svc s d of
       Offered od \<Rightarrow> l \<noteq> [] \<and> last l = EvNewOrder d
     | Working od \<Rightarrow> l \<noteq> [] \<and> last l = EvAccept d
     | Abandoned \<Rightarrow> l \<noteq> [] \<and> last l = EvReject d
     | Idle b \<Rightarrow> l \<noteq> [] \<and> last l \<noteq> EvNewOrder d
     | Absent \<Rightarrow> l = [] \<or> last l \<noteq> EvNewOrder d
     | Stray \<Rightarrow> False)"
proof -
  have "protocol_kept s"
    using service_history.reachable_inv [OF assms(2)] assms(1) by (simp add: service_recorded_def)
  then have "protocol_log d (phase_svc s d) l"
    using assms(3) by (simp add: protocol_kept_def device_log_def)
  then show ?thesis
    by (cases "phase_svc s d") (auto simp: protocol_log_def)
qed

lemma fresh_service_run: "reachable fresh_service (service_step sample_service) ordered_service"
proof -
  have "fresh_service empty_service"
    using empty_service_init by (simp add: fresh_service_def) (simp add: empty_service_def)
  then show ?thesis
    by (rule reachable_step [OF reachable_step [OF reachable_init [of fresh_service]]])
      (rule service_step.input [OF ordered_service_steps(1)]
        service_step.input [OF ordered_service_steps(2)])+
qed

theorem service_events_follow_protocol_witness:
  "successively follows [EvNewDevice 100, EvNewOrder (100 :: account_id)] \<and>
    phase_svc ordered_service 100 = Offered (sample_order 200)"
proof -
  have "[EvNewDevice 100, EvNewOrder 100]
      = filter (\<lambda>e. event_device e = Some 100) (s_events ordered_service)"
    by (simp add: ordered_service_eq)
  from service_events_follow_protocol [OF sample_receiver_ok fresh_service_run this]
  have "successively follows [EvNewDevice 100, EvNewOrder (100 :: account_id)]" ..
  moreover have "phase_svc ordered_service 100 = Offered (sample_order 200)"
    by (simp add: ordered_service_eq phase_svc_def sample_state_def sample_profile_def)
  ultimately show ?thesis ..
qed

end
