(* ===== verification/Agreement.thy ===== *)
theory Agreement
  imports NetworkHistory Recovery ServiceHistory
begin

text \<open>
  Agreement of the two chains on the orders they share, while other client chains may order from
  the same service chain. Between the order call and its settlement
  an order is in exactly one place: in a message to the service chain, in the storage of the
  service chain, in a report under way, or, once the service chain has refused it, nowhere. The
  invariant says so, with the terms of the order, for all runs in which clients do not cancel on
  the client chain while the order is in one of these places; the reports of such runs are honest,
  and the solvency of the client chain follows without assuming it.
\<close>

section \<open>Where an order can be\<close>

text \<open>Orders for device \<open>d\<close> in the messages to chain \<open>dest\<close>, in the form the client chain stores.\<close>

definition order_messages ::
  "('a, 'p) prims \<Rightarrow> para_id \<Rightarrow> 'a \<Rightarrow> outbox \<Rightarrow> ('a, 'p) order list" where
  "order_messages P dest d box = List.map_filter (\<lambda>(para, blob).
    if para \<noteq> dest then None
    else case decode_with (message_codec P) blob of
      Some (NewOrder who ob) \<Rightarrow> if ob_device ob = d then Some (order_base_convert ob who) else None
    | _ \<Rightarrow> None) box"

text \<open>
  The order of chain \<open>own\<close> for the device on the service chain, in the same form. Orders of the
  service chain itself and of other client chains are none of its business.
\<close>

definition order_copy :: "para_id \<Rightarrow> ('a, 'p, 'c, 'q) service_state \<Rightarrow> 'a \<Rightarrow> ('a, 'p) order list" where
  "order_copy own s d = (case s_orders s d of
      None \<Rightarrow> []
    | Some od \<Rightarrow> if o_paraid od = own then [od\<lparr>o_paraid := 0\<rparr>] else [])"

text \<open>The clients named by the reports under way to chain \<open>dest\<close> that close an order for \<open>d\<close>.\<close>

definition closing_reports :: "('a, 'p) prims \<Rightarrow> para_id \<Rightarrow> 'a \<Rightarrow> outbox \<Rightarrow> 'a list" where
  "closing_reports P dest d box = List.map_filter (\<lambda>(para, blob).
    if para \<noteq> dest then None
    else case decode_with (message_codec P) blob :: ('a, 'p) xcmp_message option of
      Some m \<Rightarrow> if closes_device m = Some d then Some (fst (parties m)) else None
    | None \<Rightarrow> None) box"

lemma box_simps [simp]:
  "order_messages P dest d [] = []"
  "order_messages P dest d (box @ box') = order_messages P dest d box @ order_messages P dest d box'"
  "closing_reports P dest d [] = []"
  "closing_reports P dest d (box @ box') = closing_reports P dest d box @ closing_reports P dest d box'"
  by (simp_all add: order_messages_def closing_reports_def List.map_filter_def)

lemma box_Cons:
  "order_messages P dest d (x # box) = order_messages P dest d [x] @ order_messages P dest d box"
  "closing_reports P dest d (x # box) = closing_reports P dest d [x] @ closing_reports P dest d box"
  using box_simps(2) [of P dest d "[x]" box] box_simps(4) [of P dest d "[x]" box]
  by (simp_all only: append_Cons append_Nil)

lemma box_message:
  assumes "prim_codecs P"
  shows "order_messages P dest d [(para, encode_with (message_codec P) (NewOrder who ob))] =
      (if para = dest \<and> ob_device ob = d then [order_base_convert ob who] else [])"
    and "closes_device m \<noteq> Some d \<Longrightarrow> closing_reports P dest d [(para, encode_with (message_codec P) m)] = []"
    and "closes_device m = Some d \<Longrightarrow> closing_reports P dest d [(para, encode_with (message_codec P) m)] =
      (if para = dest then [fst (parties m)] else [])"
proof -
  have dec: "decode_with (message_codec P) (encode_with (message_codec P) m) = Some m" for m
    using prim_codecs.decode_encode_message [OF assms, of m "[]"] by simp
  show "order_messages P dest d [(para, encode_with (message_codec P) (NewOrder who ob))] =
      (if para = dest \<and> ob_device ob = d then [order_base_convert ob who] else [])"
    "closes_device m \<noteq> Some d \<Longrightarrow> closing_reports P dest d [(para, encode_with (message_codec P) m)] = []"
    "closes_device m = Some d \<Longrightarrow> closing_reports P dest d [(para, encode_with (message_codec P) m)] =
      (if para = dest then [fst (parties m)] else [])"
    by (simp_all only: order_messages_def closing_reports_def List.map_filter_simps prod.case dec
        option.case xcmp_message.case if_True if_False simp_thms split: if_split) simp_all
qed

text \<open>The places of device \<open>d\<close>, all three of them.\<close>

definition placed ::
  "('a, 'p) prims \<Rightarrow> ('o, 'a, 'p, 'd, outbox) service_config \<Rightarrow> para_id \<Rightarrow> ('a, 'p, 'c, 'd) network \<Rightarrow>
   'a \<Rightarrow> ('a, 'p) order list \<times> ('a, 'p) order list \<times> 'a list" where
  "placed P svc own w d =
    (order_messages P (self_para_id svc) d (h_outbox (client_chain w)),
     order_copy own (service_chain w) d,
     closing_reports P own d (h_outbox (service_chain w)))"

definition in_one_place ::
  "('a, 'p) order option \<Rightarrow> ('a, 'p) order list \<times> ('a, 'p) order list \<times> 'a list \<Rightarrow> bool" where
  "in_one_place ord places \<longleftrightarrow> (case ord of
      None \<Rightarrow> places = ([], [], [])
    | Some od \<Rightarrow> places \<in> {([], [], []), ([od], [], []), ([], [od], []), ([], [], [o_client od])})"

section \<open>What the service chain does with its copy\<close>

text \<open>
  An input leaves the copies of chain \<open>own\<close> where they are, with nothing reported to it that would
  close an order, or turns one copy into a report that names its client.
\<close>

inductive hand_over ::
  "('a, 'p) prims \<Rightarrow> para_id \<Rightarrow>
   ('a, 'p, 'c, outbox) service_state \<Rightarrow> ('a, 'p, 'c, outbox) service_state \<Rightarrow> bool"
  for P own s t where
  copies_stay: "order_copy own t = order_copy own s \<Longrightarrow>
    h_outbox t = h_outbox s @ ms \<Longrightarrow> (\<And>d. closing_reports P own d ms = []) \<Longrightarrow>
    hand_over P own s t"
| copy_reported: "s_orders s d = Some od \<Longrightarrow> o_paraid od = own \<Longrightarrow>
    s_orders t = (s_orders s)(d := None) \<Longrightarrow> closes_device m = Some d \<Longrightarrow>
    fst (parties m) = o_client od \<Longrightarrow>
    h_outbox t = h_outbox s @ [(own, encode_with (message_codec P) m)] \<Longrightarrow>
    hand_over P own s t"

lemma hand_over_same:
  assumes "s_orders t = s_orders s" and "h_outbox t = h_outbox s @ ms"
    and "\<And>y. closing_reports P own y ms = []"
  shows "hand_over P own s t"
  by (rule copies_stay [OF _ assms(2,3)]) (simp add: assms(1) order_copy_def fun_eq_iff)

lemma hand_over_quiet:
  "s_orders t = s_orders s \<Longrightarrow> h_outbox t = h_outbox s \<Longrightarrow> hand_over P own s t"
  by (rule hand_over_same [where ms = "[]"]) simp_all

lemma hand_over_other:
  assumes "s_orders t = (s_orders s)(d := x)" and "h_outbox t = h_outbox s @ ms"
    and "\<And>y. closing_reports P own y ms = []"
    and "\<And>od. s_orders s d = Some od \<Longrightarrow> o_paraid od \<noteq> own"
    and "\<And>od. x = Some od \<Longrightarrow> o_paraid od \<noteq> own"
  shows "hand_over P own s t"
proof (rule copies_stay)
  show "order_copy own t = order_copy own s"
  proof
    fix y
    show "order_copy own t y = order_copy own s y"
      using assms(1,4,5) by (cases "y = d"; cases "s_orders s d"; cases x) (auto simp: order_copy_def)
  qed
qed (use assms(2,3) in simp_all)

lemma accept_closes_none:
  "prim_codecs P \<Longrightarrow>
    closing_reports P dest d [(para, encode_with (message_codec P) (OrderAccept c x))] = []"
  by (rule box_message(2)) simp_all

lemma other_report_closes_none:
  "prim_codecs P \<Longrightarrow> para \<noteq> dest \<Longrightarrow>
    closing_reports P dest d [(para, encode_with (message_codec P) m)] = []"
  using box_message(2,3) [of P m d dest para] by (cases "closes_device m = Some d") auto

lemma reject_hands:
  assumes "prim_codecs P" and "linked_service P svc" and "own \<noteq> self_para_id svc"
    and op: "order_reject_svc svc ord now d dev onoff s = (r, t)" and ord: "s_orders s d = ord"
  shows "hand_over P own s t"
proof (cases "\<exists>od. s_orders s d = Some od \<and> o_paraid od = own")
  case True
  then obtain od where od: "s_orders s d = Some od" "o_paraid od = own" by blast
  with assms have "h_outbox t = h_outbox s @ [(own,
      encode_with (message_codec P) (OrderReject (o_client od) d onoff))]" "r = Inr ()"
    by (auto simp: order_reject_svc_def send_linked)
  moreover from this(2) order_reject_storage [OF op] have "s_orders t = (s_orders s)(d := None)" by simp
  ultimately show ?thesis
    by (intro copy_reported [OF od, where m = "OrderReject (o_client od) d onoff"]) simp_all
next
  case False
  have "\<exists>ms. h_outbox t = h_outbox s @ ms \<and> (\<forall>y. closing_reports P own y ms = [])"
    using op False ord by (auto simp: order_reject_svc_def Let_def and_then_def host_calls_svc
        send_linked [OF assms(2)] other_report_closes_none [OF assms(1)]
        split: option.splits if_splits prod.splits sum.splits)
  then obtain ms where "h_outbox t = h_outbox s @ ms" "\<And>y. closing_reports P own y ms = []" by blast
  with False order_reject_storage [OF op] show ?thesis
    by (cases "r = Inr ()") (auto intro: hand_over_other [of t s d None] hand_over_same)
qed

lemma done_hands:
  assumes "prim_codecs P" and "linked_service P svc" and "own \<noteq> self_para_id svc"
    and od: "s_orders s d = Some od"
    and op: "order_done_svc svc od now d dev onoff (remove_order_svc d s) = (r, t)"
  shows "hand_over P own s t"
proof (cases "o_paraid od = own")
  case True
  with assms have "h_outbox t = h_outbox s @ [(own,
      encode_with (message_codec P) (OrderDone (o_client od) d onoff))]"
    by (auto simp: order_done_svc_def Let_def send_linked)
  with order_done_storage(2) [OF op] show ?thesis
    by (intro copy_reported [OF od True, where m = "OrderDone (o_client od) d onoff"]) simp_all
next
  case False
  with op have "\<exists>ms. h_outbox t = h_outbox s @ ms \<and> (\<forall>y. closing_reports P own y ms = [])"
    by (auto simp: order_done_svc_def Let_def and_then_def host_calls_svc
        send_linked [OF assms(2)] other_report_closes_none [OF assms(1)]
        split: if_splits prod.splits sum.splits)
  then obtain ms where "h_outbox t = h_outbox s @ ms" "\<And>y. closing_reports P own y ms = []" by blast
  with False od order_done_storage(2) [OF op] show ?thesis
    by (intro hand_over_other [of t s d None]) simp_all
qed

text \<open>An order of another chain, or of a client of the service chain itself.\<close>

lemma received_hands:
  assumes "prim_codecs P" and "linked_service P svc" and "o_paraid od \<noteq> own"
    and op: "order_received_svc svc od d s = (r, t)"
  shows "hand_over P own s t"
proof -
  have "\<exists>ms. h_outbox t = h_outbox s @ ms \<and> (\<forall>y. closing_reports P own y ms = [])"
    using op by (auto simp: order_received_svc_def Let_def and_then_def try_pure_def host_calls_svc
        accept_outbox [OF assms(2)] accept_closes_none [OF assms(1)]
        split: option.splits if_splits prod.splits sum.splits)
  then obtain ms where "h_outbox t = h_outbox s @ ms" "\<And>y. closing_reports P own y ms = []" by blast
  with assms(3) order_received_storage [OF op] show ?thesis
    by (cases "r = Inr ()") (auto intro: hand_over_other [of t s d "Some od"] hand_over_same)
qed

lemma accept_hands:
  assumes "prim_codecs P" and "linked_service P svc" and "t = order_accept_svc svc od now d dev s"
  shows "hand_over P own s t"
  using assms
  by (intro copies_stay [where ms = "if o_paraid od = self_para_id svc then []
      else [(o_paraid od, encode_with (message_codec P) (OrderAccept (o_client od) d))]"])
    (auto simp: order_copy_def accept_outbox accept_closes_none)

lemma input_hands:
  assumes "prim_codecs P" and "linked_service P svc" and "own \<noteq> self_para_id svc"
    and "dispatch_svc svc i s = (r, t)" and "\<And>n b. i \<noteq> BlobMessage own n b"
  shows "hand_over P own s t"
proof (cases i)
  case (CallOrder origin ob)
  with assms(3,4) show ?thesis
    by (auto simp: order_svc_def try_pure_def intro: hand_over_quiet
        dest!: received_hands [OF assms(1,2), rotated, of _ _ _ _ _ own] split: sum.splits)
next
  case (CallCancel origin d)
  with assms(4) have "cancel_svc svc origin d s = (r, t)" by simp
  from cancel_cases [OF this] show ?thesis
    by (auto intro: hand_over_quiet reject_hands [OF assms(1-3)])
next
  case (CallAccept origin rej onoff)
  with assms(4) have "accept_svc svc origin rej onoff s = (r, t)" by simp
  from accept_cases [OF this] show ?thesis
    by (auto intro: hand_over_quiet reject_hands [OF assms(1-3)] accept_hands [OF assms(1,2)])
next
  case (CallDone origin onoff)
  with assms(4) have "done_svc svc origin onoff s = (r, t)" by simp
  from done_cases [OF this] show ?thesis
    by (auto intro: hand_over_quiet done_hands [OF assms(1-3)])
next
  case (BlobMessage p n b)
  with assms(5) have far: "p \<noteq> own" by blast
  have "hand_over P own s (snd (order_received_svc svc od d s))" if "o_paraid od = p" for od d
    using received_hands [OF assms(1,2) _ prod.collapse [symmetric]] that far by simp
  with BlobMessage assms(4) show ?thesis
    by (auto simp: handle_blob_message_svc_def intro: hand_over_quiet
        split: option.splits xcmp_message.splits)
next
  case (CallRegister origin pen w onoff)
  with assms(4) show ?thesis
    by (auto simp: register_svc_def try_pure_def intro: hand_over_quiet split: sum.splits if_splits)
next
  case (CallSetState origin onoff)
  with assms(4) show ?thesis
    by (auto dest!: set_state_cases intro: hand_over_quiet)
next
  case (KilledAccount a)
  with assms(4) show ?thesis
    by (auto simp: on_killed_account_svc_def intro: hand_over_quiet split: option.splits if_splits)
next
  case (XcmMessage p n x)
  with assms(4) show ?thesis
    by (auto simp: handle_xcm_message_svc_def Let_def intro: hand_over_quiet split: sum.splits)
qed

text \<open>An order message: the copy is made, or the message has no effect on orders and queue.\<close>

lemma remote_received:
  assumes "prim_codecs P" and "linked_service P svc" and "o_paraid od \<noteq> self_para_id svc"
    and op: "order_received_svc svc od d s = (r, t)"
  shows "s_orders t = s_orders s \<and> h_outbox t = h_outbox s \<or>
    s_orders s d = None \<and> s_orders t = (s_orders s)(d \<mapsto> od) \<and>
      (\<exists>ms. h_outbox t = h_outbox s @ ms \<and> (\<forall>dest x. closing_reports P dest x ms = []))"
proof (cases "r = Inr ()")
  case True
  have "\<exists>ms. h_outbox t = h_outbox s @ ms \<and> (\<forall>dest x. closing_reports P dest x ms = [])"
    using assms True
    by (auto simp: order_received_svc_def Let_def try_pure_def accept_outbox accept_closes_none
        split: option.splits if_splits sum.splits)
  with True order_received_storage [OF op] show ?thesis by auto
next
  case False
  with assms have "h_outbox t = h_outbox s"
    by (auto simp: order_received_svc_def Let_def try_pure_def split: option.splits if_splits sum.splits)
  with False order_received_storage [OF op] show ?thesis by auto
qed

section \<open>What the client chain does with its order\<close>

lemma order_cli_places:
  assumes "linked_client P cli" and "order_cli cli origin ob s = (r, t)"
  shows "c_orders t = c_orders s \<and> h_outbox t = h_outbox s \<or>
    (\<exists>who para. c_orders s (ob_device ob) = None \<and>
      c_orders t = (c_orders s)(ob_device ob \<mapsto> order_base_convert ob who) \<and>
      h_outbox t = h_outbox s @ [(para, encode_with (message_codec P) (NewOrder who ob))])"
  using assms
  by (auto simp: order_cli_def Let_def and_then_def try_pure_def host_calls_cli send_client
      order_convert_base_convert storage_cli_defs split: option.splits if_splits prod.splits sum.splits)

lemma client_input_places:
  assumes "linked_client P cli" and "test_blob_unread P" and "dispatch_cli cli i s = (r, t)"
    and "\<And>p n b. i \<noteq> CliBlob p n b"
  shows "c_orders t = c_orders s \<and>
      (\<exists>ms. h_outbox t = h_outbox s @ ms \<and> (\<forall>dest d. order_messages P dest d ms = [])) \<or>
    (\<exists>who ob para. c_orders s (ob_device ob) = None \<and>
      c_orders t = (c_orders s)(ob_device ob \<mapsto> order_base_convert ob who) \<and>
      h_outbox t = h_outbox s @ [(para, encode_with (message_codec P) (NewOrder who ob))]) \<or>
    (\<exists>origin d. i = CliCancel origin d \<and> h_outbox t = h_outbox s \<and>
      c_orders t = (c_orders s)(d := None))"
proof (cases i)
  case (CliTest origin)
  with assms(1,3) have "c_orders t = c_orders s" "h_outbox t = h_outbox s @ [(200, [0x00, 0x20])]"
    by (auto simp: test_cli_def send_blob_now_def linked_client_def queue_send_def)
  moreover have "order_messages P dest d [(200, [0x00, 0x20])] = []" for dest d
    using assms(2) by (simp add: order_messages_def test_blob_unread_def List.map_filter_simps)
  ultimately show ?thesis by blast
next
  case (CliOrder origin ob)
  with assms(3) order_cli_places [OF assms(1), of origin ob s r t] show ?thesis by auto
next
  case (CliCancel origin d)
  with assms(3) have "cancel_cli cli origin d s = (r, t)" by simp
  note op = this
  from cancel_outbox [OF op] cancel_cli_cases [OF op] CliCancel show ?thesis
    by (auto dest: order_reject_cli_storage)
next
  case (CliRegister origin para pen w onoff)
  with assms(3) show ?thesis
    by (auto simp: register_cli_def try_pure_def split: sum.splits if_splits)
next
  case (CliKilled a)
  with assms(3) show ?thesis
    by (auto simp: on_killed_account_cli_def split: option.splits if_splits)
next
  case (CliXcm p n x)
  with assms(3) show ?thesis
    by (auto simp: handle_xcm_message_cli_def Let_def split: sum.splits)
next
  case (CliBlob p n b)
  with assms(4) show ?thesis by blast
qed

text \<open>A message can close the order it is about, and no other.\<close>

lemma blob_places:
  assumes "message_impl cli = message_codec P"
  shows "c_orders (handle_blob_message_cli cli p n b s) = c_orders s \<or>
    (\<exists>m d. decode_with (message_codec P) b = Some m \<and> closes_device m = Some d \<and>
      c_orders (handle_blob_message_cli cli p n b s) = (c_orders s)(d := None))"
proof (cases "decode_with (message_codec P) b")
  case None
  with assms show ?thesis by (simp add: handle_blob_message_cli_def)
next
  case (Some m)
  show ?thesis
  proof (cases m)
    case (OrderReject who d onoff)
    obtain r t where op: "on_reject_cli cli who d onoff s = (r, t)" by fastforce
    have "c_orders t = c_orders s \<or> c_orders t = (c_orders s)(d := None)"
      using on_reject_events [OF op] by auto
    with Some assms op OrderReject show ?thesis by (auto simp: handle_blob_message_cli_def)
  next
    case (OrderDone who d onoff)
    obtain r t where op: "on_done_cli cli who d onoff s = (r, t)" by fastforce
    have "c_orders t = c_orders s \<or> c_orders t = (c_orders s)(d := None)"
      using on_done_events [OF op] by auto
    with Some assms op OrderDone show ?thesis by (auto simp: handle_blob_message_cli_def)
  qed (use Some assms in \<open>auto simp: handle_blob_message_cli_def on_accept_cli_def\<close>)
qed

end
