(* ===== verification/Patience.thy ===== *)
theory Patience
  imports Agreement
begin

text \<open>
  Runs of both chains in which clients do not cancel on the client chain while the service chain
  may still act on the order. The invariant: each open order of the client chain is in at most
  one place, with the terms the client asked for. It makes every report honest, so the client chain
  of such a run is solvent with no assumption on the messages.
\<close>

section \<open>Runs with patient clients\<close>

text \<open>
  Clients may cancel on the client chain only when the service chain knows nothing of the order
  any more. Other pallets of the client chain leave the reserves alone; all else is free. The
  service chain serves any number of other client chains and its own clients besides: it may
  receive every message that is not sent in the name of this client chain.
\<close>

inductive patient_step ::
  "('c \<Rightarrow> 'a \<Rightarrow> nat) \<Rightarrow> ('c \<Rightarrow> 'a \<Rightarrow> bool) \<Rightarrow> ('a, 'p) prims \<Rightarrow>
   ('o, 'a, 'p, 'c, outbox) env \<Rightarrow> ('o2, 'a, 'p, 'd, outbox) service_config \<Rightarrow> para_id \<Rightarrow>
   ('a, 'p, 'c, 'd) network \<Rightarrow> ('a, 'p, 'c, 'd) network \<Rightarrow> bool"
  for reserved alive P cli svc own w where
  patient_client: "dispatch_cli cli i (client_chain w) = (r, t) \<Longrightarrow> (\<And>p n b. i \<noteq> CliBlob p n b) \<Longrightarrow>
    (\<And>origin d. i = CliCancel origin d \<Longrightarrow> placed P svc own w d = ([], [], [])) \<Longrightarrow>
    patient_step reserved alive P cli svc own w (w\<lparr>client_chain := t\<rparr>)"
| patient_service: "dispatch_svc svc i (service_chain w) = (r, u) \<Longrightarrow> (\<And>n b. i \<noteq> BlobMessage own n b) \<Longrightarrow>
    patient_step reserved alive P cli svc own w (w\<lparr>service_chain := u\<rparr>)"
| patient_to_service: "patient_step reserved alive P cli svc own w (deliver_to_service svc own w)"
| patient_to_client:
    "patient_step reserved alive P cli svc own w (deliver_to_client cli own (self_para_id svc) w)"
| patient_client_passes: "h_now (client_chain w) \<le> n \<Longrightarrow>
    outside_change reserved alive (owed (book_cli (client_chain w))) (h_currency (client_chain w)) c \<Longrightarrow>
    patient_step reserved alive P cli svc own w
      (w\<lparr>client_chain := (client_chain w)\<lparr>h_now := n, h_currency := c\<rparr>\<rparr>)"
| patient_service_passes: "h_now (service_chain w) \<le> n \<Longrightarrow> patient_step reserved alive P cli svc own w
    (w\<lparr>service_chain := (service_chain w)\<lparr>h_now := n, h_currency := e\<rparr>\<rparr>)"

text \<open>The message of another client chain is such an input: its order may take the device.\<close>

lemma patient_foreign:
  "sender \<noteq> own \<Longrightarrow> patient_step reserved alive P cli svc own w
    (w\<lparr>service_chain := handle_blob_message_svc svc sender n blob (service_chain w)\<rparr>)"
  by (rule patient_service [of svc "BlobMessage sender n blob" w "Inr ()"]) simp_all

section \<open>The invariant\<close>

definition orders_agree ::
  "('a, 'p) prims \<Rightarrow> ('o, 'a, 'p, 'd, outbox) service_config \<Rightarrow> para_id \<Rightarrow> ('a, 'p, 'c, 'd) network \<Rightarrow>
   bool" where
  "orders_agree P svc own w \<longleftrightarrow>
    (\<forall>d. in_one_place (c_orders (client_chain w) d) (placed P svc own w d))"

text \<open>
  The stages of an order, as the client chain and the places show them: it is sent to the service
  chain, or to a chain that is not there; it is taken or refused; it is reported; the report settles
  it or fails to; and what is nowhere any more is withdrawn by the client.
\<close>

type_synonym ('a, 'p) spot =
  "('a, 'p) order option \<times> ('a, 'p) order list \<times> ('a, 'p) order list \<times> 'a list"

inductive passes_on :: "('a, 'p) spot \<Rightarrow> ('a, 'p) spot \<Rightarrow> bool" where
  stays: "passes_on x x"
| sent: "passes_on (None, [], [], []) (Some od, [od], [], [])"
| sent_elsewhere: "passes_on (None, [], [], []) (Some od, [], [], [])"
| taken: "passes_on (Some od, [od], [], []) (Some od, [], [od], [])"
| refused: "passes_on (Some od, [od], [], []) (Some od, [], [], [])"
| reported: "passes_on (Some od, [], [od], []) (Some od, [], [], [o_client od])"
| settled: "passes_on (Some od, [], [], [o_client od]) (None, [], [], [])"
| unsettled: "passes_on (Some od, [], [], [o_client od]) (Some od, [], [], [])"
| withdrawn: "passes_on (Some od, [], [], []) (None, [], [], [])"

definition spot ::
  "('a, 'p) prims \<Rightarrow> ('o, 'a, 'p, 'd, outbox) service_config \<Rightarrow> para_id \<Rightarrow> ('a, 'p, 'c, 'd) network \<Rightarrow>
   'a \<Rightarrow> ('a, 'p) spot" where
  "spot P svc own w d = (c_orders (client_chain w) d, placed P svc own w d)"

text \<open>The order of one device at most moves on.\<close>

definition one_moves ::
  "('a, 'p) prims \<Rightarrow> ('o, 'a, 'p, 'd, outbox) service_config \<Rightarrow> para_id \<Rightarrow> ('a, 'p, 'c, 'd) network \<Rightarrow>
   ('a, 'p, 'c, 'd) network \<Rightarrow> bool" where
  "one_moves P svc own w w' \<longleftrightarrow> (\<exists>d. passes_on (spot P svc own w d) (spot P svc own w' d) \<and>
    (\<forall>x. x \<noteq> d \<longrightarrow> spot P svc own w' x = spot P svc own w x))"

lemma none_moves:
  "(\<And>d. spot P svc own w' d = spot P svc own w d) \<Longrightarrow> one_moves P svc own w w'"
  by (simp add: one_moves_def stays)

lemma one_movesI:
  "spot P svc own w d = x \<Longrightarrow> spot P svc own w' d = y \<Longrightarrow> passes_on x y \<Longrightarrow>
    (\<And>x. x \<noteq> d \<Longrightarrow> spot P svc own w' x = spot P svc own w x) \<Longrightarrow> one_moves P svc own w w'"
  by (auto simp: one_moves_def)

lemma passes_on_one_place:
  "passes_on (ord, places) (ord', places') \<Longrightarrow> in_one_place ord places \<Longrightarrow> in_one_place ord' places'"
  by (auto elim!: passes_on.cases simp: in_one_place_def)

lemma one_moves_agree:
  assumes "orders_agree P svc own w" and "one_moves P svc own w w'"
  shows "orders_agree P svc own w'"
proof -
  obtain d where d: "passes_on (spot P svc own w d) (spot P svc own w' d)"
    "\<And>x. x \<noteq> d \<Longrightarrow> spot P svc own w' x = spot P svc own w x"
    using assms(2) by (auto simp: one_moves_def)
  have "in_one_place (c_orders (client_chain w') x) (placed P svc own w' x)" for x
  proof (cases "x = d")
    case True
    with passes_on_one_place [OF d(1) [unfolded spot_def]] assms(1) show ?thesis
      by (simp add: orders_agree_def)
  next
    case False
    with d(2) [of x] assms(1) show ?thesis by (simp add: orders_agree_def spot_def)
  qed
  then show ?thesis by (simp add: orders_agree_def)
qed

lemma agree_copy:
  assumes "orders_agree P svc own w" and "order_copy own (service_chain w) d = [od]"
  shows "c_orders (client_chain w) d = Some od" and "placed P svc own w d = ([], [od], [])"
  using assms(1) [unfolded orders_agree_def, THEN spec, of d] assms(2)
  by (auto simp: in_one_place_def placed_def split: option.splits)

lemma agree_message:
  assumes "orders_agree P svc own w"
    and "order_messages P (self_para_id svc) d (h_outbox (client_chain w)) = od # q"
  shows "c_orders (client_chain w) d = Some od" and "placed P svc own w d = ([od], [], [])"
  using assms(1) [unfolded orders_agree_def, THEN spec, of d] assms(2)
  by (auto simp: in_one_place_def placed_def split: option.splits)

lemma agree_report:
  assumes "orders_agree P svc own w"
    and "closing_reports P own d (h_outbox (service_chain w)) = who # q"
  shows "\<exists>od. c_orders (client_chain w) d = Some od \<and> o_client od = who"
    and "placed P svc own w d = ([], [], [who])"
  using assms(1) [unfolded orders_agree_def, THEN spec, of d] assms(2)
  by (auto simp: in_one_place_def placed_def split: option.splits)


section \<open>Every step keeps the agreement\<close>

lemma placed_simps [simp]:
  "placed P svc own (w\<lparr>client_chain := t\<rparr>) d =
    (order_messages P (self_para_id svc) d (h_outbox t), snd (placed P svc own w d))"
  "placed P svc own (w\<lparr>service_chain := u\<rparr>) d =
    (fst (placed P svc own w d), order_copy own u d, closing_reports P own d (h_outbox u))"
  by (simp_all add: placed_def)

lemma client_moves:
  fixes w :: "('a, 'p, 'c, 'd) network"
  assumes "prim_codecs P" and "linked_client P cli" and "test_blob_unread P"
    and agree: "orders_agree P svc own w" and "dispatch_cli cli i (client_chain w) = (r, t)"
    and "\<And>p n b. i \<noteq> CliBlob p n b"
    and patient: "\<And>origin d. i = CliCancel origin d \<Longrightarrow> placed P svc own w d = ([], [], [])"
  shows "one_moves P svc own w (w\<lparr>client_chain := t\<rparr>)"
  using client_input_places [OF assms(2,3,5,6)]
proof (elim disjE exE conjE)
  fix ms
  assume "c_orders t = c_orders (client_chain w)" and "h_outbox t = h_outbox (client_chain w) @ ms"
    and "\<forall>dest d. order_messages P dest d ms = []"
  then show ?thesis by (intro none_moves) (simp add: spot_def placed_def)
next
  fix who and ob :: "('a, 'p) order_base" and para
  let ?d = "ob_device ob" and ?od = "order_base_convert ob who"
  assume new: "c_orders (client_chain w) ?d = None"
    "c_orders t = (c_orders (client_chain w))(?d \<mapsto> ?od)"
    "h_outbox t = h_outbox (client_chain w) @
      [(para, encode_with (message_codec P) (NewOrder who ob))]"
  have none: "placed P svc own w ?d = ([], [], [])"
    using agree [unfolded orders_agree_def, THEN spec, of ?d] new(1)
    by (simp add: in_one_place_def)
  show ?thesis
  proof (rule one_movesI)
    show "spot P svc own w ?d = (None, [], [], [])" using new(1) none by (simp add: spot_def)
    show "spot P svc own (w\<lparr>client_chain := t\<rparr>) ?d =
        (Some ?od, (if para = self_para_id svc then [?od] else []), [], [])"
      using new none by (simp add: spot_def placed_def box_message(1) [OF assms(1)])
    show "passes_on (None, [], [], [])
        (Some ?od, (if para = self_para_id svc then [?od] else []), [], [])"
      by (auto intro: passes_on.intros)
  qed (use new in \<open>simp add: spot_def placed_def box_message(1) [OF assms(1)]\<close>)
next
  fix origin x
  assume gone: "i = CliCancel origin x" "h_outbox t = h_outbox (client_chain w)"
    "c_orders t = (c_orders (client_chain w))(x := None)"
  show ?thesis
  proof (rule one_movesI [OF refl])
    show "spot P svc own (w\<lparr>client_chain := t\<rparr>) x = (None, [], [], [])"
      using gone patient [OF gone(1)] by (simp add: spot_def placed_def)
    show "passes_on (spot P svc own w x) (None, [], [], [])"
      using patient [OF gone(1)]
      by (cases "c_orders (client_chain w) x") (auto simp: spot_def intro: passes_on.intros)
  qed (use gone in \<open>simp add: spot_def placed_def\<close>)
qed

lemma service_moves:
  assumes "prim_codecs P" and agree: "orders_agree P svc own w"
    and "hand_over P own (service_chain w) u"
  shows "one_moves P svc own w (w\<lparr>service_chain := u\<rparr>)"
  using assms(3)
proof cases
  case (copies_stay ms)
  then show ?thesis by (auto simp: spot_def placed_def intro!: none_moves)
next
  case (copy_reported x od m)
  let ?od = "od\<lparr>o_paraid := 0\<rparr>"
  have here: "order_copy own (service_chain w) x = [?od]"
    using copy_reported(1,2) by (simp add: order_copy_def)
  show ?thesis
  proof (rule one_movesI)
    show "spot P svc own w x = (Some ?od, [], [?od], [])"
      using agree_copy [OF agree here] by (simp add: spot_def)
    show "spot P svc own (w\<lparr>service_chain := u\<rparr>) x = (Some ?od, [], [], [o_client ?od])"
      using agree_copy [OF agree here] copy_reported box_message(3) [OF assms(1)]
      by (simp add: spot_def placed_def order_copy_def)
    show "passes_on (Some ?od, [], [?od], []) (Some ?od, [], [], [o_client ?od])" by (rule reported)
    show "spot P svc own (w\<lparr>service_chain := u\<rparr>) d = spot P svc own w d" if "d \<noteq> x" for d
      using that copy_reported box_message(2) [OF assms(1), of m d]
      by (simp add: spot_def placed_def order_copy_def)
  qed
qed

lemma order_leaves:
  assumes "orders_agree P svc own w" and "h_outbox (client_chain w) = (para, blob) # q"
  shows "para = self_para_id svc \<Longrightarrow> decode_with (message_codec P) blob = Some (NewOrder who ob) \<Longrightarrow>
      c_orders (client_chain w) (ob_device ob) = Some (order_base_convert ob who) \<and>
      order_messages P (self_para_id svc) (ob_device ob) q = [] \<and>
      snd (placed P svc own w (ob_device ob)) = ([], [])"
    and "\<not> (para = self_para_id svc \<and>
        (\<exists>who ob. decode_with (message_codec P) blob = Some (NewOrder who ob) \<and> ob_device ob = d)) \<Longrightarrow>
      order_messages P (self_para_id svc) d q = fst (placed P svc own w d)"
proof -
  have split: "fst (placed P svc own w d) =
    order_messages P (self_para_id svc) d [(para, blob)] @ order_messages P (self_para_id svc) d q" for d
    using assms(2) box_Cons(1) [of P "self_para_id svc" d "(para, blob)" q] by (simp add: placed_def)
  show "c_orders (client_chain w) (ob_device ob) = Some (order_base_convert ob who) \<and>
      order_messages P (self_para_id svc) (ob_device ob) q = [] \<and>
      snd (placed P svc own w (ob_device ob)) = ([], [])"
    if "para = self_para_id svc" "decode_with (message_codec P) blob = Some (NewOrder who ob)"
  proof -
    have "fst (placed P svc own w (ob_device ob)) =
        order_base_convert ob who # order_messages P (self_para_id svc) (ob_device ob) q"
      using that split [of "ob_device ob"] by (simp add: order_messages_def List.map_filter_simps)
    with agree_message [OF assms(1), of "ob_device ob"] show ?thesis by (auto simp: placed_def)
  qed
  show "order_messages P (self_para_id svc) d q = fst (placed P svc own w d)"
    if "\<not> (para = self_para_id svc \<and>
        (\<exists>who ob. decode_with (message_codec P) blob = Some (NewOrder who ob) \<and> ob_device ob = d))"
    using that split [of d]
    by (auto simp: order_messages_def List.map_filter_simps split: option.splits xcmp_message.splits)
qed

text \<open>A message that is no order for this chain does nothing to the service chain.\<close>

lemma other_message:
  assumes "linked_service P svc" and "\<nexists>who ob. decode_with (message_codec P) blob = Some (NewOrder who ob)"
  shows "handle_blob_message_svc svc sender n blob s = s"
  using assms by (auto simp: handle_blob_message_svc_def linked_service_def
      split: option.splits xcmp_message.splits)

lemma to_service_moves:
  fixes w :: "('a, 'p, 'c, 'd) network"
  assumes P: "prim_codecs P" and link: "linked_service P svc" and "own \<noteq> self_para_id svc"
    and agree: "orders_agree P svc own w"
  shows "one_moves P svc own w (deliver_to_service svc own w)"
proof (cases "h_outbox (client_chain w)")
  case Nil
  then show ?thesis by (simp add: deliver_to_service_def none_moves)
next
  case (Cons x q)
  obtain para blob where x: "x = (para, blob)" by fastforce
  note box = Cons [unfolded x]
  let ?w = "w\<lparr>client_chain := (client_chain w)\<lparr>h_outbox := q\<rparr>\<rparr>" and ?w' = "deliver_to_service svc own w"
  show ?thesis
  proof (cases "para = self_para_id svc \<and>
      (\<exists>who ob. decode_with (message_codec P) blob = Some (NewOrder who ob))")
    case False
    with box other_message [OF link] have w': "?w' = ?w" by (auto simp: deliver_to_service_def)
    have "spot P svc own ?w d = spot P svc own w d" for d
      using order_leaves(2) [OF agree box, of d] False by (auto simp: spot_def placed_def)
    then show ?thesis unfolding w' by (rule none_moves)
  next
    case True
    then obtain who ob where here: "para = self_para_id svc"
      and m: "decode_with (message_codec P) blob = Some (NewOrder who ob)" by blast
    let ?d = "ob_device ob" and ?s = "service_chain w" and ?ord = "order_base_convert ob who"
    define od where "od = \<lparr>o_until = ob_until ob, o_data = ob_data ob, o_fee = ob_fee ob,
      o_client = who, o_paraid = own\<rparr>"
    obtain r u where op: "order_received_svc svc od ?d ?s = (r, u)" by fastforce
    have w': "?w' = ?w\<lparr>service_chain := u\<rparr>"
      using box here m op link
      by (simp add: deliver_to_service_def handle_blob_message_svc_def linked_service_def od_def)
    note gone = order_leaves(1) [OF agree box here m]
    have stay: "order_messages P (self_para_id svc) d q = fst (placed P svc own w d)" if "d \<noteq> ?d" for d
      using order_leaves(2) [OF agree box, of d] m that by auto
    have far: "o_paraid od \<noteq> self_para_id svc" using assms(3) by (simp add: od_def)
    have none: "order_copy own ?s ?d = []" and own: "od\<lparr>o_paraid := 0\<rparr> = ?ord" "o_paraid od = own"
      using gone by (simp_all add: placed_def od_def order_base_convert_def)
    have put: "order_copy own u ?d \<in> {[], [?ord]} \<and>
        (\<forall>dest x. closing_reports P dest x (h_outbox u) = closing_reports P dest x (h_outbox ?s)) \<and>
        (\<forall>x. x \<noteq> ?d \<longrightarrow> s_orders u x = s_orders ?s x)"
      using remote_received [OF P link far op]
    proof (elim disjE exE conjE)
      assume "s_orders u = s_orders ?s" and "h_outbox u = h_outbox ?s"
      with none show ?thesis by (simp add: order_copy_def)
    next
      fix ms
      assume "s_orders u = (s_orders ?s)(?d \<mapsto> od)" and "h_outbox u = h_outbox ?s @ ms"
        and "\<forall>dest x. closing_reports P dest x ms = []"
      with own show ?thesis by (simp add: order_copy_def)
    qed
    show ?thesis
    proof (rule one_movesI)
      show "spot P svc own w ?d = (Some ?ord, [?ord], [], [])"
        using gone box here m agree by (simp add: spot_def placed_def) (simp add: order_messages_def map_filter_def)
      show "spot P svc own ?w' ?d = (Some ?ord, [], order_copy own u ?d, [])"
        using gone put by (simp add: w' spot_def placed_def)
      show "passes_on (Some ?ord, [?ord], [], []) (Some ?ord, [], order_copy own u ?d, [])"
        using put by (auto intro: passes_on.intros)
      show "spot P svc own ?w' x = spot P svc own w x" if "x \<noteq> ?d" for x
        using put stay [OF that] that by (simp add: w' spot_def placed_def order_copy_def)
    qed
  qed
qed

lemma report_leaves:
  assumes "orders_agree P svc own w" and "h_outbox (service_chain w) = (para, blob) # q"
  shows "para = own \<Longrightarrow> decode_with (message_codec P) blob = Some m \<Longrightarrow> closes_device m = Some d \<Longrightarrow>
      (\<exists>od. c_orders (client_chain w) d = Some od \<and> o_client od = fst (parties m)) \<and>
      closing_reports P own d q = [] \<and> placed P svc own w d = ([], [], [fst (parties m)])"
    and "\<not> (para = own \<and>
        (\<exists>m. decode_with (message_codec P) blob = Some m \<and> closes_device m = Some d)) \<Longrightarrow>
      closing_reports P own d q = snd (snd (placed P svc own w d))"
proof -
  have split: "closing_reports P own d (h_outbox (service_chain w)) =
    closing_reports P own d [(para, blob)] @ closing_reports P own d q"
    using assms(2) box_Cons(2) [of P own d "(para, blob)" q] by simp
  show "(\<exists>od. c_orders (client_chain w) d = Some od \<and> o_client od = fst (parties m)) \<and>
      closing_reports P own d q = [] \<and> placed P svc own w d = ([], [], [fst (parties m)])"
    if "para = own" "decode_with (message_codec P) blob = Some m" "closes_device m = Some d"
  proof -
    have "closing_reports P own d (h_outbox (service_chain w)) =
        fst (parties m) # closing_reports P own d q"
      using that split by (simp add: closing_reports_def List.map_filter_simps)
    with agree_report [OF assms(1)] show ?thesis by (auto simp: placed_def)
  qed
  show "closing_reports P own d q = snd (snd (placed P svc own w d))"
    if "\<not> (para = own \<and>
        (\<exists>m. decode_with (message_codec P) blob = Some m \<and> closes_device m = Some d))"
    using that split
    by (auto simp: placed_def closing_reports_def List.map_filter_simps split: option.splits)
qed

lemma to_client_moves:
  fixes w :: "('a, 'p, 'c, 'd) network"
  assumes "linked_client P cli" and agree: "orders_agree P svc own w"
  shows "one_moves P svc own w (deliver_to_client cli own sender w)"
proof (cases "h_outbox (service_chain w)")
  case Nil
  then show ?thesis by (simp add: deliver_to_client_def none_moves)
next
  case (Cons x q)
  obtain para blob where x: "x = (para, blob)" by fastforce
  note box = Cons [unfolded x]
  define t where "t = (if para = own then handle_blob_message_cli cli sender 0 blob (client_chain w)
    else client_chain w)"
  let ?w' = "deliver_to_client cli own sender w"
  have w': "?w' = w\<lparr>service_chain := (service_chain w)\<lparr>h_outbox := q\<rparr>, client_chain := t\<rparr>"
    using box by (simp add: deliver_to_client_def t_def)
  have quiet: "h_outbox t = h_outbox (client_chain w)" by (simp add: t_def blob_outbox)
  have other: "spot P svc own ?w' d = spot P svc own w d"
    if "\<not> (para = own \<and> (\<exists>m :: ('a, 'p) xcmp_message.
      decode_with (message_codec P) blob = Some m \<and> closes_device m = Some d))" for d
  proof -
    have "c_orders t d = c_orders (client_chain w) d"
      using blob_places [of cli P sender 0 blob "client_chain w"] assms(1) that
      by (auto simp: t_def linked_client_def split: if_splits)
    with report_leaves(2) [OF agree box that] show ?thesis
      by (simp add: w' spot_def placed_def quiet order_copy_def)
  qed
  show ?thesis
  proof (cases "para = own \<and> (\<exists>(m :: ('a, 'p) xcmp_message) d.
      decode_with (message_codec P) blob = Some m \<and> closes_device m = Some d)")
    case False
    then show ?thesis by (intro none_moves other) blast
  next
    case True
    then obtain m d where m: "decode_with (message_codec P) blob = Some m" "closes_device m = Some d"
      by blast
    from report_leaves(1) [OF agree box _ m] True obtain od where
      od: "c_orders (client_chain w) d = Some od" "o_client od = fst (parties m)"
      and gone: "closing_reports P own d q = []" "placed P svc own w d = ([], [], [fst (parties m)])"
      by blast
    have "c_orders t d \<in> {None, Some od}"
      using blob_places [of cli P sender 0 blob "client_chain w"] assms(1) od(1)
      by (auto simp: t_def linked_client_def split: if_splits)
    then have pass: "passes_on (Some od, [], [], [o_client od]) (c_orders t d, [], [], [])"
      by (auto intro: passes_on.intros)
    show ?thesis
      by (rule one_movesI [OF _ _ pass])
        (use od gone m other in \<open>auto simp: w' spot_def placed_def quiet order_copy_def\<close>)
  qed
qed

lemma fresh_agrees: "fresh_network w \<Longrightarrow> orders_agree P svc own w"
  by (simp add: fresh_network_def fresh_desk_def client_init_def service_init_def orders_agree_def
      placed_def order_copy_def in_one_place_def)

text \<open>The assumptions on the two chains, in one predicate.\<close>

definition well_linked ::
  "('a, 'p) prims \<Rightarrow> ('o, 'a, 'p, 'c, outbox) env \<Rightarrow> ('o2, 'a, 'p, 'd, outbox) service_config \<Rightarrow>
   para_id \<Rightarrow> bool" where
  "well_linked P cli svc own \<longleftrightarrow>
    prim_codecs P \<and> linked P cli svc \<and> test_blob_unread P \<and> own \<noteq> self_para_id svc"

lemma patient_moves:
  assumes "well_linked P cli svc own" and agree: "orders_agree P svc own w"
    and "patient_step reserved alive P cli svc own w w'"
  shows "one_moves P svc own w w'"
proof -
  have P: "prim_codecs P" and links: "linked_client P cli" "linked_service P svc"
    and rest: "test_blob_unread P" "own \<noteq> self_para_id svc"
    using assms(1) by (simp_all add: well_linked_def linked_parts)
  from assms(3) show ?thesis
  proof cases
    case (patient_client i r t)
    with client_moves [OF P links(1) rest(1) agree] show ?thesis by simp
  next
    case (patient_service i r u)
    with service_moves [OF P agree input_hands [OF P links(2) rest(2) patient_service(2)]]
    show ?thesis by simp
  next
    case patient_to_service
    with to_service_moves [OF P links(2) rest(2) agree] show ?thesis by simp
  next
    case patient_to_client
    with to_client_moves [OF links(1) agree] show ?thesis by simp
  qed (auto simp: spot_def placed_def order_copy_def intro!: none_moves)
qed

lemma patient_agrees:
  assumes "well_linked P cli svc own" and "orders_agree P svc own w"
    and "patient_step reserved alive P cli svc own w w'"
  shows "orders_agree P svc own w'"
  using patient_moves [OF assms] one_moves_agree [OF assms(2)] by blast

section \<open>Patient runs are honest\<close>

lemma honest_queue:
  "honest_step reserved alive cli s (s\<lparr>h_outbox := q\<rparr>)"
  using honest_outside [of s "h_now s" reserved alive "h_currency s" cli q]
  by (simp add: outside_change_def)

lemma report_is_honest:
  assumes "linked_client P cli" and "orders_agree P svc own w"
    and "h_outbox (service_chain w) = (own, blob) # q"
  shows "honest_input cli (client_chain w) (CliBlob sender n blob)"
proof (cases "decode_with (message_codec P) blob")
  case None
  with assms(1) show ?thesis by (simp add: linked_client_def)
next
  case (Some m)
  then show ?thesis
    using report_leaves(1) [OF assms(2,3) refl Some] assms(1)
    by (cases m) (auto simp: linked_client_def split: option.splits)
qed

text \<open>The client chain's part of a step is an honest step, or nothing.\<close>

lemma patient_honest:
  fixes w :: "('a, 'p, 'c, 'd) network"
  assumes "well_linked P cli svc own" and agree: "orders_agree P svc own w"
    and "patient_step reserved alive P cli svc own w w'"
  shows "client_chain w' = client_chain w \<or>
    honest_step reserved alive cli (client_chain w) (client_chain w')"
proof -
  have link: "linked_client P cli" using assms(1) by (simp add: well_linked_def linked_parts)
  from assms(3) show ?thesis
  proof cases
    case (patient_client i r t)
    then have "honest_input cli (client_chain w) i" by (cases i) auto
    with patient_client show ?thesis by (auto intro: honest_input_step)
  next
    case patient_to_service
    then show ?thesis
      by (auto simp: deliver_to_service_def split: list.splits prod.splits intro: honest_queue)
  next
    case patient_to_client
    show ?thesis
    proof (cases "h_outbox (service_chain w)")
      case Nil
      with patient_to_client show ?thesis by (simp add: deliver_to_client_def)
    next
      case (Cons x q)
      obtain para blob where x: "x = (para, blob)" by fastforce
      from Cons x patient_to_client report_is_honest [OF link agree, of blob q "self_para_id svc" 0]
      show ?thesis
        by (auto simp: deliver_to_client_def intro: honest_input_step simp del: honest_input.simps)
    qed
  next
    case (patient_client_passes n c)
    from honest_outside [OF this(2,3), of cli "h_outbox (client_chain w)"] patient_client_passes(1)
    show ?thesis by simp
  qed simp_all
qed

text \<open>Seen from the client chain, a patient run of both chains is an honest run.\<close>

definition patient_inv ::
  "('c \<Rightarrow> 'a \<Rightarrow> nat) \<Rightarrow> ('c \<Rightarrow> 'a \<Rightarrow> bool) \<Rightarrow> ('a, 'p) prims \<Rightarrow>
   ('o, 'a, 'p, 'c, outbox) env \<Rightarrow> ('o2, 'a, 'p, 'd, outbox) service_config \<Rightarrow> para_id \<Rightarrow>
   ('a, 'p, 'c, 'd) network \<Rightarrow> bool" where
  "patient_inv reserved alive P cli svc own w \<longleftrightarrow> (well_linked P cli svc own \<longrightarrow>
    orders_agree P svc own w \<and>
    reachable client_init (honest_step reserved alive cli) (client_chain w))"

interpretation patient_run: invariant_system fresh_network "patient_step reserved alive P cli svc own"
    "patient_inv reserved alive P cli svc own" for reserved alive P cli svc own
proof unfold_locales
  fix w :: "('a, 'b, 'c, 'd) network"
  assume "fresh_network w"
  then show "patient_inv reserved alive P cli svc own w"
    by (auto simp: patient_inv_def fresh_agrees fresh_network_def fresh_desk_def intro: reachable_init)
next
  fix w w' :: "('a, 'b, 'c, 'd) network"
  assume "patient_inv reserved alive P cli svc own w" and "patient_step reserved alive P cli svc own w w'"
  then show "patient_inv reserved alive P cli svc own w'"
    using patient_agrees [of P cli svc own w reserved alive w']
      patient_honest [of P cli svc own w reserved alive w']
      reachable_step [of client_init "honest_step reserved alive cli" "client_chain w" "client_chain w'"]
    by (auto simp: patient_inv_def)
qed

section \<open>The properties\<close>

lemma order_listed:
  "(para, blob) \<in> set box \<Longrightarrow> decode_with (message_codec P) blob = Some (NewOrder who ob) \<Longrightarrow>
    order_base_convert ob who \<in> set (order_messages P para (ob_device ob) box)"
  by (force simp: order_messages_def map_filter_def)

lemma report_listed:
  "(para, blob) \<in> set box \<Longrightarrow> decode_with (message_codec P) blob = Some m \<Longrightarrow>
    closes_device m = Some d \<Longrightarrow> fst (parties m) \<in> set (closing_reports P para d box)"
  by (force simp: closing_reports_def map_filter_def)

lemma agree_listed:
  assumes "orders_agree P svc own w"
  shows "od \<in> set (order_messages P (self_para_id svc) d (h_outbox (client_chain w))) \<Longrightarrow>
      c_orders (client_chain w) d = Some od \<and> order_copy own (service_chain w) d = []"
    and "who \<in> set (closing_reports P own d (h_outbox (service_chain w))) \<Longrightarrow>
      (\<exists>od. c_orders (client_chain w) d = Some od \<and> o_client od = who) \<and>
      order_copy own (service_chain w) d = []"
  using assms [unfolded orders_agree_def, THEN spec, of d]
  by (auto simp: in_one_place_def placed_def split: option.splits)

text \<open>
  Claim C5. The two chains agree, whatever other client chains order from the same service chain: in
  every run in which clients do not cancel on the client chain what the service chain still holds
  or has reported, an order of this chain on the service chain is the open order of the device on
  the client chain, term by term; an order message under way carries the open order, and the
  service chain has no copy of it yet; and a report that closes an order names the client of the
  open order, of which the service chain has no copy any more.
\<close>

theorem orders_agree_across_chains:
  fixes w :: "('a, 'p, 'c, 'd) network"
  assumes "well_linked P cli svc own"
    and "reachable fresh_network (patient_step reserved alive P cli svc own) w"
  shows "(\<forall>d od. s_orders (service_chain w) d = Some od \<longrightarrow> o_paraid od = own \<longrightarrow>
      c_orders (client_chain w) d = Some (od\<lparr>o_paraid := 0\<rparr>)) \<and>
    (\<forall>blob who ob. (self_para_id svc, blob) \<in> set (h_outbox (client_chain w)) \<longrightarrow>
      decode_with (message_codec P) blob = Some (NewOrder who ob) \<longrightarrow>
      c_orders (client_chain w) (ob_device ob) = Some (order_base_convert ob who) \<and>
      order_copy own (service_chain w) (ob_device ob) = []) \<and>
    (\<forall>blob m d. (own, blob) \<in> set (h_outbox (service_chain w)) \<longrightarrow>
      decode_with (message_codec P) blob = Some m \<longrightarrow> closes_device m = Some d \<longrightarrow>
      (\<exists>od. c_orders (client_chain w) d = Some od \<and> o_client od = fst (parties m)) \<and>
      order_copy own (service_chain w) d = [])"
proof -
  have agree: "orders_agree P svc own w"
    using patient_run.reachable_inv [OF assms(2)] assms(1) by (simp add: patient_inv_def)
  then have "\<forall>d od. s_orders (service_chain w) d = Some od \<longrightarrow> o_paraid od = own \<longrightarrow>
      c_orders (client_chain w) d = Some (od\<lparr>o_paraid := 0\<rparr>)"
    using agree_copy(1) [OF agree] by (auto simp: order_copy_def orders_agree_def)
  with agree_listed(1) [OF agree order_listed] agree_listed(2) [OF agree report_listed]
  show ?thesis by blast
qed

text \<open>A patient run of the sample network, up to the delivery of the order.\<close>

definition taken_network ::
  "(account_id, order_payload, account_id ledger, account_id ledger) network" where
  "taken_network = deliver_to_service (runtime_service sample_env 200) 100 joined_network"

lemma sample_well_linked: "well_linked runtime_prims sample_env (runtime_service sample_env 200) 100"
  by (simp add: well_linked_def runtime.prim_codecs_axioms sample_linked sample_unread)

lemma joined_patient_run:
  "reachable fresh_network (patient_step ledger_reserved ledger_alive runtime_prims sample_env
    (runtime_service sample_env 200) 100) joined_network"
proof -
  let ?step = "patient_step ledger_reserved ledger_alive runtime_prims sample_env
    (runtime_service sample_env 200) 100"
  let ?w0 = "\<lparr>client_chain = empty_desk, service_chain = empty_service\<rparr>"
  let ?w1 = "\<lparr>client_chain = registered_desk, service_chain = empty_service\<rparr>"
  let ?w2 = "\<lparr>client_chain = ordered_desk, service_chain = empty_service\<rparr>"
  have init: "fresh_network ?w0"
    by (simp add: fresh_network_def fresh_desk_def client_init_def empty_desk_def
        empty_service_init) (simp add: empty_service_def)
  have s1: "?step ?w0 ?w1"
    using patient_client [of sample_env "CliRegister (Some 100) 200 10000 1000 True" ?w0
        "fst (register_cli sample_env (Some 100) 200 10000 1000 True empty_desk)" registered_desk]
    by (simp add: registered_desk_def)
  have s2: "?step ?w1 ?w2"
    using patient_client [of sample_env "CliOrder (Some 200) desk_request" ?w1
        "fst (order_cli sample_env (Some 200) desk_request registered_desk)" ordered_desk]
    by (simp add: ordered_desk_def)
  have s3: "?step ?w2 joined_network"
    using patient_service [of "runtime_service sample_env 200"
        "CallRegister (Some 100) 10000 1000 True" ?w2 "Inr ()" registered_service]
    by (simp add: joined_network_def registered_service_def register_svc_def empty_service_def
        signed_by_def)
  show ?thesis
    by (rule reachable_step [where step = ?step, OF reachable_step [where step = ?step,
        OF reachable_step [where step = ?step,
        OF reachable_init [where init = fresh_network and step = ?step, OF init] s1] s2] s3])
qed

lemma taken_step:
  "patient_step ledger_reserved ledger_alive runtime_prims sample_env (runtime_service sample_env 200)
    100 joined_network taken_network"
  unfolding taken_network_def by (rule patient_to_service)

lemma taken_run:
  "reachable fresh_network (patient_step ledger_reserved ledger_alive runtime_prims sample_env
    (runtime_service sample_env 200) 100) taken_network"
  by (rule reachable_step [OF joined_patient_run taken_step])

lemma taken_copy: "s_orders (service_chain taken_network) 100 = Some (desk_order\<lparr>o_paraid := 100\<rparr>)"
  using runtime_takes_order [OF runtime.prim_codecs_axioms, of "runtime_service sample_env 200"
      100 registered_service desk_request "sample_profile Ready" 0 200]
  by (simp add: taken_network_def deliver_to_service_def joined_network_def ordered_desk_eq
      registered_service_eq desk_defs sample_profile_def empty_service_def)

theorem orders_agree_across_chains_witness:
  "c_orders (client_chain taken_network) 100 = Some desk_order"
proof -
  from orders_agree_across_chains [OF sample_well_linked taken_run, THEN conjunct1, rule_format,
      OF taken_copy]
  show ?thesis by (simp add: desk_defs)
qed

text \<open>
  Claim C4. Solvency of the two linked chains, whose other pallets respect reserves: no message
  from the service chain can make the client chain insolvent, however many other chains the
  service chain works for. With the messages the service chain itself sends, and clients that do
  not cancel what the service chain still holds or has reported, every living account of the
  client chain has in reserve at least the fees of its open orders plus the penalties of the open
  orders of its devices.
\<close>

theorem linked_desk_solvent:
  fixes w :: "('a, 'p, 'c, 'd) network"
  assumes "currency (currency_impl cli) free reserved alive ed" and "well_linked P cli svc own"
    and "reachable fresh_network (patient_step reserved alive P cli svc own) w"
    and "alive (h_currency (client_chain w)) a"
  shows "owed (book_cli (client_chain w)) a \<le> reserved (h_currency (client_chain w)) a"
proof -
  have "reachable client_init (honest_step reserved alive cli) (client_chain w)"
    using patient_run.reachable_inv [OF assms(3)] assms(2) by (simp add: patient_inv_def)
  from honest_run.reachable_inv [OF this] assms(1,4) show ?thesis
    by (auto simp: desk_covered_def covers_def)
qed

theorem linked_desk_solvent_witness:
  "owed (book_cli (client_chain taken_network)) 200
    \<le> ledger_reserved (h_currency (client_chain taken_network)) 200"
proof -
  have "ledger_alive (h_currency (client_chain taken_network)) 200"
    by (simp add: taken_network_def deliver_to_service_def joined_network_def ordered_desk_eq
        sample_desk_def ledger_alive_def)
  then show ?thesis by (rule linked_desk_solvent [OF desk_currency sample_well_linked taken_run])
qed

section \<open>The stages of an order\<close>

text \<open>
  Claim C6. One protocol for both chains: whatever happens in a patient run, at most one device
  has its order moved, and along the stages of \<open>passes_on\<close> only. An order that is
  placed is sent; it is then taken by the service chain or refused; taken, it is reported;
  reported, it is settled or, when the deposits cannot be moved, left to its client; and only what
  is left over is withdrawn. No stage is skipped, repeated or undone, and the terms and the client
  stay the same throughout.
\<close>

theorem orders_pass_through_stages:
  fixes w :: "('a, 'p, 'c, 'd) network"
  assumes "well_linked P cli svc own"
    and "reachable fresh_network (patient_step reserved alive P cli svc own) w"
    and "patient_step reserved alive P cli svc own w w'"
  shows "\<exists>d. passes_on (spot P svc own w d) (spot P svc own w' d) \<and>
    (\<forall>x. x \<noteq> d \<longrightarrow> spot P svc own w' x = spot P svc own w x)"
proof -
  have "orders_agree P svc own w"
    using patient_run.reachable_inv [OF assms(2)] assms(1) by (simp add: patient_inv_def)
  from patient_moves [OF assms(1) this assms(3)] show ?thesis by (simp add: one_moves_def)
qed

theorem orders_pass_through_stages_witness:
  "\<exists>d. passes_on (spot runtime_prims (runtime_service sample_env 200) 100 joined_network d)
      (spot runtime_prims (runtime_service sample_env 200) 100 taken_network d) \<and>
    (\<forall>x. x \<noteq> d \<longrightarrow> spot runtime_prims (runtime_service sample_env 200) 100 taken_network x
      = spot runtime_prims (runtime_service sample_env 200) 100 joined_network x)"
  by (rule orders_pass_through_stages [OF sample_well_linked joined_patient_run taken_step])

end
