(* ===== verification/PatienceEnds.thy ===== *)
theory PatienceEnds
  imports Patience
begin

text \<open>
  Patience is never in vain: from every state of a patient run, a client whose order has passed its
  deadline can bring it about that the service chain and the messages hold nothing of the order any
  more; then the order is settled, or the client may cancel it where it was placed.
\<close>

section \<open>The service chain of a run\<close>

lemma service_quiet_step:
  "service_step svc s (s\<lparr>h_outbox := q\<rparr>)"
  using environment [where s = s and n = "h_now s" and c = "h_currency s" and q = q and cfg = svc]
  by simp

lemma patient_service_part:
  fixes w :: "('a, 'p, 'c, 'd) network"
  assumes "patient_step reserved alive P cli svc own w w'"
  shows "service_chain w' = service_chain w \<or> service_step svc (service_chain w) (service_chain w')"
  using assms
proof cases
  case (patient_service i r u)
  then show ?thesis by (auto intro: input)
next
  case patient_to_service
  have "dispatch_svc svc (BlobMessage own 0 b) (service_chain w)
      = (Inr (), handle_blob_message_svc svc own 0 b (service_chain w))" for b by simp
  from input [OF this] patient_to_service show ?thesis
    by (auto simp: deliver_to_service_def split: list.splits prod.splits)
next
  case patient_to_client
  then show ?thesis
    by (auto simp: deliver_to_client_def split: list.splits prod.splits intro: service_quiet_step)
next
  case (patient_service_passes n e)
  from environment [OF this(2), where cfg = svc and c = e and q = "h_outbox (service_chain w)"]
    patient_service_passes(1)
  show ?thesis by simp
qed simp_all

lemma patient_client_part:
  fixes w :: "('a, 'p, 'c, 'd) network"
  assumes "patient_step reserved alive P cli svc own w w'"
  shows "client_chain w' = client_chain w \<or> client_step cli (client_chain w) (client_chain w')"
  using assms
proof cases
  case (patient_client i r t)
  then show ?thesis by (auto intro: client_input)
next
  case patient_to_service
  have "client_step cli (client_chain w) ((client_chain w)\<lparr>h_outbox := q\<rparr>)" for q
    using client_environment [where s = "client_chain w" and n = "h_now (client_chain w)"
        and c = "h_currency (client_chain w)" and q = q and cfg = cli] by simp
  with patient_to_service show ?thesis
    by (auto simp: deliver_to_service_def split: list.splits prod.splits)
next
  case patient_to_client
  have "dispatch_cli cli (CliBlob sender 0 b) (client_chain w)
      = (Inr (), handle_blob_message_cli cli sender 0 b (client_chain w))" for sender b by simp
  from client_input [OF this] patient_to_client show ?thesis
    by (auto simp: deliver_to_client_def split: list.splits prod.splits)
next
  case (patient_client_passes n c)
  from client_environment [OF this(2), where cfg = cli and c = c and q = "h_outbox (client_chain w)"]
    patient_client_passes(1)
  show ?thesis by simp
qed simp_all

text \<open>Seen from either chain, a patient run is a run of that chain.\<close>

definition both_run ::
  "('o, 'a, 'p, 'c, outbox) env \<Rightarrow> ('o2, 'a, 'p, 'd, outbox) service_config \<Rightarrow>
   ('a, 'p, 'c, 'd) network \<Rightarrow> bool" where
  "both_run cli svc w \<longleftrightarrow> reachable client_init (client_step cli) (client_chain w) \<and>
    reachable service_init (service_step svc) (service_chain w)"

lemma both_run_step:
  assumes "both_run cli svc w" and "patient_step reserved alive P cli svc own w w'"
  shows "both_run cli svc w'"
  using assms(1) patient_client_part [OF assms(2)] patient_service_part [OF assms(2)]
    reachable_step [of client_init "client_step cli" "client_chain w" "client_chain w'"]
    reachable_step [of service_init "service_step svc" "service_chain w" "service_chain w'"]
  by (auto simp: both_run_def)

interpretation patient_both: invariant_system fresh_network
    "patient_step reserved alive P cli svc own" "both_run cli svc" for reserved alive P cli svc own
  by unfold_locales (simp add: both_run_def fresh_network_def fresh_desk_def reachable_init,
      rule both_run_step)

section \<open>Draining the queues\<close>

lemma blob_now_svc: "h_now (handle_blob_message_svc cfg p n b s) = h_now s"
proof -
  have "h_now t = h_now s" if "order_received_svc cfg od d s = (r, t)" for od d r t
    using that
    by (auto simp: order_received_svc_def order_accept_svc_def Let_def and_then_def try_pure_def
        host_calls_svc split: option.splits if_splits prod.splits sum.splits)
  from this [OF prod.collapse [symmetric]] show ?thesis
    by (simp add: handle_blob_message_svc_def split: option.split xcmp_message.split)
qed

lemma blob_now_cli: "h_now (handle_blob_message_cli cfg p n b s) = h_now s"
proof -
  have rej: "h_now t = h_now s" if "order_reject_cli cfg who od now d dev s = (r, t)"
    for who od now d dev r t
    using that by (auto simp: order_reject_cli_def Let_def and_then_def host_calls_cli
        storage_cli_defs split: if_splits prod.splits sum.splits)
  have rejected: "h_now t = h_now s" if "on_reject_cli cfg who d onoff s = (r, t)" for who d onoff r t
    using on_reject_cases [OF that] rej by auto
  have finished: "h_now t = h_now s" if "on_done_cli cfg who d onoff s = (r, t)" for who d onoff r t
    using that by (auto simp: on_done_cli_def Let_def and_then_def try_pure_def host_calls_cli
        storage_cli_defs split: option.splits if_splits prod.splits sum.splits)
  show ?thesis
    using rejected [OF prod.collapse [symmetric]] finished [OF prod.collapse [symmetric]]
    by (simp add: handle_blob_message_cli_def on_accept_cli_def deposit_event_cli_def
        split: option.split xcmp_message.split)
qed

text \<open>
  What the client of an order does while it waits: it lets the messages arrive, it cancels the order
  on the service chain, and it cancels it on the client chain once it is nowhere else.
\<close>

inductive client_waits ::
  "('a, 'p) prims \<Rightarrow> ('o, 'a, 'p, 'c, outbox) env \<Rightarrow> ('o2, 'a, 'p, 'd, outbox) service_config \<Rightarrow>
   para_id \<Rightarrow> 'o2 \<Rightarrow> 'o \<Rightarrow> 'a \<Rightarrow> ('a, 'p, 'c, 'd) network \<Rightarrow> ('a, 'p, 'c, 'd) network \<Rightarrow> bool"
  for P cli svc own sorigin corigin d w where
  waits_orders: "client_waits P cli svc own sorigin corigin d w (deliver_to_service svc own w)"
| waits_reports:
    "client_waits P cli svc own sorigin corigin d w (deliver_to_client cli own (self_para_id svc) w)"
| waits_cancels_there: "dispatch_svc svc (CallCancel sorigin d) (service_chain w) = (r, u) \<Longrightarrow>
    client_waits P cli svc own sorigin corigin d w (w\<lparr>service_chain := u\<rparr>)"
| waits_cancels_here: "dispatch_cli cli (CliCancel corigin d) (client_chain w) = (r, t) \<Longrightarrow>
    placed P svc own w d = ([], [], []) \<Longrightarrow>
    client_waits P cli svc own sorigin corigin d w (w\<lparr>client_chain := t\<rparr>)"

text \<open>All of it is allowed to patient clients, whatever the other pallets may do.\<close>

lemma waiting_step_patient:
  assumes "client_waits P cli svc own sorigin corigin d w w'"
  shows "patient_step reserved alive P cli svc own w w'"
  using assms
proof cases
  case (waits_cancels_there r u)
  from patient_service [OF waits_cancels_there(2)] waits_cancels_there(1) show ?thesis by simp
next
  case (waits_cancels_here r t)
  show ?thesis unfolding waits_cancels_here(1)
    by (rule patient_client [OF waits_cancels_here(2)]) (use waits_cancels_here(3) in simp_all)
qed (auto intro: patient_to_service patient_to_client)

lemma waiting_is_patient:
  "(client_waits P cli svc own sorigin corigin d)\<^sup>*\<^sup>* w v \<Longrightarrow>
    (patient_step reserved alive P cli svc own)\<^sup>*\<^sup>* w v"
  by (erule rtranclp_mono [THEN predicate2D, rotated])
    (blast intro: waiting_step_patient)

lemma drain_orders:
  fixes w :: "('a, 'p, 'c, 'd) network"
  obtains v where "(client_waits P cli svc own sorigin corigin e)\<^sup>*\<^sup>* w v"
    and "client_chain v = (client_chain w)\<lparr>h_outbox := []\<rparr>"
    and "h_now (service_chain v) = h_now (service_chain w)"
proof -
  have "\<exists>v. (client_waits P cli svc own sorigin corigin e)\<^sup>*\<^sup>* w v \<and>
      client_chain v = (client_chain w)\<lparr>h_outbox := []\<rparr> \<and> h_now (service_chain v) = h_now (service_chain w)"
  proof (induction "h_outbox (client_chain w)" arbitrary: w)
    case Nil
    then show ?case by (intro exI [of _ w]) simp
  next
    case (Cons x q)
    let ?w = "deliver_to_service svc own w"
    obtain para blob where x: "x = (para, blob)" by fastforce
    have w: "client_chain ?w = (client_chain w)\<lparr>h_outbox := q\<rparr>"
      "h_now (service_chain ?w) = h_now (service_chain w)"
      using Cons(2) [symmetric] x by (simp_all add: deliver_to_service_def blob_now_svc)
    with Cons(1) [of ?w] obtain v where v: "(client_waits P cli svc own sorigin corigin e)\<^sup>*\<^sup>* ?w v"
      "client_chain v = (client_chain w)\<lparr>h_outbox := []\<rparr>"
      "h_now (service_chain v) = h_now (service_chain w)" by auto
    have "(client_waits P cli svc own sorigin corigin e)\<^sup>*\<^sup>* w v"
      by (rule converse_rtranclp_into_rtranclp [OF _ v(1)]) (rule waits_orders)
    with v(2,3) show ?case by blast
  qed
  then show ?thesis using that by blast
qed

lemma drain_reports:
  fixes w :: "('a, 'p, 'c, 'd) network"
  assumes "linked_client P cli"
  obtains v where "(client_waits P cli svc own sorigin corigin e)\<^sup>*\<^sup>* w v"
    and "service_chain v = (service_chain w)\<lparr>h_outbox := []\<rparr>"
    and "h_outbox (client_chain v) = h_outbox (client_chain w)"
    and "h_now (client_chain v) = h_now (client_chain w)"
    and "\<forall>d. c_orders (client_chain v) d \<in> {None, c_orders (client_chain w) d}"
proof -
  have "\<exists>v. (client_waits P cli svc own sorigin corigin e)\<^sup>*\<^sup>* w v \<and>
      service_chain v = (service_chain w)\<lparr>h_outbox := []\<rparr> \<and>
      h_outbox (client_chain v) = h_outbox (client_chain w) \<and>
      h_now (client_chain v) = h_now (client_chain w) \<and>
      (\<forall>d. c_orders (client_chain v) d \<in> {None, c_orders (client_chain w) d})"
  proof (induction "h_outbox (service_chain w)" arbitrary: w)
    case Nil
    then show ?case by (intro exI [of _ w]) simp
  next
    case (Cons x q)
    let ?w = "deliver_to_client cli own (self_para_id svc) w"
    obtain para blob where x: "x = (para, blob)" by fastforce
    have w: "service_chain ?w = (service_chain w)\<lparr>h_outbox := q\<rparr>"
      "h_outbox (client_chain ?w) = h_outbox (client_chain w)"
      "h_now (client_chain ?w) = h_now (client_chain w)"
      using Cons(2) [symmetric] x by (simp_all add: deliver_to_client_def blob_now_cli blob_outbox)
    have orders: "c_orders (client_chain ?w) d \<in> {None, c_orders (client_chain w) d}" for d
      using Cons(2) [symmetric] x blob_places [of cli P "self_para_id svc" 0 blob "client_chain w"] assms
      by (auto simp: deliver_to_client_def linked_client_def)
    from w Cons(1) [of ?w] obtain v where v: "(client_waits P cli svc own sorigin corigin e)\<^sup>*\<^sup>* ?w v"
      "service_chain v = (service_chain w)\<lparr>h_outbox := []\<rparr>"
      "h_outbox (client_chain v) = h_outbox (client_chain w)"
      "h_now (client_chain v) = h_now (client_chain w)"
      "\<And>d. c_orders (client_chain v) d \<in> {None, c_orders (client_chain ?w) d}" by auto
    have "(client_waits P cli svc own sorigin corigin e)\<^sup>*\<^sup>* w v"
      by (rule converse_rtranclp_into_rtranclp [OF _ v(1)]) (rule waits_reports)
    moreover have "c_orders (client_chain v) d \<in> {None, c_orders (client_chain w) d}" for d
      using v(5) [of d] orders [of d] by auto
    ultimately show ?case using v(2-4) by blast
  qed
  then show ?thesis using that by blast
qed

section \<open>Both chains let go\<close>

lemma waiting_run_inv:
  assumes "(client_waits P cli svc own sorigin corigin e)\<^sup>*\<^sup>* w v"
    and "patient_inv reserved alive P cli svc own w" and "both_run cli svc w"
  shows "patient_inv reserved alive P cli svc own v \<and> both_run cli svc v"
  using patient_run.inv_rtranclp [OF waiting_is_patient [OF assms(1)] assms(2)]
    patient_both.inv_rtranclp [OF waiting_is_patient [OF assms(1)] assms(3)] by blast

text \<open>The client can take its overdue order off the service chain, which reports that it has.\<close>

lemma overdue_copy_cancelled:
  fixes w :: "('a, 'p, 'c, 'd) network"
  assumes link: "linked_service P svc" and "receiver_ok svc" and "both_run cli svc w"
    and od: "s_orders (service_chain w) d = Some od" and far: "o_paraid od \<noteq> self_para_id svc"
    and late: "o_until od \<le> h_now (service_chain w)" and who: "ensure_signed svc origin = Inr (o_client od)"
  obtains u where "client_waits P cli svc own origin corigin d w (w\<lparr>service_chain := u\<rparr>)"
    and "s_orders u = (s_orders (service_chain w))(d := None)"
proof -
  let ?s = "service_chain w"
  have "service_wf ?s"
    using service_run.reachable_inv [of svc ?s] assms(2,3) by (simp add: both_run_def)
  then obtain p where p: "s_devices ?s d = Some p" using service_wf_order od by metis
  obtain u where u: "order_reject_svc svc (Some od) (h_now ?s) d p False ?s = (Inr (), u)"
    using link far by (simp add: order_reject_svc_def send_linked)
  have "dispatch_svc svc (CallCancel origin d) ?s = (Inr (), u)"
    using od late who p u by (simp add: cancel_svc_def Let_def not_less)
  then have "client_waits P cli svc own origin corigin d w (w\<lparr>service_chain := u\<rparr>)"
    by (rule waits_cancels_there)
  with that order_reject_storage [OF u] show ?thesis by simp
qed

text \<open>After the messages, a cancellation and the reports, nothing of the order is left on the way.\<close>

lemma order_released:
  fixes w :: "('a, 'p, 'c, 'd) network"
  assumes good: "well_linked P cli svc own" and recv: "receiver_ok svc"
    and inv: "patient_inv reserved alive P cli svc own w" "both_run cli svc w"
    and od: "c_orders (client_chain w) d = Some od"
    and late: "o_until od \<le> h_now (service_chain w)"
    and who: "ensure_signed svc origin = Inr (o_client od)"
  obtains v where "(client_waits P cli svc own origin corigin d)\<^sup>*\<^sup>* w v"
    and "placed P svc own v d = ([], [], [])" and "h_now (client_chain v) = h_now (client_chain w)"
    and "c_orders (client_chain v) d \<in> {None, Some od}"
proof -
  have links: "linked_client P cli" "linked_service P svc"
    using good by (simp_all add: well_linked_def linked_parts)
  obtain w1 where w1: "(client_waits P cli svc own origin corigin d)\<^sup>*\<^sup>* w w1"
    "client_chain w1 = (client_chain w)\<lparr>h_outbox := []\<rparr>"
    "h_now (service_chain w1) = h_now (service_chain w)" by (rule drain_orders)
  note inv1 = waiting_run_inv [OF w1(1) inv]
  have agree: "orders_agree P svc own w1" using inv1 good by (simp add: patient_inv_def)
  have "\<exists>w2. (client_waits P cli svc own origin corigin d)\<^sup>*\<^sup>* w1 w2 \<and>
    client_chain w2 = client_chain w1 \<and> order_copy own (service_chain w2) d = []"
  proof (cases "order_copy own (service_chain w1) d")
    case Nil
    then show ?thesis by blast
  next
    case (Cons x xs)
    then obtain copy where copy: "s_orders (service_chain w1) d = Some copy"
      "o_paraid copy \<noteq> self_para_id svc" "order_copy own (service_chain w1) d = [copy\<lparr>o_paraid := 0\<rparr>]"
      using good by (auto simp: order_copy_def well_linked_def split: option.splits if_splits)
    from agree_copy(1) [OF agree copy(3)] od w1(2) have "od = copy\<lparr>o_paraid := 0\<rparr>" by simp
    with late w1(3) who have "o_until copy \<le> h_now (service_chain w1)"
      "ensure_signed svc origin = Inr (o_client copy)" by simp_all
    then obtain u where "client_waits P cli svc own origin corigin d w1 (w1\<lparr>service_chain := u\<rparr>)"
      "s_orders u = (s_orders (service_chain w1))(d := None)"
      by (rule overdue_copy_cancelled [OF links(2) recv conjunct2 [OF inv1] copy(1,2)])
    then show ?thesis
      by (intro exI [of _ "w1\<lparr>service_chain := u\<rparr>"]) (auto simp: order_copy_def)
  qed
  then obtain w2 where w2: "(client_waits P cli svc own origin corigin d)\<^sup>*\<^sup>* w1 w2"
    "client_chain w2 = client_chain w1" "order_copy own (service_chain w2) d = []" by blast
  obtain v where v: "(client_waits P cli svc own origin corigin d)\<^sup>*\<^sup>* w2 v"
    "service_chain v = (service_chain w2)\<lparr>h_outbox := []\<rparr>"
    "h_outbox (client_chain v) = h_outbox (client_chain w2)"
    "h_now (client_chain v) = h_now (client_chain w2)"
    "\<forall>d. c_orders (client_chain v) d \<in> {None, c_orders (client_chain w2) d}"
    by (rule drain_reports [OF links(1), where w = w2 and svc = svc and own = own
          and sorigin = origin and corigin = corigin and e = d])
  show ?thesis
  proof (rule that)
    show "(client_waits P cli svc own origin corigin d)\<^sup>*\<^sup>* w v"
      using w1(1) w2(1) v(1) by (blast intro: rtranclp_trans)
    show "placed P svc own v d = ([], [], [])"
      using w2(3) by (simp add: placed_def v(2,3) w2(2) w1(2) order_copy_def)
    show "h_now (client_chain v) = h_now (client_chain w)" by (simp add: v(4) w2(2) w1(2))
    show "c_orders (client_chain v) d \<in> {None, Some od}" using v(5) od
      by (auto simp: w2(2) w1(2) dest!: spec [of _ d])
  qed
qed

text \<open>
  Claim C7. Waiting is never in vain: in every state of a patient run of two linked chains, the client
  of an order past its deadline on both clocks can end it alone and without giving up its patience.
  There is a run of nothing but deliveries of the waiting messages, cancellations of this order
  signed by the client on the service chain, and cancellations of it signed by the client on the
  client chain once the service chain and the messages hold nothing of it, after which neither
  chain and no message holds anything of the order, unless the account of the client no longer
  exists on the client chain at the end of that run: then the order may still be stored there.
\<close>

theorem patience_ends:
  fixes w :: "('a, 'p, 'c, 'd) network"
  assumes cur: "currency (currency_impl cli) free reserved alive ed"
    and good: "well_linked P cli svc own" and recv: "receiver_ok svc"
    and run: "reachable fresh_network (patient_step reserved alive P cli svc own) w"
    and od: "c_orders (client_chain w) d = Some od"
    and late: "o_until od \<le> h_now (service_chain w)" "o_until od \<le> h_now (client_chain w)"
    and who: "ensure_signed svc sorigin = Inr (o_client od)" "ensure_signed cli corigin = Inr (o_client od)"
  shows "\<exists>v. (client_waits P cli svc own sorigin corigin d)\<^sup>*\<^sup>* w v \<and>
    placed P svc own v d = ([], [], []) \<and>
    (c_orders (client_chain v) d = None \<or> \<not> alive (h_currency (client_chain v)) (o_client od))"
proof -
  note inv = patient_run.reachable_inv [OF run] patient_both.reachable_inv [OF run]
  obtain v where v: "(client_waits P cli svc own sorigin corigin d)\<^sup>*\<^sup>* w v"
    "placed P svc own v d = ([], [], [])" "h_now (client_chain v) = h_now (client_chain w)"
    "c_orders (client_chain v) d \<in> {None, Some od}"
    by (rule order_released [OF good recv inv od late(1) who(1)])
  show ?thesis
  proof (cases "c_orders (client_chain v) d = None \<or> \<not> alive (h_currency (client_chain v)) (o_client od)")
    case True
    with v show ?thesis by blast
  next
    case False
    let ?s = "client_chain v"
    from False v(4) have here: "c_orders ?s d = Some od" by (cases "c_orders ?s d") auto
    have "client_wf ?s"
      using client_run.reachable_inv [of cli ?s] waiting_run_inv [OF v(1) inv] by (simp add: both_run_def)
    then obtain p where p: "c_devices ?s d = Some p" using client_wf_order here by metis
    have "o_until od \<le> h_now ?s" using late(2) v(3) by simp
    then obtain t where t: "order_reject_cli cli (o_client od) od (h_now ?s) d p ?s = (Inr (), t)"
      using overdue_desk_reject_succeeds [OF cur, of od "h_now ?s" ?s] False by blast
    have "dispatch_cli cli (CliCancel corigin d) ?s = (Inr (), t)"
      using here who(2) p t \<open>o_until od \<le> h_now ?s\<close> by (simp add: cancel_cli_def Let_def not_less)
    then have "client_waits P cli svc own sorigin corigin d v (v\<lparr>client_chain := t\<rparr>)"
      by (rule waits_cancels_here) (rule v(2))
    moreover have "c_orders t d = None" using order_reject_cli_storage [OF t] by simp
    moreover have "placed P svc own (v\<lparr>client_chain := t\<rparr>) d = ([], [], [])"
      using v(2) order_reject_outbox [OF t] by (simp add: placed_def)
    ultimately show ?thesis
      using v(1) by (intro exI [of _ "v\<lparr>client_chain := t\<rparr>"]) (auto intro: rtranclp.rtrancl_into_rtrancl)
  qed
qed

text \<open>The sample run, when the deadline has passed on both chains.\<close>

definition waited_network ::
  "(account_id, order_payload, account_id ledger, account_id ledger) network" where
  "waited_network = service_clock 6000 (client_clock 6000 taken_network)"

lemma waited_run:
  "reachable fresh_network (patient_step ledger_reserved ledger_alive runtime_prims sample_env
    (runtime_service sample_env 200) 100) waited_network"
proof -
  let ?step = "patient_step ledger_reserved ledger_alive runtime_prims sample_env
    (runtime_service sample_env 200) 100"
  let ?w = "client_clock 6000 taken_network"
  have zero: "h_now (client_chain taken_network) = 0" "h_now (service_chain ?w) = 0"
    by (simp_all add: client_clock_def taken_network_def deliver_to_service_def joined_network_def
        ordered_desk_eq sample_desk_def blob_now_svc registered_service_eq empty_service_def)
  have s1: "?step taken_network ?w"
    using patient_client_passes [of taken_network 6000 ledger_reserved ledger_alive
        "h_currency (client_chain taken_network)" runtime_prims sample_env]
    by (simp add: zero client_clock_def outside_change_def)
  have s2: "?step ?w waited_network"
    using patient_service_passes [of ?w 6000 ledger_reserved ledger_alive runtime_prims sample_env
        "runtime_service sample_env 200" 100 "h_currency (service_chain ?w)"]
    by (simp add: zero(2) waited_network_def service_clock_def)
  show ?thesis
    by (rule reachable_step [where step = ?step, OF reachable_step [where step = ?step,
        OF taken_run s1] s2])
qed

theorem patience_ends_witness:
  "\<exists>v :: (account_id, order_payload, account_id ledger, account_id ledger) network.
    (client_waits runtime_prims sample_env (runtime_service sample_env 200) 100 (Some 200) (Some 200) 100)\<^sup>*\<^sup>*
      waited_network v \<and>
    placed runtime_prims (runtime_service sample_env 200) 100 v 100 = ([], [], []) \<and>
    (c_orders (client_chain v) 100 = None \<or> \<not> ledger_alive (h_currency (client_chain v)) 200)"
proof -
  have od: "c_orders (client_chain waited_network) 100 = Some desk_order"
    by (simp add: waited_network_def service_clock_def client_clock_def taken_network_def
        deliver_to_service_def joined_network_def ordered_desk_eq sample_desk_def)
  have "o_until desk_order \<le> h_now (service_chain waited_network)"
    "o_until desk_order \<le> h_now (client_chain waited_network)"
    "ensure_signed (runtime_service sample_env 200) (Some 200) = Inr (o_client desk_order)"
    "ensure_signed sample_env (Some 200) = Inr (o_client desk_order)"
    by (simp_all add: waited_network_def service_clock_def client_clock_def desk_defs signed_by_def)
  from patience_ends [OF desk_currency sample_well_linked accept_on_receive_ok waited_run od this]
  show ?thesis by (auto simp: desk_defs)
qed

end
