(* ===== verification/Contract.thy ===== *)
theory Contract
  imports NetworkHistory Recovery
begin

text \<open>
  One escrow contract behind both pallets. The two pallets are written separately, and each holds
  the deposits of the orders it keeps: the service pallet of the local ones, the client pallet of
  all of its own. This theory states what both promise as a contract of its own, shows that each
  pallet carries it out, and that the same actions, taken on both, have the same outcome.
\<close>

section \<open>The contract\<close>

text \<open>
  The terms of an order without the chain it came from, the offer of a device, and a log. The
  contract does not see whether a device has accepted its order, since the hook of the service
  chain may accept for it before the client chain hears of it: \<open>Busy2\<close> of the service pallet is the
  \<open>Busy\<close> of the client pallet, and the log has no entries of acceptances.
\<close>

record ('a, 'p) terms =
  t_until :: moment
  t_data :: 'p
  t_fee :: balance
  t_client :: 'a

record offer =
  f_state :: device_state
  f_penalty :: balance
  f_wcd :: moment

record ('a, 'p, 'c) contract = "('c, unit) host" +
  k_offers :: "'a \<Rightarrow> offer option"
  k_terms :: "'a \<Rightarrow> ('a, 'p) terms option"
  k_log :: "'a service_event list"

type_synonym ('a, 'p, 'c) contract_result =
  "(client_error dispatch_error, unit, ('a, 'p, 'c) contract) outcome"

definition log_entry :: "'a service_event \<Rightarrow> ('a, 'p, 'c) contract \<Rightarrow> ('a, 'p, 'c) contract" where
  "log_entry ev k = k\<lparr>k_log := k_log k @ [ev]\<rparr>"

definition put_offer :: "'a \<Rightarrow> offer \<Rightarrow> ('a, 'p, 'c) contract \<Rightarrow> ('a, 'p, 'c) contract" where
  "put_offer d f k = k\<lparr>k_offers := (k_offers k)(d \<mapsto> f)\<rparr>"

definition put_terms ::
  "'a \<Rightarrow> ('a, 'p) terms option \<Rightarrow> ('a, 'p, 'c) contract \<Rightarrow> ('a, 'p, 'c) contract" where
  "put_terms d t k = k\<lparr>k_terms := (k_terms k)(d := t)\<rparr>"

lemmas contract_writes = log_entry_def put_offer_def put_terms_def

lemma put_offer_log_entry: "put_offer d f (log_entry ev k) = log_entry ev (put_offer d f k)"
  by (simp add: contract_writes)

text \<open>A new order locks the device's penalty and then the client's fee.\<close>

definition contract_place ::
  "('o, 'a, 'p, 'c, unit) env \<Rightarrow> 'a \<Rightarrow> ('a, 'p) order_base \<Rightarrow> ('a, 'p, 'c) contract \<Rightarrow>
   ('a, 'p, 'c) contract_result" where
  "contract_place env who ob k =
    (if ob_until ob \<le> h_now k then (Inl (Pallet CliOverdue), k)
     else if k_terms k (ob_device ob) \<noteq> None then (Inl (Pallet CliIllegalState), k)
     else try_pure (ok_or (k_offers k (ob_device ob)) (Pallet CliNoDevice)) k (\<lambda>f.
       if f_state f \<noteq> Ready then (Inl (Pallet CliIllegalState), k)
       else if ob_until ob < h_now k + f_wcd f then (Inl (Pallet CliBadOrderDetails), k)
       else if \<not> can_reserve_now env who (ob_fee ob) k then (Inl (Pallet CliDeviceLowBail), k)
       else and_then (reserve_now env (ob_device ob) (f_penalty f) k) (\<lambda>_ k.
         and_then (reserve_now env who (ob_fee ob) k) (\<lambda>_ k.
           (Inr (), log_entry (EvNewOrder (ob_device ob))
             (put_offer (ob_device ob) (f\<lparr>f_state := Busy\<rparr>)
               (put_terms (ob_device ob)
                 (Some \<lparr>t_until = ob_until ob, t_data = ob_data ob, t_fee = ob_fee ob, t_client = who\<rparr>)
                 k)))))))"

text \<open>The penalty goes back to the device before the deadline and to the client after it.\<close>

definition contract_penalty ::
  "('o, 'a, 'p, 'c, unit) env \<Rightarrow> 'a \<Rightarrow> offer \<Rightarrow> ('a, 'p) terms \<Rightarrow> ('a, 'p, 'c) contract \<Rightarrow>
   ('a, 'p, 'c) contract_result" where
  "contract_penalty env d f t k =
    (if h_now k < t_until t then (Inr (), unreserve_now env d (f_penalty f) k)
     else and_then (repatriate_now env d (t_client t) (f_penalty f) k) (\<lambda>_ k. (Inr (), k)))"

text \<open>An order that ends without the work: the fee goes back to the client.\<close>

definition contract_return ::
  "('o, 'a, 'p, 'c, unit) env \<Rightarrow> 'a \<Rightarrow> offer \<Rightarrow> ('a, 'p) terms \<Rightarrow>
   ('a, 'p, 'c) contract \<Rightarrow> ('a, 'p, 'c) contract_result" where
  "contract_return env d f t k =
    and_then (contract_penalty env d f t (unreserve_now env (t_client t) (t_fee t) k)) (\<lambda>_ k.
      (Inr (), log_entry (EvReject d) (put_offer d f (put_terms d None k))))"

text \<open>An order that ends with the work: the fee goes to the device.\<close>

definition contract_pay ::
  "('o, 'a, 'p, 'c, unit) env \<Rightarrow> 'a \<Rightarrow> offer \<Rightarrow> ('a, 'p) terms \<Rightarrow>
   ('a, 'p, 'c) contract \<Rightarrow> ('a, 'p, 'c) contract_result" where
  "contract_pay env d f t k =
    and_then (repatriate_now env (t_client t) d (t_fee t) k) (\<lambda>_ k.
      and_then (contract_penalty env d f t k) (\<lambda>_ k.
        (Inr (), log_entry (EvDone d) (put_offer d f (put_terms d None k)))))"

text \<open>
  What the parties do: clients place and withdraw, devices enrol, take, refuse and finish, and time
  passes. \<open>Take\<close>, \<open>Refuse\<close> and \<open>Finish\<close> name the client of the order and the device, as the
  reports between the chains do.
\<close>

datatype ('o, 'a, 'p) desk_action =
    Place 'o "('a, 'p) order_base"
  | Withdraw 'o 'a
  | Enrol 'o balance moment bool
  | Take 'a 'a
  | Refuse 'a 'a bool
  | Finish 'a 'a bool
  | Wait moment

fun contract_do ::
  "('o, 'a, 'p, 'c, unit) env \<Rightarrow> ('o, 'a, 'p) desk_action \<Rightarrow> ('a, 'p, 'c) contract \<Rightarrow>
   ('a, 'p, 'c) contract_result" where
  "contract_do env (Place origin ob) k =
    try_pure (foreign (ensure_signed env origin)) k (\<lambda>who. contract_place env who ob k)"
| "contract_do env (Withdraw origin d) k =
    try_pure (foreign (ensure_signed env origin)) k (\<lambda>who.
    try_pure (ok_or (k_terms k d) (Pallet CliNoOrder)) k (\<lambda>t.
      if h_now k < t_until t \<or> t_client t \<noteq> who then (Inl (Pallet CliProhibited), k)
      else try_pure (ok_or (k_offers k d) (Pallet CliNoDevice)) k (\<lambda>f.
        contract_return env d f t k)))"
| "contract_do env (Enrol origin penalty wcd onoff) k =
    try_pure (foreign (ensure_signed env origin)) k (\<lambda>d.
      if k_terms k d \<noteq> None then (Inl (Pallet CliDeviceExists), k)
      else (Inr (), log_entry (EvNewDevice d)
        (put_offer d \<lparr>f_state = state_of_onoff onoff, f_penalty = penalty, f_wcd = wcd\<rparr> k)))"
| "contract_do env (Take who d) k = (Inr (), k)"
| "contract_do env (Refuse who d onoff) k =
    try_pure (ok_or (k_terms k d) (Pallet CliNoOrder)) k (\<lambda>t.
    try_pure (ok_or (k_offers k d) (Pallet CliNoDevice)) k (\<lambda>f.
      contract_return env d (f\<lparr>f_state := state_of_onoff onoff\<rparr>) t k))"
| "contract_do env (Finish who d onoff) k =
    try_pure (ok_or (k_terms k d) (Pallet CliNoOrder)) k (\<lambda>t.
    try_pure (ok_or (k_offers k d) (Pallet CliNoDevice)) k (\<lambda>f.
      contract_pay env d (f\<lparr>f_state := state_of_onoff onoff\<rparr>) t k))"
| "contract_do env (Wait n) k = (Inr (), k\<lparr>h_now := n\<rparr>)"

section \<open>A pallet that carries out the contract\<close>

text \<open>
  Actions taken one after the other, with the results they return. A failing action ends nothing:
  what it left is the state the next one finds.
\<close>

fun perform_all :: "('i \<Rightarrow> 's \<Rightarrow> 'r \<times> 's) \<Rightarrow> 'i list \<Rightarrow> 's \<Rightarrow> 'r list \<times> 's" where
  "perform_all act [] s = ([], s)"
| "perform_all act (i # is) s =
    (let (r, s') = act i s; (rs, t) = perform_all act is s' in (r # rs, t))"

fun all_ready :: "('i \<Rightarrow> 's \<Rightarrow> bool) \<Rightarrow> ('i \<Rightarrow> 's \<Rightarrow> 'r \<times> 's) \<Rightarrow> 'i list \<Rightarrow> 's \<Rightarrow> bool" where
  "all_ready ready act [] s \<longleftrightarrow> True"
| "all_ready ready act (i # is) s \<longleftrightarrow> ready i s \<and> all_ready ready act is (snd (act i s))"

text \<open>
  The interface: how the state of the pallet is seen as a state of the contract, how its results
  are read, and when an action of the pallet is one the contract knows.
\<close>

locale contract_desk =
  fixes spec :: "'i \<Rightarrow> 'k \<Rightarrow> 'q \<times> 'k"
    and act :: "'i \<Rightarrow> 's \<Rightarrow> 'r \<times> 's"
    and ready :: "'i \<Rightarrow> 's \<Rightarrow> bool"
    and shown :: "'r \<Rightarrow> 'q"
    and view :: "'s \<Rightarrow> 'k"
  assumes carries_out: "ready i s \<Longrightarrow> map_prod shown view (act i s) = spec i (view s)"
begin

lemma carries_out_all:
  "all_ready ready act is s \<Longrightarrow>
    map_prod (map shown) view (perform_all act is s) = perform_all spec is (view s)"
proof (induction "is" arbitrary: s)
  case (Cons i "is")
  obtain r s' where first: "act i s = (r, s')" by fastforce
  obtain rs t where rest: "perform_all act is s' = (rs, t)" by fastforce
  from Cons.prems carries_out have "spec i (view s) = map_prod shown view (act i s)" by simp
  moreover from Cons.IH [of s'] Cons.prems first
  have "perform_all spec is (view s') = map_prod (map shown) view (perform_all act is s')" by simp
  ultimately show ?case using first rest by simp
qed simp

end

section \<open>Calls into the libraries, seen through a view\<close>

abbreviation shown_with :: "('e \<Rightarrow> 'f) \<Rightarrow> 'e dispatch_error + 'u \<Rightarrow> 'f dispatch_error + 'u" where
  "shown_with f \<equiv> map_sum (map_dispatch_error f) id"

lemma shown_with_foreign [simp]: "shown_with f (foreign r) = foreign r"
  by (cases r) simp_all

lemma map_prod_try_pure:
  "map_prod (shown_with f) v (try_pure r s k)
    = try_pure (shown_with f r) (v s) (\<lambda>a. map_prod (shown_with f) v (k a))"
  by (cases r) simp_all

lemma and_then_assoc:
  "and_then (and_then r k) l = and_then r (\<lambda>a s. and_then (k a s) l)"
  by (cases r; cases "fst r") auto

lemma map_prod_and_then:
  assumes "map_prod (shown_with f) v r = r'"
    and "\<And>u t. map_prod (shown_with f) v (k u t) = k' u (v t)"
  shows "map_prod (shown_with f) v (and_then r k) = and_then r' k'"
  using assms by (cases r; cases "fst r") auto

lemma map_prod_if: "map_prod f v (if b then x else y) = (if b then map_prod f v x else map_prod f v y)"
  by simp

locale host_view =
  fixes v :: "('c, 'q, 'z) host_scheme \<Rightarrow> ('c, 'r, 'y) host_scheme"
  assumes view_now: "h_now (v s) = h_now s"
    and view_currency: "h_currency (v s) = h_currency s"
    and view_pays: "v (s\<lparr>h_currency := c\<rparr>) = (v s)\<lparr>h_currency := c\<rparr>"
    and view_sends: "v (s\<lparr>h_outbox := q\<rparr>) = v s"
begin

lemma view_can_reserve:
  assumes "currency_impl env = currency_impl cfg"
  shows "can_reserve_now env a x (v s) = can_reserve_now cfg a x s"
  using assms by (simp add: can_reserve_now_def view_currency)

lemma view_unreserve:
  assumes "currency_impl env = currency_impl cfg"
  shows "v (unreserve_now cfg a x s) = unreserve_now env a x (v s)"
  using assms by (simp add: unreserve_now_def view_currency view_pays)

lemma view_reserve:
  assumes "currency_impl env = currency_impl cfg"
    and "\<And>t. map_prod (shown_with f) v (k () t) = k' () (v t)"
  shows "map_prod (shown_with f) v (and_then (reserve_now cfg a x s) k)
    = and_then (reserve_now env a x (v s)) k'"
proof (cases "reserve (currency_impl cfg) a x (h_currency s)")
  case (Pair r c)
  with assms show ?thesis by (cases r) (simp_all add: reserve_now_def view_currency view_pays)
qed

lemma view_repatriate:
  assumes "currency_impl env = currency_impl cfg"
    and "\<And>u t. map_prod (shown_with f) v (k u t) = k' u (v t)"
  shows "map_prod (shown_with f) v (and_then (repatriate_now cfg a b x s) k)
    = and_then (repatriate_now env a b x (v s)) k'"
proof (cases "repatriate_reserved (currency_impl cfg) a b x Free (h_currency s)")
  case (Pair r c)
  with assms show ?thesis by (cases r) (simp_all add: repatriate_now_def view_currency view_pays)
qed

lemma view_sent:
  assumes "sends_ok cfg"
  obtains t where "send_message_now cfg para m err s = (Inr (), t)" and "v t = v s"
proof -
  obtain t where "send_message_now cfg para m err s = (Inr (), t)" using send_succeeds [OF assms] .
  moreover from send_message_now_updates [OF this] have "v t = v s" by (metis view_sends)
  ultimately show ?thesis by (rule that)
qed

end

section \<open>The two views\<close>

definition terms_of :: "('a, 'p) order \<Rightarrow> ('a, 'p) terms" where
  "terms_of od = \<lparr>t_until = o_until od, t_data = o_data od, t_fee = o_fee od, t_client = o_client od\<rparr>"

definition offer_svc :: "device_profile_svc \<Rightarrow> offer" where
  "offer_svc p = \<lparr>f_state = (if dev_state p = Busy2 then Busy else dev_state p),
     f_penalty = dev_penalty p, f_wcd = dev_wcd p\<rparr>"

definition offer_cli :: "device_profile_cli \<Rightarrow> offer" where
  "offer_cli p = \<lparr>f_state = (if dvc_state p = Busy2 then Busy else dvc_state p),
     f_penalty = dvc_penalty p, f_wcd = dvc_wcd p\<rparr>"

fun entry_cli :: "'a client_event \<Rightarrow> 'a service_event" where
  "entry_cli (CeNewDevice d) = EvNewDevice d"
| "entry_cli (CeNewOrder who d) = EvNewOrder d"
| "entry_cli (CeAccept who d) = EvAccept d"
| "entry_cli (CeReject who d) = EvReject d"
| "entry_cli (CeDone who d) = EvDone d"
| "entry_cli (CeBadVersion h) = EvBadVersion h"

fun error_cli :: "service_error \<Rightarrow> client_error" where
  "error_cli NoneValue = CliNoneValue"
| "error_cli Prohibited = CliProhibited"
| "error_cli DeviceExists = CliDeviceExists"
| "error_cli DeviceLowBail = CliDeviceLowBail"
| "error_cli NoOrder = CliNoOrder"
| "error_cli BadOrderDetails = CliBadOrderDetails"
| "error_cli NoDevice = CliNoDevice"
| "error_cli IllegalState = CliIllegalState"
| "error_cli Overdue = CliOverdue"
| "error_cli CannotReachDestination = CliCannotReachDestination"

text \<open>The events that the contract logs.\<close>

fun logged :: "'a service_event \<Rightarrow> bool" where
  "logged (EvAccept d) = False"
| "logged _ = True"

definition view_svc :: "('a, 'p, 'c, 'q) service_state \<Rightarrow> ('a, 'p, 'c) contract" where
  "view_svc s = \<lparr>h_now = h_now s, h_currency = h_currency s, h_outbox = (),
     k_offers = map_option offer_svc \<circ> s_devices s, k_terms = map_option terms_of \<circ> s_orders s,
     k_log = filter logged (s_events s)\<rparr>"

definition view_cli :: "('a, 'p, 'c, 'q) client_state \<Rightarrow> ('a, 'p, 'c) contract" where
  "view_cli s = \<lparr>h_now = h_now s, h_currency = h_currency s, h_outbox = (),
     k_offers = map_option offer_cli \<circ> c_devices s, k_terms = map_option terms_of \<circ> c_orders s,
     k_log = filter logged (map entry_cli (c_events s))\<rparr>"

lemma terms_of_fields [simp]:
  "t_until (terms_of od) = o_until od" "t_data (terms_of od) = o_data od"
  "t_fee (terms_of od) = o_fee od" "t_client (terms_of od) = o_client od"
  by (simp_all add: terms_of_def)

lemmas offer_fields = offer_svc_def offer_cli_def terms_of_def

lemma offer_state [simp]:
  "offer_svc (p\<lparr>dev_state := state_of_onoff b\<rparr>) = (offer_svc p)\<lparr>f_state := state_of_onoff b\<rparr>"
  "offer_cli (q\<lparr>dvc_state := state_of_onoff b\<rparr>) = (offer_cli q)\<lparr>f_state := state_of_onoff b\<rparr>"
  by (simp_all add: offer_fields)

interpretation svc_view: host_view view_svc
  by unfold_locales (simp_all add: view_svc_def)

interpretation cli_view: host_view view_cli
  by unfold_locales (simp_all add: view_cli_def)

text \<open>The writes of the pallets are writes of the contract.\<close>

lemma view_svc_simps [simp]:
  "h_now (view_svc s) = h_now s"
  "k_terms (view_svc s) d = map_option terms_of (s_orders s d)"
  "k_offers (view_svc s) d = map_option offer_svc (s_devices s d)"
  "view_svc (put_device_svc d p s) = put_offer d (offer_svc p) (view_svc s)"
  "view_svc (put_order_svc d od s) = put_terms d (Some (terms_of od)) (view_svc s)"
  "view_svc (remove_order_svc d s) = put_terms d None (view_svc s)"
  "view_svc (deposit_event_svc ev s) = (if logged ev then log_entry ev (view_svc s) else view_svc s)"
  by (simp_all add: view_svc_def contract_writes storage_svc_defs fun_upd_comp)

lemma view_cli_simps [simp]:
  "h_now (view_cli s) = h_now s"
  "k_terms (view_cli s) d = map_option terms_of (c_orders s d)"
  "k_offers (view_cli s) d = map_option offer_cli (c_devices s d)"
  "view_cli (put_device_cli d p s) = put_offer d (offer_cli p) (view_cli s)"
  "view_cli (put_order_cli d od s) = put_terms d (Some (terms_of od)) (view_cli s)"
  "view_cli (remove_order_cli d s) = put_terms d None (view_cli s)"
  "view_cli (deposit_event_cli ev s)
    = (if logged (entry_cli ev) then log_entry (entry_cli ev) (view_cli s) else view_cli s)"
  by (simp_all add: view_cli_def contract_writes storage_cli_defs fun_upd_comp)

section \<open>The pallets carry out the contract\<close>

text \<open>
  The service pallet: a device signs its own calls. An action of a device counts when it succeeds on
  a local order of the client it names; the client chain would not hear of it otherwise.
\<close>

fun desk_svc ::
  "('o, 'a, 'p, 'c, 'q) service_config \<Rightarrow> ('a \<Rightarrow> 'o) \<Rightarrow> ('o, 'a, 'p) desk_action \<Rightarrow>
   ('a, 'p, 'c, 'q) service_state \<Rightarrow> ('a, 'p, 'c, 'q) service_result" where
  "desk_svc cfg signs (Place origin ob) s = order_svc cfg origin ob s"
| "desk_svc cfg signs (Withdraw origin d) s = cancel_svc cfg origin d s"
| "desk_svc cfg signs (Enrol origin penalty wcd onoff) s = register_svc cfg origin penalty wcd onoff s"
| "desk_svc cfg signs (Take who d) s = accept_svc cfg (signs d) False False s"
| "desk_svc cfg signs (Refuse who d onoff) s = accept_svc cfg (signs d) True onoff s"
| "desk_svc cfg signs (Finish who d onoff) s = done_svc cfg (signs d) onoff s"
| "desk_svc cfg signs (Wait n) s = (Inr (), s\<lparr>h_now := n\<rparr>)"

definition local_order_of ::
  "('o, 'a, 'p, 'c, 'q) service_config \<Rightarrow> 'a \<Rightarrow> 'a \<Rightarrow> ('a, 'p, 'c, 'q) service_state \<Rightarrow> bool" where
  "local_order_of cfg who d s \<longleftrightarrow>
    (case s_orders s d of None \<Rightarrow> False
     | Some od \<Rightarrow> o_client od = who \<and> o_paraid od = self_para_id cfg)"

fun ready_svc ::
  "('o, 'a, 'p, 'c, 'q) service_config \<Rightarrow> ('a \<Rightarrow> 'o) \<Rightarrow> ('o, 'a, 'p) desk_action \<Rightarrow>
   ('a, 'p, 'c, 'q) service_state \<Rightarrow> bool" where
  "ready_svc cfg signs (Withdraw origin d) s \<longleftrightarrow>
    (\<forall>od. s_orders s d = Some od \<longrightarrow> o_paraid od = self_para_id cfg)"
| "ready_svc cfg signs (Take who d) s \<longleftrightarrow>
    local_order_of cfg who d s \<and> fst (desk_svc cfg signs (Take who d) s) = Inr ()"
| "ready_svc cfg signs (Refuse who d onoff) s \<longleftrightarrow>
    local_order_of cfg who d s \<and> fst (desk_svc cfg signs (Refuse who d onoff) s) = Inr ()"
| "ready_svc cfg signs (Finish who d onoff) s \<longleftrightarrow>
    local_order_of cfg who d s \<and> fst (desk_svc cfg signs (Finish who d onoff) s) = Inr ()"
| "ready_svc cfg signs _ s \<longleftrightarrow> True"

text \<open>The client pallet: what devices do arrives as reports.\<close>

fun desk_cli ::
  "('o, 'a, 'p, 'c, 'q) env \<Rightarrow> para_id \<Rightarrow> ('o, 'a, 'p) desk_action \<Rightarrow>
   ('a, 'p, 'c, 'q) client_state \<Rightarrow> ('a, 'p, 'c, 'q) client_result" where
  "desk_cli env para (Place origin ob) s = order_cli env origin ob s"
| "desk_cli env para (Withdraw origin d) s = cancel_cli env origin d s"
| "desk_cli env para (Enrol origin penalty wcd onoff) s =
    register_cli env origin para penalty wcd onoff s"
| "desk_cli env para (Take who d) s = on_accept_cli who d s"
| "desk_cli env para (Refuse who d onoff) s = on_reject_cli env who d onoff s"
| "desk_cli env para (Finish who d onoff) s = on_done_cli env who d onoff s"
| "desk_cli env para (Wait n) s = (Inr (), s\<lparr>h_now := n\<rparr>)"

fun ready_cli :: "('o, 'a, 'p) desk_action \<Rightarrow> ('a, 'p, 'c, 'q) client_state \<Rightarrow> bool" where
  "ready_cli (Refuse who d onoff) s \<longleftrightarrow> (\<forall>od. c_orders s d = Some od \<longrightarrow> o_client od = who)"
| "ready_cli (Finish who d onoff) s \<longleftrightarrow> (\<forall>od. c_orders s d = Some od \<longrightarrow> o_client od = who)"
| "ready_cli _ s \<longleftrightarrow> True"

text \<open>The libraries of a chain as the contract sees them: nothing is sent.\<close>

definition contract_env :: "('o, 'a, 'p, 'c, 'q, 'x) env_scheme \<Rightarrow> ('o, 'a, 'p, 'c, unit) env" where
  "contract_env env =
    \<lparr>ensure_signed = ensure_signed env, currency_impl = currency_impl env,
     send_blob_message = (\<lambda>_ _ _ _. (Inr 0, ())), message_impl = message_impl env,
     hashing = hashing env, xcm_try_from = xcm_try_from env\<rparr>"

lemma contract_env_simps [simp]:
  "ensure_signed (contract_env env) = ensure_signed env"
  "currency_impl (contract_env env) = currency_impl env"
  by (simp_all add: contract_env_def)

lemma penalty_svc:
  "map_prod (shown_with error_cli) view_svc
      (if h_now s < o_until od then (Inr (), unreserve_now cfg d (dev_penalty p) s)
       else and_then (repatriate_now cfg d (o_client od) (dev_penalty p) s) (\<lambda>_ s. (Inr (), s)))
    = contract_penalty (contract_env cfg) d (offer_svc p) (terms_of od) (view_svc s)"
  by (simp add: contract_penalty_def offer_fields svc_view.view_unreserve [of "contract_env cfg"]
      svc_view.view_repatriate [of "contract_env cfg"])

lemma return_svc:
  assumes "o_paraid od = self_para_id cfg"
  shows "map_prod (shown_with error_cli) view_svc
      (order_reject_svc cfg (Some od) (h_now s) d p onoff s)
    = contract_return (contract_env cfg) d (offer_svc p) (terms_of od) (view_svc s)"
  using penalty_svc [of "unreserve_now cfg (o_client od) (o_fee od) s" od cfg d p] assms
  by (simp add: order_reject_svc_def contract_return_def Let_def map_prod_and_then
      svc_view.view_unreserve [of "contract_env cfg"] terms_of_def)

text \<open>
  The service pallet forgets the order and frees the device before it moves the funds, the client
  pallet after it: a payment that succeeds leaves the same state.
\<close>

lemma pay_svc:
  assumes "o_paraid od = self_para_id cfg"
    and "fst (order_done_svc cfg od (h_now s) d p onoff (remove_order_svc d s)) = Inr ()"
  shows "map_prod (shown_with error_cli) view_svc
      (order_done_svc cfg od (h_now s) d p onoff (remove_order_svc d s))
    = contract_pay (contract_env cfg) d
        ((offer_svc p)\<lparr>f_state := state_of_onoff onoff\<rparr>) (terms_of od) (view_svc s)"
proof (cases "repatriate_reserved (currency_impl cfg) (o_client od) d (o_fee od) Free (h_currency s)")
  case (Pair r c)
  then obtain fee where fee: "r = Inr fee" using assms
    by (cases r) (simp_all add: order_done_svc_def repatriate_now_def storage_svc_defs)
  show ?thesis
  proof (cases "h_now s < o_until od")
    case True
    with Pair fee assms(1) show ?thesis
      by (simp add: order_done_svc_def contract_pay_def contract_penalty_def repatriate_now_def
          unreserve_now_def storage_svc_defs contract_writes offer_fields view_svc_def
          state_of_onoff_def fun_upd_comp)
  next
    case late: False
    show ?thesis
    proof (cases "repatriate_reserved (currency_impl cfg) d (o_client od) (dev_penalty p) Free c")
      case (Pair q e)
      with late fee \<open>repatriate_reserved _ _ _ _ _ (h_currency s) = _\<close> assms show ?thesis
        by (cases q) (simp_all add: order_done_svc_def contract_pay_def contract_penalty_def
          repatriate_now_def storage_svc_defs contract_writes offer_fields view_svc_def
          state_of_onoff_def fun_upd_comp)
    qed
  qed
qed

text \<open>A hook that takes every order, leaving it to the device to accept it or accepting it at once.\<close>

definition hook_takes_all :: "('o, 'a, 'p, 'c, 'q) service_config \<Rightarrow> bool" where
  "hook_takes_all cfg \<longleftrightarrow> (\<forall>d od. on_received cfg d od = Some Busy \<or> on_received cfg d od = Some Busy2)"

lemma hooks_take_all:
  "on_received cfg = on_received_unit \<Longrightarrow> hook_takes_all cfg"
  "hook_takes_all (runtime_service libs para)"
  by (simp_all add: hook_takes_all_def on_received_unit_def accept_on_receive_def)

lemma accept_view:
  assumes "o_paraid od = self_para_id cfg"
  shows "view_svc (order_accept_svc cfg od now d p s)
    = put_offer d (offer_svc (p\<lparr>dev_state := Busy2\<rparr>)) (view_svc s)"
  using assms by (simp add: order_accept_svc_def Let_def)

lemma place_svc:
  assumes "hook_takes_all cfg"
  shows "map_prod (shown_with error_cli) view_svc (order_svc cfg origin ob s)
    = contract_do (contract_env cfg) (Place origin ob) (view_svc s)"
proof (cases "ensure_signed cfg origin")
  case (Inl e)
  then show ?thesis by (simp add: order_svc_def)
next
  case (Inr who)
  let ?od = "\<lparr>o_until = ob_until ob, o_data = ob_data ob, o_fee = ob_fee ob, o_client = who,
    o_paraid = self_para_id cfg\<rparr>"
  note view = order_svc_def order_received_svc_def contract_place_def Let_def map_prod_if offer_fields
    and_then_assoc put_offer_log_entry accept_view svc_view.view_can_reserve [of "contract_env cfg"]
    svc_view.view_reserve [of "contract_env cfg"]
  from assms consider (waits) "on_received cfg (ob_device ob) ?od = Some Busy"
    | (accepts) "on_received cfg (ob_device ob) ?od = Some Busy2" by (auto simp: hook_takes_all_def)
  then show ?thesis
    by cases (use Inr in \<open>cases "s_devices s (ob_device ob)"; simp add: view\<close>)+
qed

text \<open>The same for the client pallet.\<close>

lemma penalty_cli:
  assumes "currency_impl env = currency_impl cenv"
  shows "map_prod (shown_with id) view_cli
      (if h_now s < o_until od then (Inr (), unreserve_now env d (dvc_penalty p) s)
       else and_then (repatriate_now env d (o_client od) (dvc_penalty p) s) (\<lambda>_ s. (Inr (), s)))
    = contract_penalty cenv d (offer_cli p) (terms_of od) (view_cli s)"
  using assms by (simp add: contract_penalty_def offer_fields cli_view.view_unreserve [of cenv]
      cli_view.view_repatriate [of cenv])

lemma return_cli:
  assumes "currency_impl env = currency_impl cenv"
  shows "map_prod (shown_with id) view_cli (order_reject_cli env (o_client od) od (h_now s) d p s)
    = contract_return cenv d (offer_cli p) (terms_of od) (view_cli s)"
  using penalty_cli [OF assms, of "unreserve_now env (o_client od) (o_fee od) s" od d p] assms
  by (simp add: order_reject_cli_def contract_return_def Let_def map_prod_and_then
      cli_view.view_unreserve [of cenv] terms_of_def)

lemma pay_cli:
  assumes "currency_impl env = currency_impl cenv" and "c_orders s d = Some od" and "c_devices s d = Some p"
  shows "map_prod (shown_with id) view_cli (on_done_cli env (o_client od) d onoff s)
    = contract_pay cenv d ((offer_cli p)\<lparr>f_state := state_of_onoff onoff\<rparr>) (terms_of od) (view_cli s)"
proof (cases "repatriate_reserved (currency_impl cenv) (o_client od) d (o_fee od) Free (h_currency s)")
  case (Pair r c)
  let ?u = "s\<lparr>h_currency := c\<rparr>"
  have "f_penalty (offer_cli p) = dvc_penalty p" by (simp add: offer_fields)
  then have "map_prod (shown_with id) view_cli
      (if h_now s < o_until od then (Inr (), unreserve_now env d (dvc_penalty p) ?u)
       else and_then (repatriate_now env d (o_client od) (dvc_penalty p) ?u) (\<lambda>_ s. (Inr (), s)))
    = contract_penalty cenv d ((offer_cli p)\<lparr>f_state := state_of_onoff onoff\<rparr>) (terms_of od)
        ((view_cli s)\<lparr>h_currency := c\<rparr>)"
    using penalty_cli [OF assms(1), of ?u od d p] by (simp add: contract_penalty_def cli_view.view_pays)
  with Pair assms show ?thesis
    by (cases r) (simp_all add: on_done_cli_def contract_pay_def repatriate_now_def onoff_not_if Let_def
        cli_view.view_currency cli_view.view_pays map_prod_and_then)
qed

lemma place_cli:
  assumes "currency_impl env = currency_impl cenv" and "ensure_signed env = ensure_signed cenv"
    and "sends_ok env"
  shows "map_prod (shown_with id) view_cli (order_cli env origin ob s)
    = contract_do cenv (Place origin ob) (view_cli s)"
proof (cases "ensure_signed cenv origin")
  case (Inl e)
  with assms(2) show ?thesis by (simp add: order_cli_def)
next
  case (Inr who)
  show ?thesis
  proof (cases "c_devices s (ob_device ob)")
    case None
    with Inr assms(2) show ?thesis
      by (simp add: order_cli_def contract_place_def Let_def map_prod_if)
  next
    case (Some p)
    have sent: "map_prod (shown_with id) view_cli
        (and_then (send_message_now env para m CliCannotReachDestination t)
          (\<lambda>_ t. (Inr (), deposit_event_cli (CeNewOrder c e) (put_device_cli d f t))))
      = (Inr (), log_entry (EvNewOrder e) (put_offer d (offer_cli f) (view_cli t)))"
      for para m t c e d f
      by (rule cli_view.view_sent [OF assms(3), of para m CliCannotReachDestination t]) simp
    from Some Inr assms(1,2) show ?thesis
      by (simp add: order_cli_def contract_place_def Let_def map_prod_if offer_fields sent
          cli_view.view_can_reserve [OF assms(1) [symmetric]] cli_view.view_reserve [of cenv])
  qed
qed

section \<open>One contract\<close>

lemma accept_take:
  assumes "fst (accept_svc cfg origin False onoff s) = Inr ()" and "ensure_signed cfg origin = Inr d"
    and "s_orders s d = Some od" and "o_paraid od = self_para_id cfg"
  shows "map_prod (shown_with error_cli) view_svc (accept_svc cfg origin False onoff s)
    = (Inr (), view_svc s)"
proof (cases "s_devices s d")
  case None
  with assms show ?thesis by (simp add: accept_svc_def Let_def)
next
  case (Some p)
  with assms have "dev_state p = Busy" "\<not> o_until od \<le> h_now s"
    by (auto simp: accept_svc_def Let_def split: if_splits)
  moreover from Some \<open>dev_state p = Busy\<close>
  have "put_offer d (offer_svc (p\<lparr>dev_state := Busy2\<rparr>)) (view_svc s) = view_svc s"
    by (simp add: put_offer_def view_svc_def offer_svc_def fun_eq_iff)
  ultimately show ?thesis using assms Some
    by (simp add: accept_svc_def accept_view Let_def)
qed

interpretation service_desk: contract_desk "contract_do (contract_env cfg)" "desk_svc cfg signs"
    "\<lambda>i s. hook_takes_all cfg \<and> (\<forall>d. ensure_signed cfg (signs d) = Inr d) \<and>
      ready_svc cfg signs i s"
    "shown_with error_cli" view_svc
  for cfg :: "('o, 'a, 'p, 'c, 'q) service_config" and signs :: "'a \<Rightarrow> 'o"
proof (unfold_locales, elim conjE)
  fix i :: "('o, 'a, 'p) desk_action" and s :: "('a, 'p, 'c, 'q) service_state"
  assume hook: "hook_takes_all cfg" and signed: "\<forall>d. ensure_signed cfg (signs d) = Inr d"
    and ready: "ready_svc cfg signs i s"
  show "map_prod (shown_with error_cli) view_svc (desk_svc cfg signs i s)
      = contract_do (contract_env cfg) i (view_svc s)"
  proof (cases i)
    case (Place origin ob)
    with place_svc [OF hook] show ?thesis by simp
  next
    case (Withdraw origin d)
    with ready show ?thesis
      by (cases "ensure_signed cfg origin"; cases "s_orders s d"; cases "s_devices s d")
        (simp_all add: cancel_svc_def Let_def map_prod_if return_svc)
  next
    case (Enrol origin penalty wcd onoff)
    then show ?thesis
      by (cases "ensure_signed cfg origin")
        (auto simp: register_svc_def Let_def map_prod_if offer_fields state_of_onoff_def)
  next
    case (Take who d)
    with ready signed show ?thesis
      by (auto simp: local_order_of_def intro: accept_take split: option.splits)
  next
    case (Refuse who d onoff)
    with ready signed show ?thesis
      by (cases "s_devices s d"; cases "s_orders s d")
        (auto simp: local_order_of_def accept_svc_def Let_def return_svc
          simp flip: state_of_onoff_def split: if_splits)
  next
    case (Finish who d onoff)
    with ready signed show ?thesis
      by (cases "s_devices s d"; cases "s_orders s d")
        (auto simp: local_order_of_def done_svc_def Let_def pay_svc split: if_splits)
  next
    case (Wait n)
    then show ?thesis by (simp add: view_svc_def)
  qed
qed

interpretation client_desk: contract_desk "contract_do cenv" "desk_cli env para"
    "\<lambda>i s. currency_impl env = currency_impl cenv \<and> ensure_signed env = ensure_signed cenv \<and>
      sends_ok env \<and> ready_cli i s"
    "shown_with id" view_cli
  for env :: "('o, 'a, 'p, 'c, 'q) env" and cenv and para
proof (unfold_locales, elim conjE)
  fix i :: "('o, 'a, 'p) desk_action" and s :: "('a, 'p, 'c, 'q) client_state"
  assume cur: "currency_impl env = currency_impl cenv" and signed: "ensure_signed env = ensure_signed cenv"
    and sends: "sends_ok env" and ready: "ready_cli i s"
  show "map_prod (shown_with id) view_cli (desk_cli env para i s) = contract_do cenv i (view_cli s)"
  proof (cases i)
    case (Place origin ob)
    with place_cli [OF cur signed sends] show ?thesis by simp
  next
    case (Withdraw origin d)
    with signed show ?thesis
      by (cases "ensure_signed cenv origin"; cases "c_orders s d"; cases "c_devices s d")
        (auto simp: cancel_cli_def Let_def map_prod_if return_cli [OF cur, symmetric])
  next
    case (Enrol origin penalty wcd onoff)
    with signed show ?thesis
      by (cases "ensure_signed cenv origin")
        (auto simp: register_cli_def Let_def map_prod_if offer_fields state_of_onoff_def)
  next
    case (Take who d)
    then show ?thesis by (simp add: on_accept_cli_def)
  next
    case (Refuse who d onoff)
    with ready show ?thesis
      by (cases "c_orders s d"; cases "c_devices s d")
        (auto simp: on_reject_cli_def Let_def return_cli [OF cur] onoff_not_if)
  next
    case (Finish who d onoff)
    with ready show ?thesis
      by (cases "c_orders s d"; cases "c_devices s d")
        (auto simp: pay_cli [OF cur], simp_all add: on_done_cli_def)
  next
    case (Wait n)
    then show ?thesis by (simp add: view_cli_def)
  qed
qed

lemma ready_svc_ready_cli:
  assumes "ready_svc cfg signs i s" and "view_svc s = view_cli t"
  shows "ready_cli i t"
proof -
  have agree: "map_option terms_of (s_orders s d) = map_option terms_of (c_orders t d)" for d
    using assms(2) view_svc_simps(2) [of s d] view_cli_simps(2) [of t d] by simp
  have "o_client od = who" if "local_order_of cfg who d s" and "c_orders t d = Some od" for who d od
  proof -
    from that(1) obtain x where "s_orders s d = Some x" and "o_client x = who"
      by (auto simp: local_order_of_def split: option.splits)
    with agree [of d] that(2) show ?thesis by (auto simp: terms_of_def)
  qed
  with assms(1) show ?thesis by (cases i) auto
qed

text \<open>Nothing but the shared libraries has to agree; message formats and parachain ids may differ.\<close>

definition same_libraries ::
  "('o, 'a, 'p, 'c, 'q, 'x) env_scheme \<Rightarrow> ('o, 'a, 'p, 'c, 'r) env \<Rightarrow> bool" where
  "same_libraries cfg env \<longleftrightarrow>
    ensure_signed env = ensure_signed cfg \<and> currency_impl env = currency_impl cfg"

lemma all_ready_both:
  assumes "same_libraries cfg env" and "sends_ok env"
    and "hook_takes_all cfg" and "\<forall>d. ensure_signed cfg (signs d) = Inr d"
  shows "all_ready (ready_svc cfg signs) (desk_svc cfg signs) is s \<Longrightarrow> view_svc s = view_cli t \<Longrightarrow>
    all_ready ready_cli (desk_cli env para) is t"
proof (induction "is" arbitrary: s t)
  case (Cons i "is")
  then have "ready_svc cfg signs i s" by simp
  note ready = this ready_svc_ready_cli [OF this Cons.prems(2)]
  then have "map_prod (shown_with error_cli) view_svc (desk_svc cfg signs i s)
      = map_prod (shown_with id) view_cli (desk_cli env para i t)"
    using assms service_desk.carries_out [of cfg signs i s]
      client_desk.carries_out [of env "contract_env cfg" i t para] Cons.prems(2)
    by (simp add: same_libraries_def)
  then have "view_svc (snd (desk_svc cfg signs i s)) = view_cli (snd (desk_cli env para i t))"
    by (metis snd_map_prod)
  with Cons ready show ?case by simp
qed simp

text \<open>
  Claim C11. The two pallets implement one escrow contract. Put them on chains with the same origins
  and the same currency, let the hook of the service chain take every order, as both hooks in the
  sources do, whether it accepts it at once or not, let the messages of the client chain always
  leave, and start from books that agree. Then let clients place and withdraw orders, devices
  enrol, time pass, and devices take, refuse and finish local orders whenever the service chain
  lets them, the client chain hearing of it in a report: every action has the same outcome on
  both, error by error, and the books agree again, down to the last balance and the log of events,
  acceptances aside, whatever ledger keeps the funds.
\<close>

theorem pallets_share_one_contract:
  assumes "same_libraries cfg env" and "sends_ok env"
    and "hook_takes_all cfg" and "\<forall>d. ensure_signed cfg (signs d) = Inr d"
    and "view_svc s = view_cli t"
    and "all_ready (ready_svc cfg signs) (desk_svc cfg signs) is s"
    and "perform_all (desk_svc cfg signs) is s = (rs, s')"
    and "perform_all (desk_cli env para) is t = (qs, t')"
  shows "qs = map (shown_with error_cli) rs \<and> view_cli t' = view_svc s'"
proof -
  have "all_ready (\<lambda>i s. hook_takes_all cfg \<and>
      (\<forall>d. ensure_signed cfg (signs d) = Inr d) \<and> ready_svc cfg signs i s) (desk_svc cfg signs) is s"
    using assms(3,4,6) by simp
  from service_desk.carries_out_all [OF this] assms(7)
  have svc: "perform_all (contract_do (contract_env cfg)) is (view_svc s)
      = (map (shown_with error_cli) rs, view_svc s')" by simp
  have "all_ready ready_cli (desk_cli env para) is t" by (rule all_ready_both [OF assms(1-4,6,5)])
  then have "all_ready (\<lambda>i s. currency_impl env = currency_impl (contract_env cfg) \<and>
      ensure_signed env = ensure_signed (contract_env cfg) \<and> sends_ok env \<and> ready_cli i s)
      (desk_cli env para) is t"
    using assms(1,2) by (simp add: same_libraries_def)
  from client_desk.carries_out_all [OF this] assms(8)
  have "perform_all (contract_do (contract_env cfg)) is (view_cli t)
      = (map (shown_with id) qs, view_cli t')" by simp
  with svc assms(5) show ?thesis by (simp add: dispatch_error.map_id0 sum.map_id0)
qed

text \<open>
  With the hook of the runtime: an order and its completion, a second order the device refuses, and a
  third that comes while the device is off.
\<close>

definition contract_actions :: "(signed_origin, account_id, order_payload) desk_action list" where
  "contract_actions = [Place (Some 200) desk_request, Finish 200 100 True,
     Place (Some 200) desk_request, Refuse 200 100 False, Place (Some 200) desk_request]"

lemma books_agree: "view_svc (sample_state n Ready None) = view_cli (sample_desk n Ready None)"
  by (simp add: view_svc_def view_cli_def sample_state_defs sample_desk_def sample_desk_profile_def
      offer_fields fun_eq_iff)

theorem pallets_share_one_contract_witness:
  "fst (perform_all (desk_cli sample_env 200) contract_actions (sample_desk 3000 Ready None))
    = [Inr (), Inr (), Inr (), Inr (), Inl (Pallet CliIllegalState)]"
proof -
  let ?run = "perform_all (desk_svc signed_runtime Some) contract_actions (sample_state 3000 Ready None)"
  have libs: "same_libraries signed_runtime sample_env"
    by (simp add: same_libraries_def signed_runtime_def sample_env_def)
  have sends: "sends_ok sample_env" by (simp add: sends_ok_def sample_env_def queue_send_def)
  have hook: "hook_takes_all signed_runtime" unfolding signed_runtime_def by (rule hooks_take_all(2))
  have signs: "\<forall>d. ensure_signed signed_runtime (Some d) = Inr d"
    by (simp add: signed_runtime_def sample_env_def signed_by_def)
  have "all_ready (ready_svc signed_runtime Some) (desk_svc signed_runtime Some) contract_actions
      (sample_state 3000 Ready None) \<and>
    fst ?run = [Inr (), Inr (), Inr (), Inr (), Inl (Pallet IllegalState)]"
    by (simp add: contract_actions_def local_order_of_def order_svc_def order_received_svc_def
        accept_svc_def order_accept_svc_def order_reject_svc_def done_svc_def order_done_svc_def
        desk_request_def sample_state_defs storage_svc_defs signed_runtime_def accept_on_receive_def
        sample_defs host_call_defs Let_def)
  with pallets_share_one_contract [OF libs sends hook signs books_agree [of 3000] _ prod.collapse [symmetric]
      prod.collapse [symmetric], of contract_actions 200]
  show ?thesis by simp
qed

end
