(* ===== verification/RuntimeConfig.thy ===== *)
theory RuntimeConfig
  imports Runtime
begin

text \<open>
  The rest of \<^verbatim>\<open>runtime/src/lib.rs\<close>: how the runtime configures the library pallets it is built from,
  how it sets up the XCM executor, the checks every transaction passes, and the runtime APIs. What
  the configured code does is library code; the configuration is data, and the consequence that
  matters to the pallets is drawn at the end: which of their entry points the runtime reaches.
\<close>

section \<open>Library pallets\<close>

definition native_version :: "runtime_version \<times> nat set" where
  "native_version = (VERSION, {})"

text \<open>
  A list of handlers stands for the tuple of types the code gives; \<^verbatim>\<open>()\<close> is the empty list, or
  \<open>None\<close> where the configuration takes a value. Integer types stand for their number of bits.
\<close>

datatype hashing_algorithm = BlakeTwo256

datatype account_lookup = AccountIdLookup | IdentityLookup

datatype set_code_handler = ParachainSetCode

datatype weight_info = SubstrateWeight | UnitWeight

record system_config =
  base_call_filter :: "pallet_name list"
  system_block_weights :: "block_weights option"
  system_block_length :: "nat option"
  system_lookup :: account_lookup
  index_bits :: nat
  block_number_bits :: nat
  hash_bits :: nat
  system_hashing :: hashing_algorithm
  header_hashing :: hashing_algorithm
  block_hash_count_config :: nat
  db_weight :: "(nat \<times> nat) option"
  system_version :: "runtime_version option"
  on_new_account :: "pallet_name list"
  on_killed_account :: "pallet_name list"
  account_balance_bits :: nat
  system_ss58_prefix :: byte
  on_set_code :: "set_code_handler option"

text \<open>The weights of the database are a constant of the library.\<close>

definition runtime_system :: "block_weights \<Rightarrow> nat \<times> nat \<Rightarrow> system_config" where
  "runtime_system weights rocksdb =
    \<lparr>base_call_filter = [],
     system_block_weights = Some weights,
     system_block_length = Some runtime_block_length,
     system_lookup = AccountIdLookup,
     index_bits = 32,
     block_number_bits = 32,
     hash_bits = 256,
     system_hashing = BlakeTwo256,
     header_hashing = BlakeTwo256,
     block_hash_count_config = unat block_hash_count,
     db_weight = Some rocksdb,
     system_version = Some VERSION,
     on_new_account = [],
     on_killed_account = [],
     account_balance_bits = 128,
     system_ss58_prefix = ss58_prefix,
     on_set_code = Some ParachainSetCode\<rparr>"

record timestamp_config =
  moment_bits :: nat
  on_timestamp_set :: "pallet_name list"
  timestamp_minimum_period :: moment
  timestamp_weights :: weight_info

definition runtime_timestamp :: timestamp_config where
  "runtime_timestamp =
    \<lparr>moment_bits = 64, on_timestamp_set = [], timestamp_minimum_period = minimum_period,
     timestamp_weights = UnitWeight\<rparr>"

record balances_config =
  balances_max_locks :: "32 word"
  balance_bits :: nat
  dust_removal :: "pallet_name list"
  balances_existential_deposit :: balance
  account_store :: pallet_name
  balances_weights :: weight_info

definition runtime_balances :: balances_config where
  "runtime_balances =
    \<lparr>balances_max_locks = max_locks, balance_bits = 128, dust_removal = [],
     balances_existential_deposit = existential_deposit, account_store = System,
     balances_weights = SubstrateWeight\<rparr>"

text \<open>Fees are charged in the currency, one unit per unit of weight; nobody is configured to receive them.\<close>

record payment_config =
  charge_currency :: pallet_name
  charge_beneficiary :: "pallet_name list"
  payment_byte_fee :: balance
  weight_to_fee :: "nat \<Rightarrow> nat"
  fee_multiplier_update :: "pallet_name list"

definition runtime_payment :: payment_config where
  "runtime_payment =
    \<lparr>charge_currency = Balances, charge_beneficiary = [], payment_byte_fee = transaction_byte_fee,
     weight_to_fee = (\<lambda>w. w), fee_multiplier_update = []\<rparr>"

text \<open>The id of the chain comes from the storage of a pallet or is a constant.\<close>

datatype para_id_source = StoredBy pallet_name | ConstantId para_id

record parachain_system_config =
  on_validation_data :: "pallet_name list"
  self_para_id_source :: para_id_source
  downward_message_handlers :: "pallet_name list"
  xcmp_handler :: pallet_name

definition runtime_parachain_system :: "build \<Rightarrow> parachain_system_config" where
  "runtime_parachain_system b =
    \<lparr>on_validation_data = [], self_para_id_source = StoredBy ParachainInfo, downward_message_handlers = [],
     xcmp_handler = xcmp_message_handlers b\<rparr>"

section \<open>The XCM executor\<close>

datatype location = ParentLocation | ParachainLocation para_id

datatype network_id = Polkadot

datatype native_origin = RelayOrigin

definition rococo_location :: location where "rococo_location = ParentLocation"

definition rococo_network :: network_id where "rococo_network = Polkadot"

definition relay_chain_origin :: native_origin where "relay_chain_origin = RelayOrigin"

text \<open>Where the chain is, seen from the relay chain: the id in its storage at the time.\<close>

definition ancestry :: "para_id \<Rightarrow> location" where "ancestry own = ParachainLocation own"

datatype account_converter =
    ParentIsDefault
  | SiblingParachainConvertsVia
  | AccountId32Aliases network_id

definition location_converter :: "account_converter list" where
  "location_converter =
    [ParentIsDefault, SiblingParachainConvertsVia, AccountId32Aliases rococo_network]"

datatype origin_converter =
    SovereignSignedViaLocation "account_converter list"
  | RelayChainAsNative native_origin
  | SiblingParachainAsNative pallet_name
  | SignedAccountId32AsNative network_id

definition local_origin_converter :: "origin_converter list" where
  "local_origin_converter =
    [SovereignSignedViaLocation location_converter, RelayChainAsNative relay_chain_origin,
     SiblingParachainAsNative XcmHandler, SignedAccountId32AsNative rococo_network]"

record asset_transactor =
  transactor_currency :: pallet_name
  transactor_asset :: location
  transactor_accounts :: "account_converter list"

definition local_asset_transactor :: asset_transactor where
  "local_asset_transactor =
    \<lparr>transactor_currency = Balances, transactor_asset = rococo_location,
     transactor_accounts = location_converter\<rparr>"

datatype asset_filter = NativeAsset

record xcm_config =
  xcm_sender :: pallet_name
  xcm_asset_transactor :: asset_transactor
  xcm_origin_converter :: "origin_converter list"
  is_reserve :: "asset_filter list"
  is_teleporter :: "asset_filter list"
  location_inverter :: location

definition runtime_xcm :: "para_id \<Rightarrow> xcm_config" where
  "runtime_xcm own =
    \<lparr>xcm_sender = XcmHandler, xcm_asset_transactor = local_asset_transactor,
     xcm_origin_converter = local_origin_converter, is_reserve = [NativeAsset],
     is_teleporter = [], location_inverter = ancestry own\<rparr>"

datatype send_origin = EnsureRoot

record xcm_handler_config =
  handler_executor :: xcm_config
  upward_message_sender :: pallet_name
  xcmp_message_sender :: pallet_name
  send_xcm_origin :: send_origin
  account_id_converter :: "account_converter list"

definition runtime_xcm_handler :: "para_id \<Rightarrow> xcm_handler_config" where
  "runtime_xcm_handler own =
    \<lparr>handler_executor = runtime_xcm own, upward_message_sender = ParachainSystem,
     xcmp_message_sender = ParachainSystem, send_xcm_origin = EnsureRoot,
     account_id_converter = location_converter\<rparr>"

section \<open>Transactions\<close>

datatype signed_extension =
    CheckSpecVersion | CheckTxVersion | CheckGenesis | CheckEra | CheckNonce | CheckWeight
  | ChargeTransactionPayment

definition signed_extra :: "signed_extension list" where
  "signed_extra =
    [CheckSpecVersion, CheckTxVersion, CheckGenesis, CheckEra, CheckNonce, CheckWeight,
     ChargeTransactionPayment]"

section \<open>Runtime APIs\<close>

text \<open>
  What the APIs call: the executive, the metadata of the runtime, the inherents, and functions of
  pallets, each on the state \<open>'s\<close> of the chain. Arguments and answers are in the encoding the node
  passes them in.
\<close>

record 's api_libs =
  executive_execute_block :: "byte list \<Rightarrow> 's \<Rightarrow> 's"
  executive_initialize_block :: "byte list \<Rightarrow> 's \<Rightarrow> 's"
  runtime_metadata :: "byte list"
  executive_apply_extrinsic :: "byte list \<Rightarrow> 's \<Rightarrow> byte list \<times> 's"
  executive_finalize_block :: "'s \<Rightarrow> byte list \<times> 's"
  create_extrinsics :: "byte list \<Rightarrow> 's \<Rightarrow> byte list list"
  check_extrinsics :: "byte list \<Rightarrow> byte list \<Rightarrow> 's \<Rightarrow> byte list"
  random_seed_of :: "'s \<Rightarrow> byte list \<times> block_number"
  executive_validate :: "byte list \<Rightarrow> byte list \<Rightarrow> 's \<Rightarrow> byte list \<times> 's"
  executive_offchain_worker :: "byte list \<Rightarrow> 's \<Rightarrow> 's"
  session_keys_generate :: "byte list option \<Rightarrow> byte list"
  session_keys_decode :: "byte list \<Rightarrow> (byte list \<times> byte list) list option"
  system_account_nonce :: "byte list \<Rightarrow> 's \<Rightarrow> 32 word"
  payment_query_info :: "byte list \<Rightarrow> 32 word \<Rightarrow> 's \<Rightarrow> byte list"
  payment_query_fee_details :: "byte list \<Rightarrow> 32 word \<Rightarrow> 's \<Rightarrow> byte list"

datatype api_call =
    Core_version
  | Core_execute_block "byte list"
  | Core_initialize_block "byte list"
  | Metadata_metadata
  | BlockBuilder_apply_extrinsic "byte list"
  | BlockBuilder_finalize_block
  | BlockBuilder_inherent_extrinsics "byte list"
  | BlockBuilder_check_inherents "byte list" "byte list"
  | BlockBuilder_random_seed
  | TaggedTransactionQueue_validate_transaction "byte list" "byte list"
  | OffchainWorkerApi_offchain_worker "byte list"
  | SessionKeys_generate_session_keys "byte list option"
  | SessionKeys_decode_session_keys "byte list"
  | AccountNonceApi_account_nonce "byte list"
  | TransactionPaymentApi_query_info "byte list" "32 word"
  | TransactionPaymentApi_query_fee_details "byte list" "32 word"

datatype api_answer =
    Unit_answer
  | Version_answer runtime_version
  | Bytes_answer "byte list"
  | List_answer "byte list list"
  | Keys_answer "(byte list \<times> byte list) list option"
  | Index_answer "32 word"

fun runtime_api :: "'s api_libs \<Rightarrow> api_call \<Rightarrow> 's \<Rightarrow> api_answer \<times> 's" where
  "runtime_api libs Core_version s = (Version_answer VERSION, s)"
| "runtime_api libs (Core_execute_block block) s =
    (Unit_answer, executive_execute_block libs block s)"
| "runtime_api libs (Core_initialize_block header) s =
    (Unit_answer, executive_initialize_block libs header s)"
| "runtime_api libs Metadata_metadata s = (Bytes_answer (runtime_metadata libs), s)"
| "runtime_api libs (BlockBuilder_apply_extrinsic extrinsic) s =
    (case executive_apply_extrinsic libs extrinsic s of (r, s) \<Rightarrow> (Bytes_answer r, s))"
| "runtime_api libs BlockBuilder_finalize_block s =
    (case executive_finalize_block libs s of (header, s) \<Rightarrow> (Bytes_answer header, s))"
| "runtime_api libs (BlockBuilder_inherent_extrinsics data) s =
    (List_answer (create_extrinsics libs data s), s)"
| "runtime_api libs (BlockBuilder_check_inherents block data) s =
    (Bytes_answer (check_extrinsics libs data block s), s)"
| "runtime_api libs BlockBuilder_random_seed s = (Bytes_answer (fst (random_seed_of libs s)), s)"
| "runtime_api libs (TaggedTransactionQueue_validate_transaction source tx) s =
    (case executive_validate libs source tx s of (r, s) \<Rightarrow> (Bytes_answer r, s))"
| "runtime_api libs (OffchainWorkerApi_offchain_worker header) s =
    (Unit_answer, executive_offchain_worker libs header s)"
| "runtime_api libs (SessionKeys_generate_session_keys seed) s =
    (Bytes_answer (session_keys_generate libs seed), s)"
| "runtime_api libs (SessionKeys_decode_session_keys encoded) s =
    (Keys_answer (session_keys_decode libs encoded), s)"
| "runtime_api libs (AccountNonceApi_account_nonce account) s =
    (Index_answer (system_account_nonce libs account s), s)"
| "runtime_api libs (TransactionPaymentApi_query_info uxt len) s =
    (Bytes_answer (payment_query_info libs uxt len s), s)"
| "runtime_api libs (TransactionPaymentApi_query_fee_details uxt len) s =
    (Bytes_answer (payment_query_fee_details libs uxt len s), s)"

text \<open>Only six of the APIs can change the state of the chain.\<close>

lemma queries_keep_state:
  assumes "runtime_api libs call s = (r, t)" and "t \<noteq> s"
  shows "(\<exists>b. call = Core_execute_block b) \<or> (\<exists>h. call = Core_initialize_block h) \<or>
    (\<exists>x. call = BlockBuilder_apply_extrinsic x) \<or> call = BlockBuilder_finalize_block \<or>
    (\<exists>q x. call = TaggedTransactionQueue_validate_transaction q x) \<or>
    (\<exists>h. call = OffchainWorkerApi_offchain_worker h)"
  using assms by (cases call) auto

section \<open>Which entry points of the pallets the runtime reaches\<close>

text \<open>
  A message of another chain goes to the handler of the build; an account that is reaped is
  announced to the handlers the system is configured with.
\<close>

definition message_delivered ::
  "build \<Rightarrow> ('o, 'a, 'p, 'c, 'q) env \<Rightarrow> para_id \<Rightarrow> para_id \<Rightarrow> nat \<Rightarrow> byte list \<Rightarrow>
   ('a, 'p, 'c, 'q) service_state + ('a, 'p, 'c, 'q) client_state \<Rightarrow>
   ('a, 'p, 'c, 'q) service_state + ('a, 'p, 'c, 'q) client_state" where
  "message_delivered b libs own sender sent_at blob st =
    (case (xcmp_handler (runtime_parachain_system b), st) of
       (ServiceModule, Inl s) \<Rightarrow>
         Inl (handle_blob_message_svc (runtime_service libs own) sender sent_at blob s)
     | (ClientModule, Inr s) \<Rightarrow>
         Inr (handle_blob_message_cli (runtime_client libs) sender sent_at blob s)
     | _ \<Rightarrow> st)"

definition account_reaped ::
  "block_weights \<Rightarrow> nat \<times> nat \<Rightarrow> 'a \<Rightarrow> ('a, 'p, 'c, 'q) service_state + ('a, 'p, 'c, 'q) client_state \<Rightarrow>
   ('a, 'p, 'c, 'q) service_state + ('a, 'p, 'c, 'q) client_state" where
  "account_reaped weights rocksdb a st = fold (\<lambda>h st.
     (case (h, st) of
        (ServiceModule, Inl s) \<Rightarrow> Inl (on_killed_account_svc a s)
      | (ClientModule, Inr s) \<Rightarrow> Inr (on_killed_account_cli a s)
      | _ \<Rightarrow> st)) (on_killed_account (runtime_system weights rocksdb)) st"

lemma reaped_device_stays: "account_reaped weights rocksdb a st = st"
  by (simp add: account_reaped_def runtime_system_def)

lemma message_reaches_pallet:
  "message_delivered ServiceBuild libs own sender n blob (Inl s)
    = Inl (handle_blob_message_svc (runtime_service libs own) sender n blob s)"
  "message_delivered ClientBuild libs own sender n blob (Inr u)
    = Inr (handle_blob_message_cli libs sender n blob u)"
  by (simp_all add: message_delivered_def runtime_parachain_system_def xcmp_message_handlers_def
      runtime_client_def)

end
