(* ===== verification/BuildTools.thy ===== *)
theory BuildTools
  imports RuntimeConfig
begin

text \<open>
  What surrounds the runtime when it is built and measured: the benchmark interface at the end of
  \<^verbatim>\<open>runtime/src/lib.rs\<close> (compiled with the feature \<^verbatim>\<open>runtime-benchmarks\<close>) and the two build
  scripts. The macro \<^verbatim>\<open>add_benchmark!\<close>, the WASM builder and the helpers of the build scripts
  are library code and stay parameters or recorded calls.
\<close>

section \<open>Benchmarks\<close>

text \<open>A storage key as the source writes it, sixteen bytes for the pallet and sixteen for the item.\<close>

fun hex_digit :: "char \<Rightarrow> nat" where
  "hex_digit c = (if (97 :: nat) \<le> of_char c then of_char c - 87 else of_char c - 48)"

fun hex_bytes :: "string \<Rightarrow> byte list" where
  "hex_bytes (a # b # cs) = word_of_nat (16 * hex_digit a + hex_digit b) # hex_bytes cs"
| "hex_bytes _ = []"

definition benchmark_whitelist :: "byte list list" where
  "benchmark_whitelist = [
     hex_bytes ''26aa394eea5630e07c48ae0c9558cef702a5c1b19ab7a04f536c519aca4983ac'',  \<comment> \<open>block number\<close>
     hex_bytes ''c2261276cc9d1f8598ea4b6a74b15c2f57c875e4cff74148e4628f264b974c80'',  \<comment> \<open>total issuance\<close>
     hex_bytes ''26aa394eea5630e07c48ae0c9558cef7ff553b5a9862a516939d82b3d3d8661a'',  \<comment> \<open>execution phase\<close>
     hex_bytes ''26aa394eea5630e07c48ae0c9558cef70a98fdbe9ce6c55837576c60c7af3850'',  \<comment> \<open>event count\<close>
     hex_bytes ''26aa394eea5630e07c48ae0c9558cef780d41e5e16056765bc8461851072c9d7'']  \<comment> \<open>events\<close>"

text \<open>
  \<open>add_benchmark name params batches\<close> is the macro: it runs the benchmarks of the pallet when the
  configuration asks for it, appends them to the batches, and leaves the function with an error
  when one fails.
\<close>

definition dispatch_benchmark ::
  "(string \<Rightarrow> 'cfg \<times> byte list list \<Rightarrow> 'b list \<Rightarrow> string + 'b list) \<Rightarrow> 'cfg \<Rightarrow> string + 'b list" where
  "dispatch_benchmark add_benchmark config =
    (let params = (config, benchmark_whitelist);
         measure = (\<lambda>name r. case r of Inl e \<Rightarrow> Inl e | Inr batches \<Rightarrow> add_benchmark name params batches);
         r = measure ''pallet_timestamp'' (measure ''pallet_balances'' (measure ''frame_system'' (Inr [])))
     in case r of
          Inl e \<Rightarrow> Inl e
        | Inr batches \<Rightarrow>
            if batches = [] then Inl ''Benchmark not found for this pallet.'' else Inr batches)"

lemma benchmark_whitelist_keys: "map length benchmark_whitelist = replicate 5 32"
  by (simp add: benchmark_whitelist_def numeral_eq_Suc)

text \<open>An answer is never empty, and the pallets of this program are not measured at all.\<close>

lemma benchmarks_found: "dispatch_benchmark add config = Inr batches \<Longrightarrow> batches \<noteq> []"
  by (auto simp: dispatch_benchmark_def Let_def split: sum.splits if_splits)

lemma own_pallets_not_measured:
  assumes "\<And>name batches. name \<noteq> wanted \<Longrightarrow> add name (config, benchmark_whitelist) batches = Inr batches"
    and "wanted \<in> {''pallet_service'', ''pallet_client''}"
  shows "dispatch_benchmark add config = Inl ''Benchmark not found for this pallet.''"
  using assms by (auto simp: dispatch_benchmark_def)

section \<open>Build scripts\<close>

datatype build_step = Generate_cargo_keys | Rerun_if_git_head_changed

definition node_build_script :: "build_step list" where
  "node_build_script = [Generate_cargo_keys, Rerun_if_git_head_changed]"

text \<open>The choices made on the WASM builder before it runs.\<close>

record wasm_builder =
  wb_current_project :: bool
  wb_export_heap_base :: bool
  wb_import_memory :: bool

definition runtime_build_script :: "wasm_builder" where
  "runtime_build_script =
    (let b = \<lparr>wb_current_project = False, wb_export_heap_base = False, wb_import_memory = False\<rparr>;
         b = b\<lparr>wb_current_project := True\<rparr>;
         b = b\<lparr>wb_export_heap_base := True\<rparr>
     in b\<lparr>wb_import_memory := True\<rparr>)"

end
