(* ===== verification/NodeService.thy ===== *)
theory NodeService
  imports Prelude
begin

text \<open>
  The assembly of a node (\<^verbatim>\<open>node/src/service.rs\<close>). The components it puts together are library
  objects; what the file decides is which of them are created, in which order, with which of its
  arguments, and what happens when one of them fails. The model is the sequence of library calls,
  each with the arguments that depend on the configuration: a call that fails ends the assembly
  with its error, a panic of \<^verbatim>\<open>unwrap\<close> ends it with a panic. The handles that one call returns and a
  later one takes are in theory \<open>NodeHandles\<close>.
\<close>

section \<open>Library calls\<close>

text \<open>What the code reads of the \<^verbatim>\<open>Configuration\<close> of the library.\<close>

record node_configuration =
  is_light :: bool
  is_authority :: bool
  telemetry_endpoints :: "string list option"

datatype service_call =
    NewTelemetryWorker nat
  | NewFullParts bool                  \<comment> \<open>with a telemetry handle or without\<close>
  | SpawnTelemetry
  | NewFullPool bool                   \<comment> \<open>for an authority or not\<close>
  | ImportQueue
  | RegisterTimestampProvider
  | BuildPolkadotFullNode bool         \<comment> \<open>with the telemetry worker's handle or without\<close>
  | BuildBlockAnnounceValidator para_id
  | BuildNetwork
  | SpawnTasks bool
  | NewProposerFactory bool
  | BuildRelayChainConsensus para_id
  | StartCollator para_id
  | StartFullNode para_id
  | StartNetwork

datatype stop = Failed string | Panicked string

type_synonym 'a assembly = "(stop, 'a, service_call list) outcome"

text \<open>
  A call is recorded and then answers; \<open>fails\<close> says which calls fail and how. \<open>try_call\<close> is a call
  followed by \<^verbatim>\<open>?\<close>, \<open>unwrap_call\<close> one followed by \<^verbatim>\<open>unwrap\<close>, \<open>do_call\<close> one that cannot fail.
\<close>

definition do_call :: "service_call \<Rightarrow> service_call list \<Rightarrow> service_call list" where
  "do_call c log = log @ [c]"

definition try_call ::
  "(service_call \<Rightarrow> string option) \<Rightarrow> service_call \<Rightarrow> service_call list \<Rightarrow> unit assembly" where
  "try_call fails c log =
    ((case fails c of None \<Rightarrow> Inr () | Some e \<Rightarrow> Inl (Failed e)), log @ [c])"

definition unwrap_call ::
  "(service_call \<Rightarrow> string option) \<Rightarrow> service_call \<Rightarrow> service_call list \<Rightarrow> unit assembly" where
  "unwrap_call fails c log =
    ((case fails c of None \<Rightarrow> Inr () | Some e \<Rightarrow> Inl (Panicked e)), log @ [c])"

section \<open>The assembly\<close>

text \<open>
  \<^verbatim>\<open>new_partial\<close>: telemetry is used when there are endpoints and the list is not empty. The result
  says whether it is.
\<close>

definition uses_telemetry :: "node_configuration \<Rightarrow> bool" where
  "uses_telemetry config =
    (case telemetry_endpoints config of None \<Rightarrow> False | Some x \<Rightarrow> x \<noteq> [])"

definition new_partial ::
  "(service_call \<Rightarrow> string option) \<Rightarrow> node_configuration \<Rightarrow> service_call list \<Rightarrow> bool assembly" where
  "new_partial fails config log =
    (let telemetry = uses_telemetry config in
     and_then (if telemetry then try_call fails (NewTelemetryWorker 16) log else (Inr (), log))
       (\<lambda>_ log. and_then (try_call fails (NewFullParts telemetry) log) (\<lambda>_ log.
         let log = (if telemetry then do_call SpawnTelemetry log else log);
             log = do_call (NewFullPool (is_authority config)) log
         in and_then (try_call fails ImportQueue log) (\<lambda>_ log. (Inr telemetry, log)))))"

definition start_node_impl ::
  "(service_call \<Rightarrow> string option) \<Rightarrow> (node_configuration \<Rightarrow> node_configuration) \<Rightarrow>
   node_configuration \<Rightarrow> para_id \<Rightarrow> bool \<Rightarrow> service_call list \<Rightarrow> unit assembly" where
  "start_node_impl fails prepare_node_config parachain_config i validator log =
    (if is_light parachain_config then (Inl (Failed ''Light client not supported!''), log)
     else
       let parachain_config = prepare_node_config parachain_config
       in and_then (new_partial fails parachain_config log) (\<lambda>telemetry log.
          and_then (unwrap_call fails RegisterTimestampProvider log) (\<lambda>_ log.
          and_then (try_call fails (BuildPolkadotFullNode telemetry) log) (\<lambda>_ log.
          let log = do_call (BuildBlockAnnounceValidator i) log
          in and_then (try_call fails BuildNetwork log) (\<lambda>_ log.
             and_then (try_call fails (SpawnTasks telemetry) log) (\<lambda>_ log.
             and_then
               (if validator then
                  (let log = do_call (NewProposerFactory telemetry) log;
                       log = do_call (BuildRelayChainConsensus i) log
                   in try_call fails (StartCollator i) log)
                else try_call fails (StartFullNode i) log)
               (\<lambda>_ log. (Inr (), do_call StartNetwork log))))))))"

definition start_node ::
  "(service_call \<Rightarrow> string option) \<Rightarrow> (node_configuration \<Rightarrow> node_configuration) \<Rightarrow>
   node_configuration \<Rightarrow> para_id \<Rightarrow> bool \<Rightarrow> service_call list \<Rightarrow> unit assembly" where
  "start_node fails prepare_node_config parachain_config i validator log =
    start_node_impl fails prepare_node_config parachain_config i validator log"

section \<open>The calls of a successful assembly\<close>

definition partial_calls :: "node_configuration \<Rightarrow> service_call list" where
  "partial_calls config =
    (if uses_telemetry config then [NewTelemetryWorker 16] else []) @
    [NewFullParts (uses_telemetry config)] @
    (if uses_telemetry config then [SpawnTelemetry] else []) @
    [NewFullPool (is_authority config), ImportQueue]"

definition node_calls :: "node_configuration \<Rightarrow> para_id \<Rightarrow> bool \<Rightarrow> service_call list" where
  "node_calls config i validator =
    partial_calls config @
    [RegisterTimestampProvider, BuildPolkadotFullNode (uses_telemetry config),
     BuildBlockAnnounceValidator i, BuildNetwork, SpawnTasks (uses_telemetry config)] @
    (if validator
     then [NewProposerFactory (uses_telemetry config), BuildRelayChainConsensus i, StartCollator i]
     else [StartFullNode i]) @ [StartNetwork]"

text \<open>The calls whose failure the code passes on; the others cannot fail.\<close>

fun fallible :: "service_call \<Rightarrow> bool" where
  "fallible SpawnTelemetry = False"
| "fallible (NewFullPool b) = False"
| "fallible (BuildBlockAnnounceValidator i) = False"
| "fallible (NewProposerFactory b) = False"
| "fallible (BuildRelayChainConsensus i) = False"
| "fallible StartNetwork = False"
| "fallible _ = True"

text \<open>
  The reference: go down the list of calls and stop at the first one that fails.
\<close>

definition stop_of :: "service_call \<Rightarrow> string \<Rightarrow> stop" where
  "stop_of c e = (if c = RegisterTimestampProvider then Panicked e else Failed e)"

fun perform ::
  "(service_call \<Rightarrow> string option) \<Rightarrow> service_call list \<Rightarrow> service_call list \<Rightarrow> unit assembly" where
  "perform fails [] log = (Inr (), log)"
| "perform fails (c # cs) log =
    (case (if fallible c then fails c else None) of
      Some e \<Rightarrow> (Inl (stop_of c e), log @ [c])
    | None \<Rightarrow> perform fails cs (log @ [c]))"

lemma perform_append:
  "perform fails (cs @ cs') log = and_then (perform fails cs log) (\<lambda>_. perform fails cs')"
  by (induction cs arbitrary: log) (auto split: option.splits)

lemma perform_calls:
  "fallible c \<Longrightarrow> c \<noteq> RegisterTimestampProvider \<Longrightarrow> try_call fails c log = perform fails [c] log"
  "unwrap_call fails RegisterTimestampProvider log = perform fails [RegisterTimestampProvider] log"
  "\<not> fallible c \<Longrightarrow> perform fails (c # cs) log = perform fails cs (do_call c log)"
  by (auto simp: try_call_def unwrap_call_def stop_of_def do_call_def split: option.splits)

lemma perform_log: "perform fails cs log = (r, log') \<Longrightarrow> \<exists>n. log' = log @ take n cs"
proof (induction cs arbitrary: log)
  case (Cons c cs)
  show ?case
  proof (cases "if fallible c then fails c else None")
    case None
    with Cons.prems have "perform fails cs (log @ [c]) = (r, log')" by simp
    from Cons.IH [OF this] obtain n where "log' = (log @ [c]) @ take n cs" by blast
    then have "log' = log @ take (Suc n) (c # cs)" by simp
    then show ?thesis by blast
  next
    case (Some e)
    with Cons.prems have "log' = log @ take 1 (c # cs)" by simp
    then show ?thesis by blast
  qed
qed simp

lemma perform_ok: "perform fails cs log = (Inr (), log') \<longleftrightarrow>
    log' = log @ cs \<and> (\<forall>c \<in> set cs. fallible c \<longrightarrow> fails c = None)"
  by (induction cs arbitrary: log) (auto split: option.splits)

lemma perform_error: "perform fails cs log = (Inl e, log') \<Longrightarrow>
    (\<exists>n < length cs. log' = log @ take n cs @ [cs ! n] \<and> fallible (cs ! n) \<and>
      (\<exists>x. fails (cs ! n) = Some x \<and> e = stop_of (cs ! n) x))"
proof (induction cs arbitrary: log)
  case (Cons c cs)
  show ?case
  proof (cases "if fallible c then fails c else None")
    case None
    with Cons.prems have "perform fails cs (log @ [c]) = (Inl e, log')" by simp
    from Cons.IH [OF this] obtain n x where "n < length cs"
      "log' = (log @ [c]) @ take n cs @ [cs ! n]" "fallible (cs ! n)"
      "fails (cs ! n) = Some x" "e = stop_of (cs ! n) x" by blast
    then show ?thesis by (intro exI [of _ "Suc n"]) simp
  next
    case (Some x)
    with Cons.prems show ?thesis by (intro exI [of _ 0]) (auto split: if_splits)
  qed
qed simp

lemma new_partial_performs:
  "new_partial fails config log =
    and_then (perform fails (partial_calls config) log) (\<lambda>_ log. (Inr (uses_telemetry config), log))"
  by (simp add: new_partial_def partial_calls_def perform_append Let_def try_call_def do_call_def
      stop_of_def split: option.splits)

lemma start_node_performs:
  assumes "\<not> is_light config"
  shows "start_node fails prepare config i validator log =
    perform fails (node_calls (prepare config) i validator) log"
proof -
  let ?c = "prepare config"
  have partial: "and_then (new_partial fails ?c log) k =
      and_then (perform fails (partial_calls ?c) log) (\<lambda>_. k (uses_telemetry ?c))" for k
    by (cases "perform fails (partial_calls ?c) log"; cases "fst (perform fails (partial_calls ?c) log)")
      (auto simp: new_partial_performs)
  show ?thesis
    unfolding start_node_def start_node_impl_def node_calls_def perform_append
    using assms
    by (simp add: Let_def partial try_call_def unwrap_call_def do_call_def stop_of_def
        split: option.splits)
qed

lemma start_node_light:
  "is_light config \<Longrightarrow> start_node fails prepare config i validator log =
    (Inl (Failed ''Light client not supported!''), log)"
  by (simp add: start_node_def start_node_impl_def)

section \<open>What an assembly has done\<close>

text \<open>
  Assembling a node is performing one list of calls up to the first that fails: the list
  is determined by the configuration, the parachain id and the choice between collator and full
  node; a light client is refused before the first call; and the only panic is that of
  registering the timestamp provider.
\<close>

lemma start_node_performs_calls:
  "start_node fails prepare config i validator log =
    (if is_light config then (Inl (Failed ''Light client not supported!''), log)
     else perform fails (node_calls (prepare config) i validator) log)"
  by (simp add: start_node_light start_node_performs)

lemma node_calls_facts:
  "StartCollator j \<in> set (node_calls c i v) \<longleftrightarrow> v \<and> j = i"
  "StartFullNode j \<in> set (node_calls c i v) \<longleftrightarrow> \<not> v \<and> j = i"
  "BuildBlockAnnounceValidator j \<in> set (node_calls c i v) \<longleftrightarrow> j = i"
  "\<exists>cs. node_calls c i v = cs @ [StartNetwork] \<and> StartNetwork \<notin> set cs"
  by (auto simp: node_calls_def partial_calls_def)

lemma node_calls_prefix:
  assumes "n < length (node_calls c i v)"
  shows "StartNetwork \<notin> set (take n (node_calls c i v))"
proof -
  obtain cs where cs: "node_calls c i v = cs @ [StartNetwork]" "StartNetwork \<notin> set cs"
    using node_calls_facts(4) by blast
  with assms have "take n (node_calls c i v) = take n cs" by simp
  with cs(2) show ?thesis using in_set_takeD by force
qed

text \<open>
  The network is started last and only by a node that came up: it is started exactly when
  the assembly succeeds. Whatever happens, a collator is started only when one was asked for, a
  full node only otherwise, and both for the parachain that was asked for; a failure is that of
  the last call made.
\<close>

lemma network_starts_last:
  assumes "start_node fails prepare config i validator [] = (r, log)"
  shows "(StartNetwork \<in> set log \<longleftrightarrow> r = Inr ()) \<and>
    (r = Inr () \<longrightarrow> last log = StartNetwork \<and>
      (if validator then StartCollator i else StartFullNode i) \<in> set log) \<and>
    (\<forall>j. StartCollator j \<in> set log \<longrightarrow> validator \<and> j = i) \<and>
    (\<forall>j. StartFullNode j \<in> set log \<longrightarrow> \<not> validator \<and> j = i) \<and>
    (\<forall>e. r = Inl e \<longrightarrow> log = [] \<and> is_light config \<or>
      (\<exists>x. fails (last log) = Some x \<and> e = stop_of (last log) x))"
proof (cases "is_light config")
  case True
  with assms show ?thesis by (auto simp: start_node_light)
next
  case False
  let ?cs = "node_calls (prepare config) i validator"
  from False assms have op: "perform fails ?cs [] = (r, log)" by (simp add: start_node_performs)
  then obtain n where n: "log = take n ?cs" using perform_log by fastforce
  then have sub: "c \<in> set ?cs" if "c \<in> set log" for c using that by (auto dest: in_set_takeD)
  have started: "\<forall>j. StartCollator j \<in> set log \<longrightarrow> validator \<and> j = i"
    "\<forall>j. StartFullNode j \<in> set log \<longrightarrow> \<not> validator \<and> j = i"
    using sub node_calls_facts(1,2) by blast+
  show ?thesis
  proof (cases r)
    case (Inl e)
    from perform_error [OF op [unfolded Inl]] obtain m x where m: "m < length ?cs"
      "log = take m ?cs @ [?cs ! m]" "fallible (?cs ! m)" "fails (?cs ! m) = Some x"
      "e = stop_of (?cs ! m) x" by auto
    have "?cs ! m \<noteq> StartNetwork" using m(3) by auto
    with m node_calls_prefix [OF m(1)] have "StartNetwork \<notin> set log" by auto
    moreover have "fails (last log) = Some x \<and> e = stop_of (last log) x" using m by simp
    ultimately show ?thesis using Inl started by blast
  next
    case (Inr u)
    with op have "log = ?cs" by (simp add: perform_ok)
    moreover have "last ?cs = StartNetwork" "StartNetwork \<in> set ?cs"
      using node_calls_facts(4) [of "prepare config" i validator] by auto
    ultimately show ?thesis using Inr by (auto simp: node_calls_facts)
  qed
qed

definition sample_configuration :: node_configuration where
  "sample_configuration = \<lparr>is_light = False, is_authority = True, telemetry_endpoints = Some []\<rparr>"

end
