(* ===== verification/NodeHandles.thy ===== *)
theory NodeHandles
  imports NodeService
begin

text \<open>
  The handles that the library calls of a node pass to each other (\<^verbatim>\<open>node/src/service.rs\<close>): which
  call makes each of them, which calls take it, and which call it is moved into, after which the
  code has it no longer. A handle that is cloned or borrowed stays.
\<close>

section \<open>Who makes and who takes a handle\<close>

datatype handle =
    Parachain_config | Relay_config | Collator_key | Inherent_data_providers
  | Telemetry_worker | Telemetry_worker_handle | Telemetry
  | Client | Backend | Keystore_container | Task_manager | Transaction_pool | Import_queue
  | Relay_full_node | Block_announce_validator
  | Network | Network_status_sinks | System_rpc_tx | Network_starter
  | Proposer_factory | Parachain_consensus

text \<open>The arguments of \<^verbatim>\<open>start_node\<close>, and the one object \<^verbatim>\<open>new_partial\<close> makes before all others.\<close>

definition first_handles :: "handle list" where
  "first_handles = [Parachain_config, Collator_key, Relay_config, Inherent_data_providers]"

fun gives :: "service_call \<Rightarrow> handle list" where
  "gives (NewTelemetryWorker n) = [Telemetry_worker, Telemetry_worker_handle, Telemetry]"
| "gives (NewFullParts t) = [Client, Backend, Keystore_container, Task_manager]"
| "gives (NewFullPool a) = [Transaction_pool]"
| "gives ImportQueue = [Import_queue]"
| "gives (BuildPolkadotFullNode t) = [Relay_full_node]"
| "gives (BuildBlockAnnounceValidator i) = [Block_announce_validator]"
| "gives BuildNetwork = [Network, Network_status_sinks, System_rpc_tx, Network_starter]"
| "gives (NewProposerFactory t) = [Proposer_factory]"
| "gives (BuildRelayChainConsensus i) = [Parachain_consensus]"
| "gives _ = []"

text \<open>What a call takes by clone or reference, and what is moved into it.\<close>

fun borrows :: "service_call \<Rightarrow> handle list" where
  "borrows (NewTelemetryWorker n) = [Parachain_config]"
| "borrows (NewFullParts t) = Parachain_config # (if t then [Telemetry] else [])"
| "borrows SpawnTelemetry = [Task_manager]"
| "borrows (NewFullPool a) = [Parachain_config, Task_manager, Client]"
| "borrows ImportQueue = [Client, Inherent_data_providers, Task_manager, Parachain_config]"
| "borrows RegisterTimestampProvider = [Inherent_data_providers]"
| "borrows (BuildPolkadotFullNode t) = [Collator_key]"
| "borrows (BuildBlockAnnounceValidator i) = [Relay_full_node]"
| "borrows BuildNetwork = [Parachain_config, Client, Transaction_pool, Task_manager]"
| "borrows (SpawnTasks t) =
    [Client, Transaction_pool, Task_manager, Keystore_container, Backend, Network] @
    (if t then [Telemetry] else [])"
| "borrows (NewProposerFactory t) = [Task_manager, Client] @ (if t then [Telemetry] else [])"
| "borrows (BuildRelayChainConsensus i) = [Client, Relay_full_node]"
| "borrows (StartCollator i) = [Client, Network, Task_manager]"
| "borrows (StartFullNode i) = [Client, Network, Task_manager]"
| "borrows StartNetwork = []"

fun moves :: "service_call \<Rightarrow> handle list" where
  "moves SpawnTelemetry = [Telemetry_worker]"
| "moves (BuildPolkadotFullNode t) = Relay_config # (if t then [Telemetry_worker_handle] else [])"
| "moves BuildNetwork = [Import_queue, Block_announce_validator]"
| "moves (SpawnTasks t) = [Parachain_config, Network_status_sinks, System_rpc_tx]"
| "moves (NewProposerFactory t) = [Transaction_pool]"
| "moves (BuildRelayChainConsensus i) = [Proposer_factory, Inherent_data_providers]"
| "moves (StartCollator i) = [Collator_key, Relay_full_node, Backend, Parachain_consensus]"
| "moves (StartFullNode i) = [Relay_full_node]"
| "moves StartNetwork = [Network_starter]"
| "moves _ = []"

section \<open>Every call finds its handles\<close>

text \<open>The handles the code holds after some calls, or \<open>None\<close> when a call misses one.\<close>

fun held :: "handle list \<Rightarrow> service_call list \<Rightarrow> handle list option" where
  "held hs [] = Some hs"
| "held hs (c # cs) =
    (if list_all (\<lambda>h. h \<in> set hs) (borrows c @ moves c)
     then held (gives c @ filter (\<lambda>h. h \<notin> set (moves c)) hs) cs else None)"

text \<open>
  Whatever the configuration, a call finds every handle it takes: an earlier call made it and none
  took it away. At the end the code still has the task manager and the client it returns, the
  network has been started, and nothing is left that only a running node consumes.
\<close>

lemma calls_find_their_handles:
  "\<exists>hs. held first_handles (node_calls config i validator) = Some hs \<and>
    {Task_manager, Client} \<subseteq> set hs \<and>
    set hs \<inter> {Import_queue, Network_starter, Relay_config, Relay_full_node, Telemetry_worker} = {}"
  by (cases "uses_telemetry config"; cases validator)
    (simp_all add: node_calls_def partial_calls_def first_handles_def)

text \<open>So does every prefix of the calls, which is all an assembly that fails has made.\<close>

lemma held_append: "held hs (cs @ cs') = Some hs' \<Longrightarrow> \<exists>hs''. held hs cs = Some hs''"
  by (induction cs arbitrary: hs) (auto split: if_splits)

lemma assembly_finds_its_handles:
  assumes "start_node fails prepare config i validator [] = (r, log)"
  shows "held first_handles log \<noteq> None"
proof (cases "is_light config")
  case True
  with assms show ?thesis by (auto simp: start_node_light)
next
  case False
  let ?cs = "node_calls (prepare config) i validator"
  from False assms have "perform fails ?cs [] = (r, log)" by (simp add: start_node_performs)
  then obtain n where n: "log = take n ?cs" using perform_log by fastforce
  obtain hs where "held first_handles (take n ?cs @ drop n ?cs) = Some hs"
    using calls_find_their_handles [of "prepare config" i validator] by auto
  from held_append [OF this] n show ?thesis by auto
qed

end
