(* ===== verification/Scenarios.thy ===== *)
theory Scenarios
  imports Service Instance
begin

text \<open>
  The unit tests of the service pallet (\<^verbatim>\<open>pallets/service/src/tests.rs\<close>) and the mock runtime they
  run on (\<^verbatim>\<open>pallets/service/src/mock.rs\<close>), on the model. A test is a predicate that makes the calls
  in the order of the source and asserts what the source asserts; each is proved to hold. The
  calls reach the definitions of theory \<open>Service\<close>, the balances are those of the reference ledger.
\<close>

section \<open>The mock runtime\<close>

type_synonym test_payload = "byte list"
type_synonym test_state = "(account_id, test_payload, account_id ledger, outbox) service_state"
type_synonym test_result = "(account_id, test_payload, account_id ledger, outbox) service_result"

definition INIT_DATA :: "64 word list" where
  "INIT_DATA = [1, 2, 100, 101, 200, 201]"

text \<open>The eight bytes of the number, then zeroes, as a little-endian machine lays them out.\<close>

definition account :: "64 word \<Rightarrow> account_id" where
  "account i = ucast i"

definition OwnParamId :: para_id where "OwnParamId = 0"

definition INITIAL_BALANCE :: nat where "INITIAL_BALANCE = 100000000"

text \<open>The mock has no channel to another chain, and no message of the tests crosses one.\<close>

definition Test :: "(signed_origin, account_id, test_payload, account_id ledger, outbox) service_config"
  where
  "Test = \<lparr>ensure_signed = signed_by, currency_impl = ledger_ops 500, send_blob_message = closed_send,
    message_impl = Codec (\<lambda>_. []) (\<lambda>_. None), hashing = take 32,
    xcm_try_from = (\<lambda>_. Inl ''Unsupported''), self_para_id = OwnParamId,
    on_received = on_received_unit\<rparr>"

definition new_test_ext :: test_state where
  "new_test_ext =
    \<lparr>h_now = 0,
     h_currency = map_of (map (\<lambda>i. (account i, \<lparr>acc_free = INITIAL_BALANCE, acc_reserved = 0\<rparr>)) INIT_DATA),
     h_outbox = [], s_devices = Map.empty, s_orders = Map.empty, s_events = []\<rparr>"

definition set_timestamp :: "moment \<Rightarrow> test_state \<Rightarrow> test_state" where
  "set_timestamp n s = s\<lparr>h_now := n\<rparr>"

text \<open>\<^verbatim>\<open>Balances::force_transfer\<close> by root, as the tests use it: to an account without funds.\<close>

definition force_transfer :: "account_id \<Rightarrow> account_id \<Rightarrow> nat \<Rightarrow> test_state \<Rightarrow> test_state" where
  "force_transfer a b v s =
    (let l = h_currency s
     in s\<lparr>h_currency := l(a \<mapsto> \<lparr>acc_free = ledger_free l a - v, acc_reserved = ledger_reserved l a\<rparr>,
                          b \<mapsto> \<lparr>acc_free = ledger_free l b + v, acc_reserved = ledger_reserved l b\<rparr>)\<rparr>)"

section \<open>Constants and helpers of the tests\<close>

definition DEV1 :: "64 word" where "DEV1 = 100"
definition DEV2 :: "64 word" where "DEV2 = 101"
definition DEV3 :: "64 word" where "DEV3 = 102"
definition CL1 :: "64 word" where "CL1 = 200"
definition CL2 :: "64 word" where "CL2 = 201"
definition CL3 :: "64 word" where "CL3 = 203"

definition PENALTY :: balance where "PENALTY = 10000"
definition DEFAULT_WCD :: moment where "DEFAULT_WCD = 1000"
definition DEFAULT_FEE :: balance where "DEFAULT_FEE = 100000"

definition signed :: "account_id \<Rightarrow> signed_origin" where
  "signed a = Some a"

definition aux_register_device ::
  "64 word \<Rightarrow> bool \<Rightarrow> test_state \<Rightarrow> device_profile_svc option \<times> test_state" where
  "aux_register_device i onoff s =
    (case register_svc Test (signed (account i)) PENALTY DEFAULT_WCD onoff s of
      (Inl _, s) \<Rightarrow> (None, s)
    | (Inr _, s) \<Rightarrow> (s_devices s (account i), s))"

definition aux_order ::
  "64 word \<Rightarrow> 64 word \<Rightarrow> balance \<Rightarrow> moment \<Rightarrow> test_state \<Rightarrow> test_result" where
  "aux_order dev_id client fee wcd s =
    (let until = h_now s + wcd
     in order_svc Test (signed (account client))
          \<lparr>ob_until = until, ob_data = [], ob_fee = fee, ob_device = account dev_id\<rparr> s)"

definition aux_free_balance :: "64 word \<Rightarrow> test_state \<Rightarrow> nat" where
  "aux_free_balance i s = ledger_free (h_currency s) (account i)"

definition aux_total_balance :: "64 word \<Rightarrow> test_state \<Rightarrow> nat" where
  "aux_total_balance i s =
    ledger_free (h_currency s) (account i) + ledger_reserved (h_currency s) (account i)"

definition aux_init_order ::
  "64 word \<Rightarrow> 64 word \<Rightarrow> moment \<Rightarrow> test_state \<Rightarrow>
   (service_error dispatch_error, (account_id, test_payload) order, test_state) outcome" where
  "aux_init_order dev_id client wcd s =
    (let until = h_now s + wcd;
         d = account dev_id
     in and_then (register_svc Test (signed d) PENALTY DEFAULT_WCD True s) (\<lambda>_ s.
        and_then (order_svc Test (signed (account client))
            \<lparr>ob_until = until, ob_data = [], ob_fee = DEFAULT_FEE, ob_device = d\<rparr> s) (\<lambda>_ s.
          (ok_or (s_orders s d) (Pallet NoOrder), s))))"

text \<open>The assertions.\<close>

definition ok :: "('e, 'a, 's) outcome \<Rightarrow> bool" where
  "ok r \<longleftrightarrow> (\<exists>a. fst r = Inr a)"

definition fails :: "('e, 'a, 's) outcome \<Rightarrow> 'e \<Rightarrow> bool" where
  "fails r e \<longleftrightarrow> fst r = Inl e"

definition state_of :: "64 word \<Rightarrow> test_state \<Rightarrow> device_state option" where
  "state_of i s = map_option dev_state (s_devices s (account i))"

lemma ok_Inr [simp]: "ok (Inr a, s)" and ok_Inl [simp]: "\<not> ok (Inl e, s)"
  by (simp_all add: ok_def)

lemmas test_consts = DEV1_def DEV2_def DEV3_def CL1_def CL2_def CL3_def PENALTY_def
  DEFAULT_WCD_def DEFAULT_FEE_def OwnParamId_def INITIAL_BALANCE_def INIT_DATA_def account_def

lemmas test_calls = register_svc_def order_svc_def order_received_svc_def accept_svc_def done_svc_def
  cancel_svc_def set_state_svc_def order_accept_svc_def order_reject_svc_def order_done_svc_def
  on_received_unit_def storage_svc_defs host_call_defs sample_defs

lemmas test_helpers = aux_register_device_def aux_order_def aux_free_balance_def
  aux_total_balance_def aux_init_order_def set_timestamp_def fails_def state_of_def signed_def
  Test_def

lemma new_test_ext_simps [simp]:
  "h_now new_test_ext = 0" "s_devices new_test_ext = Map.empty" "s_orders new_test_ext = Map.empty"
  "h_currency new_test_ext 1 = funds 100000000 0" "h_currency new_test_ext 100 = funds 100000000 0"
  "h_currency new_test_ext 101 = funds 100000000 0" "h_currency new_test_ext 102 = None"
  "h_currency new_test_ext 200 = funds 100000000 0" "h_currency new_test_ext 201 = funds 100000000 0"
  "h_currency new_test_ext 203 = None"
  by (simp_all add: new_test_ext_def test_consts)

section \<open>The tests\<close>

definition register_device :: bool where
  "register_device =
    (let r = register_svc Test (signed (account DEV1)) PENALTY DEFAULT_WCD True new_test_ext;
         s = snd r
     in ok r \<and> state_of DEV1 s = Some Ready \<and>
        map_option dev_wcd (s_devices s (account DEV1)) = Some 1000)"

definition register_device_then_on :: bool where
  "register_device_then_on =
    (let (dev, s) = aux_register_device DEV1 False new_test_ext;
         r = set_state_svc Test (signed (account DEV1)) True s
     in map_option dev_state dev = Some Off \<and> ok r \<and> state_of DEV1 (snd r) = Some Ready)"

definition order_when_off :: bool where
  "order_when_off =
    (let r1 = aux_order DEV1 CL1 DEFAULT_FEE DEFAULT_WCD new_test_ext;
         s = snd (aux_register_device DEV1 False (snd r1));
         r2 = aux_order DEV1 CL1 DEFAULT_FEE DEFAULT_WCD s;
         r3 = set_state_svc Test (signed (account DEV1)) True (snd r2);
         r4 = aux_order DEV1 CL1 DEFAULT_FEE DEFAULT_WCD (snd r3)
     in fails r1 (Pallet NoDevice) \<and> fails r2 (Pallet IllegalState) \<and> ok r3 \<and> ok r4)"

definition order_when_busy :: bool where
  "order_when_busy =
    (let (dev1, s) = aux_register_device DEV1 True new_test_ext;
         (dev2, s) = aux_register_device DEV2 True s;
         r1 = aux_order DEV1 CL1 DEFAULT_FEE DEFAULT_WCD s;
         r2 = aux_order DEV1 CL2 DEFAULT_FEE DEFAULT_WCD (snd r1);
         r3 = aux_order DEV2 CL2 DEFAULT_FEE DEFAULT_WCD (snd r2)
     in dev1 \<noteq> None \<and> dev2 \<noteq> None \<and> ok r1 \<and> state_of DEV1 (snd r1) = Some Busy \<and>
        fails r2 (Pallet IllegalState) \<and> ok r3)"

definition order_rush :: bool where
  "order_rush =
    (let (dev1, s) = aux_register_device DEV1 True new_test_ext
     in dev1 \<noteq> None \<and>
        fails (aux_order DEV1 CL1 DEFAULT_FEE (DEFAULT_WCD - 1) s) (Pallet BadOrderDetails))"

definition order_without_collateral :: bool where
  "order_without_collateral =
    (let (dev1, s1) = aux_register_device DEV1 True new_test_ext;
         (dev2, s2) = aux_register_device DEV2 True s1;
         (dev3, s3) = aux_register_device DEV3 True s2;
         r1 = aux_order DEV1 CL1 DEFAULT_FEE DEFAULT_WCD s3;
         r2 = aux_order DEV2 CL3 DEFAULT_FEE DEFAULT_WCD (snd r1);
         r3 = aux_order DEV2 CL2 DEFAULT_FEE DEFAULT_WCD (snd r2);
         r4 = aux_order DEV3 CL2 DEFAULT_FEE DEFAULT_WCD (snd r3);
         s5 = force_transfer (account 1) (account DEV3) (unat PENALTY) (snd r4);
         r5 = aux_order DEV3 CL2 DEFAULT_FEE DEFAULT_WCD s5
     in dev1 \<noteq> None \<and> dev2 \<noteq> None \<and> dev3 \<noteq> None \<and>
        aux_free_balance DEV1 s1 > unat PENALTY \<and> aux_free_balance DEV3 s3 < unat PENALTY \<and>
        ok r1 \<and> aux_free_balance CL3 (snd r1) = 0 \<and>
        aux_free_balance CL2 (snd r1) > unat DEFAULT_FEE \<and>
        fails r2 (Pallet DeviceLowBail) \<and> ok r3 \<and>
        fails r4 (Foreign ''InsufficientBalance'') \<and> ok r5)"

definition order_reject :: bool where
  "order_reject =
    (let (dev1, s) = aux_register_device DEV1 True new_test_ext;
         r1 = aux_order DEV1 CL1 DEFAULT_FEE DEFAULT_WCD s;
         r2 = accept_svc Test (signed (account DEV1)) True True (snd r1)
     in dev1 \<noteq> None \<and> ok r1 \<and>
        aux_free_balance CL1 s - aux_free_balance CL1 (snd r1) = unat DEFAULT_FEE \<and>
        state_of DEV1 (snd r1) = Some Busy \<and> ok r2 \<and>
        aux_free_balance CL1 (snd r2) = aux_free_balance CL1 s \<and>
        state_of DEV1 (snd r2) = Some Ready)"

definition full_circle :: bool where
  "full_circle =
    (let (dev1, s) = aux_register_device DEV1 True new_test_ext;
         r1 = aux_order DEV1 CL1 DEFAULT_FEE (DEFAULT_WCD * 3) s;
         b2 = aux_free_balance CL1 (snd r1);
         r2 = accept_svc Test (signed (account DEV1)) False True (snd r1);
         s2 = set_timestamp (DEFAULT_WCD * 2) (snd r2);
         r3 = done_svc Test (signed (account DEV1)) True s2;
         s3 = snd r3
     in dev1 \<noteq> None \<and> ok r1 \<and> aux_free_balance CL1 s - b2 = unat DEFAULT_FEE \<and>
        state_of DEV1 (snd r1) = Some Busy \<and> ok r2 \<and> state_of DEV1 s2 = Some Busy2 \<and>
        b2 = aux_total_balance CL1 s2 - unat DEFAULT_FEE \<and> s_orders s2 (account DEV1) \<noteq> None \<and>
        ok r3 \<and> state_of DEV1 s3 = Some Ready \<and> b2 = aux_total_balance CL1 s3 \<and>
        s_orders s3 (account DEV1) = None \<and>
        aux_total_balance DEV1 s3 - aux_total_balance DEV1 s = unat DEFAULT_FEE)"

definition order_cancel :: bool where
  "order_cancel =
    (let b1 = aux_free_balance CL1 new_test_ext;
         s = set_timestamp (DEFAULT_WCD * 1) (snd (aux_init_order DEV1 CL1 (DEFAULT_WCD * 10) new_test_ext));
         r1 = accept_svc Test (signed (account DEV1)) False True s;
         b2 = aux_free_balance CL1 (snd r1);
         r2 = cancel_svc Test (signed (account CL1)) (account DEV1)
                (set_timestamp (DEFAULT_WCD * 11) (snd r1));
         b3 = aux_free_balance CL1 (snd r2)
     in ok r1 \<and> s_orders (snd r1) (account DEV1) \<noteq> None \<and> b1 - b2 = unat DEFAULT_FEE \<and>
        ok r2 \<and> s_orders (snd r2) (account DEV1) = None \<and> state_of DEV1 (snd r2) = Some Busy2 \<and>
        b3 - b1 = unat PENALTY \<and> b3 = aux_total_balance CL1 (snd r2))"

definition order_try_accept_foreign :: bool where
  "order_try_accept_foreign =
    (let s = set_timestamp (DEFAULT_WCD * 1) (snd (aux_init_order DEV1 CL1 (DEFAULT_WCD * 10) new_test_ext))
     in fails (accept_svc Test (signed (account DEV2)) False True s) (Pallet NoDevice))"

definition order_hasty_cancel :: bool where
  "order_hasty_cancel =
    (let s = set_timestamp (DEFAULT_WCD * 1) (snd (aux_init_order DEV1 CL1 (DEFAULT_WCD * 10) new_test_ext));
         r1 = cancel_svc Test (signed (account CL1)) (account DEV1) (set_timestamp (DEFAULT_WCD * 2) s);
         r2 = cancel_svc Test (signed (account CL1)) (account DEV1)
                (set_timestamp (DEFAULT_WCD * 10) (snd r1))
     in s_orders s (account DEV1) \<noteq> None \<and> fails r1 (Pallet Prohibited) \<and> ok r2)"

definition delay_accept :: bool where
  "delay_accept =
    (let d1 = aux_total_balance DEV1 new_test_ext;
         s = set_timestamp (DEFAULT_WCD * 11) (snd (aux_init_order DEV1 CL1 (DEFAULT_WCD * 10) new_test_ext));
         r1 = accept_svc Test (signed (account DEV1)) False True s;
         r2 = accept_svc Test (signed (account DEV1)) True False (snd r1)
     in fails r1 (Pallet Overdue) \<and> s_orders (snd r1) (account DEV1) \<noteq> None \<and>
        state_of DEV1 (snd r1) = Some Busy \<and> ok r2 \<and> s_orders (snd r2) (account DEV1) = None \<and>
        state_of DEV1 (snd r2) = Some Off \<and>
        d1 - aux_total_balance DEV1 (snd r2) = unat PENALTY)"

definition delay_confirm :: bool where
  "delay_confirm =
    (let d1 = aux_total_balance DEV1 new_test_ext;
         s = snd (aux_init_order DEV1 CL1 (DEFAULT_WCD * 10) new_test_ext);
         r1 = accept_svc Test (signed (account DEV1)) False True s;
         r2 = done_svc Test (signed (account DEV1)) True (set_timestamp (DEFAULT_WCD * 11) (snd r1))
     in ok r1 \<and> d1 = aux_total_balance DEV1 (snd r1) \<and> ok r2 \<and>
        aux_total_balance DEV1 (snd r2) - d1 = unat (DEFAULT_FEE - PENALTY))"

definition device_off_after_confirm :: bool where
  "device_off_after_confirm =
    (let s = snd (aux_init_order DEV1 CL1 (DEFAULT_WCD * 10) new_test_ext);
         r1 = accept_svc Test (signed (account DEV1)) False True s;
         s1 = set_timestamp (DEFAULT_WCD * 1) (snd r1);
         r2 = done_svc Test (signed (account DEV1)) False s1
     in ok r1 \<and> s_orders s1 (account DEV1) \<noteq> None \<and> ok r2 \<and>
        state_of DEV1 (snd r2) = Some Off \<and> s_orders (snd r2) (account DEV1) = None)"

definition device_reregister :: bool where
  "device_reregister =
    (let s = snd (aux_init_order DEV1 CL1 (DEFAULT_WCD * 10) new_test_ext);
         r1 = accept_svc Test (signed (account DEV1)) False True s;
         r2 = register_svc Test (signed (account DEV1)) (PENALTY * 2) (DEFAULT_WCD * 2) True (snd r1);
         r3 = done_svc Test (signed (account DEV1)) False (snd r2);
         r4 = register_svc Test (signed (account DEV1)) (PENALTY * 2) (DEFAULT_WCD * 2) True (snd r3)
     in ok r1 \<and> fails r2 (Pallet DeviceExists) \<and> ok r3 \<and> state_of DEV1 (snd r3) = Some Off \<and>
        ok r4 \<and> state_of DEV1 (snd r4) = Some Ready)"

definition order_abandoned :: bool where
  "order_abandoned =
    (let d1 = aux_total_balance DEV1 new_test_ext;
         s = set_timestamp (DEFAULT_WCD * 11) (snd (aux_init_order DEV1 CL1 (DEFAULT_WCD * 10) new_test_ext));
         r1 = cancel_svc Test (signed (account CL1)) (account DEV1) s;
         r2 = aux_order DEV1 CL1 DEFAULT_FEE (DEFAULT_WCD * 10) (snd r1)
     in ok r1 \<and> d1 - aux_total_balance DEV1 (snd r1) = unat PENALTY \<and>
        state_of DEV1 (snd r1) = Some Busy \<and> fails r2 (Pallet IllegalState))"

lemma test_register_device: register_device
  unfolding register_device_def
  by (simp add: test_consts test_calls test_helpers)

lemma test_register_device_then_on: register_device_then_on
  unfolding register_device_then_on_def
  by (simp add: test_consts test_calls test_helpers)

lemma test_order_when_off: order_when_off
  unfolding order_when_off_def
  by (simp add: test_consts test_calls test_helpers)

lemma test_order_when_busy: order_when_busy
  unfolding order_when_busy_def
  by (simp add: test_consts test_calls test_helpers)

lemma test_order_rush: order_rush
  unfolding order_rush_def
  by (simp add: test_consts test_calls test_helpers)

lemma test_order_reject: order_reject
  unfolding order_reject_def
  by (simp add: test_consts test_calls test_helpers)

lemma test_full_circle: full_circle
  unfolding full_circle_def
  by (simp add: test_consts test_calls test_helpers)

lemma test_order_cancel: order_cancel
  unfolding order_cancel_def
  by (simp add: test_consts test_calls test_helpers)

lemma test_order_try_accept_foreign: order_try_accept_foreign
  unfolding order_try_accept_foreign_def
  by (simp add: test_consts test_calls test_helpers)

lemma test_order_hasty_cancel: order_hasty_cancel
  unfolding order_hasty_cancel_def
  by (simp add: test_consts test_calls test_helpers)

lemma test_delay_accept: delay_accept
  unfolding delay_accept_def
  by (simp add: test_consts test_calls test_helpers)

lemma test_delay_confirm: delay_confirm
  unfolding delay_confirm_def
  by (simp add: test_consts test_calls test_helpers)

lemma test_device_off_after_confirm: device_off_after_confirm
  unfolding device_off_after_confirm_def
  by (simp add: test_consts test_calls test_helpers)

lemma test_device_reregister: device_reregister
  unfolding device_reregister_def
  by (simp add: test_consts test_calls test_helpers)

lemma test_order_abandoned: order_abandoned
  unfolding order_abandoned_def
  by (simp add: test_consts test_calls test_helpers)

text \<open>The longest test in steps: the chain after each of its calls.\<close>

definition three_devices :: test_state where
  "three_devices = snd (aux_register_device DEV3 True (snd (aux_register_device DEV2 True
     (snd (aux_register_device DEV1 True new_test_ext)))))"

lemma three_devices_simps:
  "h_now three_devices = 0" "s_orders three_devices = Map.empty"
  "h_currency three_devices = h_currency new_test_ext"
  "s_devices three_devices 100 = Some \<lparr>dev_state = Ready, dev_penalty = 10000, dev_wcd = 1000\<rparr>"
  "s_devices three_devices 101 = Some \<lparr>dev_state = Ready, dev_penalty = 10000, dev_wcd = 1000\<rparr>"
  "s_devices three_devices 102 = Some \<lparr>dev_state = Ready, dev_penalty = 10000, dev_wcd = 1000\<rparr>"
  by (simp_all add: three_devices_def test_helpers test_calls test_consts)

definition two_orders_left :: test_state where
  "two_orders_left = snd (aux_order DEV2 CL2 DEFAULT_FEE DEFAULT_WCD
     (snd (aux_order DEV1 CL1 DEFAULT_FEE DEFAULT_WCD three_devices)))"

lemma one_order_steps:
  "ok (aux_order DEV1 CL1 DEFAULT_FEE DEFAULT_WCD three_devices)"
  "ok (aux_order DEV2 CL2 DEFAULT_FEE DEFAULT_WCD
     (snd (aux_order DEV1 CL1 DEFAULT_FEE DEFAULT_WCD three_devices)))"
  "aux_free_balance CL3 (snd (aux_order DEV1 CL1 DEFAULT_FEE DEFAULT_WCD three_devices)) = 0"
  "aux_free_balance CL2 (snd (aux_order DEV1 CL1 DEFAULT_FEE DEFAULT_WCD three_devices)) = 100000000"
  "aux_order DEV2 CL3 DEFAULT_FEE DEFAULT_WCD
      (snd (aux_order DEV1 CL1 DEFAULT_FEE DEFAULT_WCD three_devices)) =
    (Inl (Pallet DeviceLowBail), snd (aux_order DEV1 CL1 DEFAULT_FEE DEFAULT_WCD three_devices))"
  by (simp_all add: three_devices_simps test_helpers test_calls test_consts)

lemma two_orders_left_simps:
  "h_now two_orders_left = 0" "s_orders two_orders_left 102 = None"
  "s_devices two_orders_left 102 = s_devices three_devices 102"
  "h_currency two_orders_left 102 = None" "h_currency two_orders_left 1 = funds 100000000 0"
  "h_currency two_orders_left 201 = funds 99900000 100000"
  by (simp_all add: two_orders_left_def three_devices_simps test_helpers test_calls test_consts)

lemma third_order_steps:
  "aux_order DEV3 CL2 DEFAULT_FEE DEFAULT_WCD two_orders_left =
    (Inl (Foreign ''InsufficientBalance''), two_orders_left)"
  "ok (aux_order DEV3 CL2 DEFAULT_FEE DEFAULT_WCD
     (force_transfer (account 1) (account DEV3) (unat PENALTY) two_orders_left))"
  by (simp_all add: two_orders_left_simps three_devices_simps force_transfer_def test_helpers
      test_calls test_consts)

lemma test_order_without_collateral: order_without_collateral
proof -
  have dev: "fst (aux_register_device DEV1 True s) \<noteq> None" if "s_orders s 100 = None" for s
    using that by (simp add: test_helpers test_calls test_consts)
  have dev2: "fst (aux_register_device DEV2 True s) \<noteq> None" if "s_orders s 101 = None" for s
    using that by (simp add: test_helpers test_calls test_consts)
  have dev3: "fst (aux_register_device DEV3 True s) \<noteq> None" if "s_orders s 102 = None" for s
    using that by (simp add: test_helpers test_calls test_consts)
  have orders: "s_orders (snd (aux_register_device i True s)) = s_orders s" for i s
    by (simp add: aux_register_device_def register_svc_def Test_def signed_def signed_by_def
        storage_svc_defs)
  have fresh: "aux_free_balance DEV1 (snd (aux_register_device DEV1 True new_test_ext)) = 100000000"
    "aux_free_balance DEV3 three_devices = 0"
    by (simp_all add: three_devices_simps test_helpers test_calls test_consts)
  note final = third_order_steps [unfolded two_orders_left_def three_devices_def]
    one_order_steps [unfolded three_devices_def] fresh [unfolded three_devices_def]
  show ?thesis
    unfolding order_without_collateral_def case_prod_beta Let_def
    by (simp add: final dev dev2 dev3 orders fails_def) (simp add: test_consts)
qed

text \<open>
  The unit tests of the service pallet hold on the model: registration, switching a
  device on, refused and accepted orders, missing funds on either side, rejection, the full circle
  with its balances, cancellation, late acceptance and late completion, registering again, and an
  abandoned device.
\<close>

theorem service_unit_tests_hold:
  "register_device \<and> register_device_then_on \<and> order_when_off \<and> order_when_busy \<and>
   order_rush \<and> order_without_collateral \<and> order_reject \<and> full_circle \<and>
   order_cancel \<and> order_try_accept_foreign \<and> order_hasty_cancel \<and> delay_accept \<and>
   delay_confirm \<and> device_off_after_confirm \<and> device_reregister \<and> order_abandoned"
  by (simp add: test_register_device test_register_device_then_on test_order_when_off test_order_when_busy test_order_rush test_order_without_collateral test_order_reject test_full_circle test_order_cancel test_order_try_accept_foreign test_order_hasty_cancel test_delay_accept test_delay_confirm test_device_off_after_confirm test_device_reregister test_order_abandoned)

end
