(* ===== verification/Mocks.thy ===== *)
theory Mocks
  imports Scenarios RuntimeConfig
begin

text \<open>
  The mock runtimes of the two pallets (\<^verbatim>\<open>pallets/service/src/mock.rs\<close>, \<^verbatim>\<open>pallets/client/src/mock.rs\<close>):
  their configuration in the records of theory \<open>RuntimeConfig\<close>, and a comparison with the runtime.
  The accounts, the genesis and the pallet configuration that the tests run on are in \<open>Scenarios\<close>.
  Both mocks are written for an older version of the libraries: where they implement a trait that
  the runtime implements too, they give other associated types, so they cannot be compiled against
  the version the runtime is built with.
\<close>

section \<open>The mock runtime of the service pallet\<close>

text \<open>
  What the runtime calls \<^verbatim>\<open>XcmpMessageHandlers\<close> and \<^verbatim>\<open>XcmpMessageSender\<close> the mocks call
  \<^verbatim>\<open>HrmpMessageHandlers\<close> and \<^verbatim>\<open>HrmpMessageSender\<close>; the records have one field for both.
\<close>

definition service_mock_millisecs_per_block :: moment where
  "service_mock_millisecs_per_block = 12000"

definition service_mock_slot_duration :: moment where
  "service_mock_slot_duration = service_mock_millisecs_per_block"

definition service_mock_rococo_location :: location where
  "service_mock_rococo_location = ParentLocation"

definition service_mock_rococo_network :: network_id where
  "service_mock_rococo_network = Polkadot"

definition service_mock_relay_chain_origin :: native_origin where
  "service_mock_relay_chain_origin = RelayOrigin"

definition service_mock_ancestry :: location where
  "service_mock_ancestry = ParachainLocation 999"

definition service_mock_self_para_id :: para_id where
  "service_mock_self_para_id = 999"

definition service_mock_location_converter :: "account_converter list" where
  "service_mock_location_converter = 
    [ParentIsDefault, SiblingParachainConvertsVia, AccountId32Aliases service_mock_rococo_network]"

definition service_mock_origin_converter :: "origin_converter list" where
  "service_mock_origin_converter = 
    [SovereignSignedViaLocation service_mock_location_converter,
     RelayChainAsNative service_mock_relay_chain_origin,
     SiblingParachainAsNative XcmHandler, SignedAccountId32AsNative service_mock_rococo_network]"

definition service_mock_asset_transactor :: asset_transactor where
  "service_mock_asset_transactor = 
    \<lparr>transactor_currency = Balances, transactor_asset = service_mock_rococo_location,
     transactor_accounts = service_mock_location_converter\<rparr>"

definition service_mock_xcm :: xcm_config where
  "service_mock_xcm = 
    \<lparr>xcm_sender = XcmHandler, xcm_asset_transactor = service_mock_asset_transactor,
     xcm_origin_converter = service_mock_origin_converter, is_reserve = [NativeAsset],
     is_teleporter = [], location_inverter = service_mock_ancestry\<rparr>"

definition service_mock_xcm_handler :: xcm_handler_config where
  "service_mock_xcm_handler = 
    \<lparr>handler_executor = service_mock_xcm, upward_message_sender = ParachainSystem,
     xcmp_message_sender = ParachainSystem, send_xcm_origin = EnsureRoot,
     account_id_converter = service_mock_location_converter\<rparr>"

definition service_mock_parachain_system :: parachain_system_config where
  "service_mock_parachain_system = 
    \<lparr>on_validation_data = [], self_para_id_source = ConstantId service_mock_self_para_id,
     downward_message_handlers = [], xcmp_handler = XcmHandler\<rparr>"

definition service_mock_construct :: "pallet_name list" where
  "service_mock_construct = 
    [System, Balances, XcmHandler, ParachainSystem, Timestamp, ServiceModule]"

definition service_mock_existential_deposit :: balance where
  "service_mock_existential_deposit = 500"

definition service_mock_max_locks :: "32 word" where
  "service_mock_max_locks = 50"

definition service_mock_balances :: balances_config where
  "service_mock_balances = 
    \<lparr>balances_max_locks = service_mock_max_locks, balance_bits = 128, dust_removal = [],
     balances_existential_deposit = service_mock_existential_deposit, account_store = System,
     balances_weights = UnitWeight\<rparr>"

definition service_mock_block_hash_count :: "64 word" where
  "service_mock_block_hash_count = 250"

definition service_mock_ss58_prefix :: byte where
  "service_mock_ss58_prefix = 42"

definition service_mock_system :: system_config where
  "service_mock_system = 
    \<lparr>base_call_filter = [], system_block_weights = None, system_block_length = None,
     system_lookup = IdentityLookup, index_bits = 64, block_number_bits = 64, hash_bits = 256,
     system_hashing = BlakeTwo256, header_hashing = BlakeTwo256,
     block_hash_count_config = unat service_mock_block_hash_count, db_weight = None, system_version = None,
     on_new_account = [], on_killed_account = [], account_balance_bits = 128,
     system_ss58_prefix = service_mock_ss58_prefix, on_set_code = None\<rparr>"

definition service_mock_minimum_period :: moment where
  "service_mock_minimum_period = service_mock_slot_duration div 2"

definition service_mock_timestamp :: timestamp_config where
  "service_mock_timestamp = 
    \<lparr>moment_bits = 64, on_timestamp_set = [], timestamp_minimum_period = service_mock_minimum_period,
     timestamp_weights = UnitWeight\<rparr>"

section \<open>The mock runtime of the client pallet\<close>

definition client_mock_rococo_location :: location where
  "client_mock_rococo_location = ParentLocation"

definition client_mock_rococo_network :: network_id where
  "client_mock_rococo_network = Polkadot"

definition client_mock_relay_chain_origin :: native_origin where
  "client_mock_relay_chain_origin = RelayOrigin"

definition client_mock_ancestry :: location where
  "client_mock_ancestry = ParachainLocation 999"

definition client_mock_self_para_id :: para_id where
  "client_mock_self_para_id = 999"

definition client_mock_location_converter :: "account_converter list" where
  "client_mock_location_converter = 
    [ParentIsDefault, SiblingParachainConvertsVia, AccountId32Aliases client_mock_rococo_network]"

definition client_mock_origin_converter :: "origin_converter list" where
  "client_mock_origin_converter = 
    [SovereignSignedViaLocation client_mock_location_converter,
     RelayChainAsNative client_mock_relay_chain_origin,
     SiblingParachainAsNative XcmHandler, SignedAccountId32AsNative client_mock_rococo_network]"

definition client_mock_asset_transactor :: asset_transactor where
  "client_mock_asset_transactor = 
    \<lparr>transactor_currency = Balances, transactor_asset = client_mock_rococo_location,
     transactor_accounts = client_mock_location_converter\<rparr>"

definition client_mock_xcm :: xcm_config where
  "client_mock_xcm = 
    \<lparr>xcm_sender = XcmHandler, xcm_asset_transactor = client_mock_asset_transactor,
     xcm_origin_converter = client_mock_origin_converter, is_reserve = [NativeAsset],
     is_teleporter = [], location_inverter = client_mock_ancestry\<rparr>"

definition client_mock_xcm_handler :: xcm_handler_config where
  "client_mock_xcm_handler = 
    \<lparr>handler_executor = client_mock_xcm, upward_message_sender = ParachainSystem,
     xcmp_message_sender = ParachainSystem, send_xcm_origin = EnsureRoot,
     account_id_converter = client_mock_location_converter\<rparr>"

definition client_mock_parachain_system :: parachain_system_config where
  "client_mock_parachain_system = 
    \<lparr>on_validation_data = [], self_para_id_source = ConstantId client_mock_self_para_id,
     downward_message_handlers = [], xcmp_handler = XcmHandler\<rparr>"

text \<open>The last entry, \<^verbatim>\<open>TemplateModule\<close>, is no pallet of this repository.\<close>

datatype mock_pallet = Known pallet_name | TemplateModule

definition client_mock_construct :: "mock_pallet list" where
  "client_mock_construct = 
    [Known System, Known Balances, Known XcmHandler, Known ParachainSystem, TemplateModule]"

definition client_mock_existential_deposit :: balance where
  "client_mock_existential_deposit = 500"

definition client_mock_max_locks :: "32 word" where
  "client_mock_max_locks = 50"

definition client_mock_balances :: balances_config where
  "client_mock_balances = 
    \<lparr>balances_max_locks = client_mock_max_locks, balance_bits = 128, dust_removal = [],
     balances_existential_deposit = client_mock_existential_deposit, account_store = System,
     balances_weights = UnitWeight\<rparr>"

definition client_mock_block_hash_count :: "64 word" where
  "client_mock_block_hash_count = 250"

definition client_mock_ss58_prefix :: byte where
  "client_mock_ss58_prefix = 42"

definition client_mock_system :: system_config where
  "client_mock_system = 
    \<lparr>base_call_filter = [], system_block_weights = None, system_block_length = None,
     system_lookup = IdentityLookup, index_bits = 64, block_number_bits = 64, hash_bits = 256,
     system_hashing = BlakeTwo256, header_hashing = BlakeTwo256,
     block_hash_count_config = unat client_mock_block_hash_count, db_weight = None, system_version = None,
     on_new_account = [], on_killed_account = [], account_balance_bits = 128,
     system_ss58_prefix = client_mock_ss58_prefix, on_set_code = None\<rparr>"

text \<open>The genesis has no balances.\<close>

definition client_mock_ext :: "account_id ledger" where
  "client_mock_ext = Map.empty"

section \<open>Associated types\<close>

text \<open>
  An implementation of a trait gives exactly the associated types the trait declares. None of the
  traits below has a default.
\<close>

definition implements :: "string list \<Rightarrow> string list \<Rightarrow> bool" where
  "implements required given \<longleftrightarrow> list_all (\<lambda>t. t \<in> set given) required \<and>
    list_all (\<lambda>t. t \<in> set required) given \<and> distinct given"

definition service_trait_types :: "string list" where
  "service_trait_types =
    [''Event'', ''Currency'', ''OrderPayload'', ''XcmpMessageSender'', ''SelfParaId'', ''OnReceived'']"

definition client_trait_types :: "string list" where
  "client_trait_types = [''Event'', ''XcmpMessageSender'', ''Currency'', ''OrderPayload'']"

definition runtime_service_types :: "string list" where
  "runtime_service_types =
    [''Event'', ''XcmpMessageSender'', ''OrderPayload'', ''Currency'', ''SelfParaId'', ''OnReceived'']"

definition runtime_client_types :: "string list" where
  "runtime_client_types = [''Event'', ''XcmpMessageSender'', ''OrderPayload'', ''Currency'']"

definition service_mock_types :: "string list" where
  "service_mock_types =
    [''Event'', ''Currency'', ''OrderPayload'', ''XcmSender'', ''SelfParaId'', ''OnReceived'']"

definition client_mock_types :: "string list" where
  "client_mock_types = [''Event'', ''XcmSender'']"

text \<open>The two builds of the runtime implement the traits of the pallets, the two mocks do not.\<close>

lemma mocks_do_not_implement:
  "implements service_trait_types runtime_service_types"
  "implements client_trait_types runtime_client_types"
  "\<not> implements service_trait_types service_mock_types"
  "\<not> implements client_trait_types client_mock_types"
  by (simp_all add: implements_def service_trait_types_def client_trait_types_def
      runtime_service_types_def runtime_client_types_def service_mock_types_def client_mock_types_def)

text \<open>The client mock has a pallet no runtime has, and not the client pallet.\<close>

lemma mock_pallets:
  "Known ClientModule \<notin> set client_mock_construct" and "TemplateModule \<in> set client_mock_construct"
  and "Known p \<in> set client_mock_construct \<Longrightarrow> p \<in> set (construct_runtime b)"
  and "p \<in> set service_mock_construct \<Longrightarrow> p \<in> set (construct_runtime ServiceBuild)"
  by (auto simp: client_mock_construct_def service_mock_construct_def construct_runtime_def)

section \<open>Mock and runtime\<close>

text \<open>
  What the tests rely on is configured as in the runtime: the existential deposit, the clock, and
  that nobody is told of a reaped account.
\<close>

lemma mock_matches_runtime:
  "balances_existential_deposit service_mock_balances = balances_existential_deposit runtime_balances"
  "service_mock_timestamp = runtime_timestamp"
  "on_killed_account service_mock_system = on_killed_account (runtime_system weights rocksdb)"
  "service_mock_xcm = runtime_xcm 999"
  by (simp_all add: service_mock_balances_def runtime_balances_def service_mock_existential_deposit_def
      existential_deposit_def service_mock_timestamp_def runtime_timestamp_def
      service_mock_minimum_period_def minimum_period_def service_mock_slot_duration_def
      service_mock_millisecs_per_block_def slot_duration_def millisecs_per_block_def
      service_mock_system_def runtime_system_def service_mock_xcm_def runtime_xcm_def
      service_mock_asset_transactor_def local_asset_transactor_def service_mock_rococo_location_def
      rococo_location_def service_mock_location_converter_def location_converter_def
      service_mock_rococo_network_def rococo_network_def service_mock_origin_converter_def
      local_origin_converter_def service_mock_relay_chain_origin_def relay_chain_origin_def
      service_mock_ancestry_def ancestry_def)

text \<open>
  In one respect it is not: the mock hands messages of other chains to the XCM handler, so no blob
  can reach the pallet under test, and the pallet is told another parachain id than the system.
\<close>

lemma mock_differs_from_runtime:
  "xcmp_handler service_mock_parachain_system \<noteq> xcmp_handler (runtime_parachain_system b)"
  "self_para_id_source service_mock_parachain_system \<noteq> ConstantId (self_para_id Test)"
  by (simp_all add: service_mock_parachain_system_def runtime_parachain_system_def
      xcmp_message_handlers_def service_mock_self_para_id_def Test_def OwnParamId_def
      split: build.splits)

end
