(* ===== verification/Transfers.thy ===== *)
theory Transfers
  imports ServiceRuleProps ClientRuleProps
begin

text \<open>
  Which transfers an input of a pallet may cause, as a list of payer, payee and amount read off
  the open orders, and the proof that every input moves funds within this list: no account gains
  more than the list pays to it, and an account that survives loses no more than the list takes
  from it. Reserving and releasing a deposit is no transfer.
\<close>

section \<open>Lists of transfers\<close>

type_synonym 'a transfer = "'a \<times> 'a \<times> balance"

definition holdings :: "('c \<Rightarrow> 'a \<Rightarrow> nat) \<Rightarrow> ('c \<Rightarrow> 'a \<Rightarrow> nat) \<Rightarrow> 'c \<Rightarrow> 'a \<Rightarrow> nat" where
  "holdings free reserved c a = free c a + reserved c a"

definition credited :: "'a transfer list \<Rightarrow> 'a \<Rightarrow> nat" where
  "credited xs x = (\<Sum>(a, b, v)\<leftarrow>xs. if b = x \<and> a \<noteq> x then unat v else 0)"

definition debited :: "'a transfer list \<Rightarrow> 'a \<Rightarrow> nat" where
  "debited xs x = (\<Sum>(a, b, v)\<leftarrow>xs. if a = x \<and> b \<noteq> x then unat v else 0)"

lemma credited_simps [simp]:
  "credited [] x = 0" "credited (xs @ ys) x = credited xs x + credited ys x"
  by (simp_all add: credited_def)

lemma debited_simps [simp]:
  "debited [] x = 0" "debited (xs @ ys) x = debited xs x + debited ys x"
  by (simp_all add: debited_def)

definition moves_within ::
  "('c \<Rightarrow> 'a \<Rightarrow> nat) \<Rightarrow> ('c \<Rightarrow> 'a \<Rightarrow> nat) \<Rightarrow> ('c \<Rightarrow> 'a \<Rightarrow> bool) \<Rightarrow> 'a transfer list \<Rightarrow> 'c \<Rightarrow> 'c \<Rightarrow> bool"
  where
  "moves_within free reserved alive xs c c' \<longleftrightarrow>
    (\<forall>x. holdings free reserved c' x \<le> holdings free reserved c x + credited xs x \<and>
      (alive c' x \<longrightarrow> alive c x \<and>
        holdings free reserved c x \<le> holdings free reserved c' x + debited xs x))"

lemma within_refl [simp, intro]: "moves_within free reserved alive xs c c"
  by (simp add: moves_within_def)

lemma within_trans:
  assumes "moves_within free reserved alive xs c c1" and "moves_within free reserved alive ys c1 c2"
  shows "moves_within free reserved alive (xs @ ys) c c2"
  unfolding moves_within_def
proof (intro allI conjI impI)
  fix x
  have step: "holdings free reserved c1 x \<le> holdings free reserved c x + credited xs x"
    "holdings free reserved c2 x \<le> holdings free reserved c1 x + credited ys x"
    "alive c1 x \<longrightarrow> alive c x \<and>
      holdings free reserved c x \<le> holdings free reserved c1 x + debited xs x"
    "alive c2 x \<longrightarrow> alive c1 x \<and>
      holdings free reserved c1 x \<le> holdings free reserved c2 x + debited ys x"
    using assms unfolding moves_within_def by blast+
  then show "holdings free reserved c2 x \<le> holdings free reserved c x + credited (xs @ ys) x" by simp
  assume "alive c2 x"
  with step show "alive c x"
    and "holdings free reserved c x \<le> holdings free reserved c2 x + debited (xs @ ys) x" by simp_all
qed

lemma within_more:
  "moves_within free reserved alive xs c c' \<Longrightarrow> moves_within free reserved alive (xs @ ys) c c'"
  using within_trans [OF _ within_refl] .

section \<open>The calls of the currency\<close>

context currency
begin

lemma reserve_within:
  "reserve cur a v c = (r, c') \<Longrightarrow> moves_within free reserved alive [] c c'"
  by (cases r) (auto simp: moves_within_def holdings_def dest: reserve_ok reserve_err)

lemma unreserve_within:
  "moves_within free reserved alive [] c (snd (unreserve cur a v c))"
  by (simp add: moves_within_def holdings_def unreserve_effect)

lemma repatriate_within:
  assumes "repatriate_reserved cur a b v Free c = (r, c')"
  shows "moves_within free reserved alive [(a, b, v)] c c'"
proof (cases r)
  case (Inl e)
  with assms repatriate_err [of a b v c e c'] show ?thesis by auto
next
  case (Inr rest)
  define m where "m = min (unat v) (reserved c a)"
  note op = assms [unfolded Inr]
  show ?thesis
  proof (cases "m = 0 \<or> a = b \<or> ed \<le> free c a + reserved c a - m")
    case True
    from repatriate_keeps [OF op m_def True] show ?thesis
      by (auto simp: moves_within_def holdings_def credited_def debited_def m_def)
  next
    case False
    then have "m \<noteq> 0" "a \<noteq> b" "free c a + reserved c a - m < ed" by simp_all
    from repatriate_reaps [OF op m_def this] \<open>a \<noteq> b\<close> show ?thesis
      by (auto simp: moves_within_def holdings_def credited_def debited_def m_def)
  qed
qed

end

section \<open>The transfers of the service pallet\<close>

text \<open>
  What closing the order of a device may transfer: nothing for an order of another chain; the
  fee to the device when it is completed; the penalty to the client when the deadline has passed.
\<close>

definition fine_svc ::
  "('o, 'a, 'p, 'c, 'q) service_config \<Rightarrow> ('a, 'p, 'c, 'q) service_state \<Rightarrow> 'a \<Rightarrow> 'a transfer list" where
  "fine_svc cfg s d =
    (case (s_orders s d, s_devices s d) of
      (Some od, Some p) \<Rightarrow>
        if o_paraid od = self_para_id cfg \<and> o_until od \<le> h_now s
        then [(d, o_client od, dev_penalty p)] else []
    | _ \<Rightarrow> [])"

definition pay_svc ::
  "('o, 'a, 'p, 'c, 'q) service_config \<Rightarrow> ('a, 'p, 'c, 'q) service_state \<Rightarrow> 'a \<Rightarrow> 'a transfer list" where
  "pay_svc cfg s d =
    (case s_orders s d of
      Some od \<Rightarrow> if o_paraid od = self_para_id cfg then [(o_client od, d, o_fee od)] else []
    | None \<Rightarrow> [])"

definition has_state :: "('a, 'p, 'c, 'q) service_state \<Rightarrow> 'a \<Rightarrow> device_state set \<Rightarrow> bool" where
  "has_state s d sts \<longleftrightarrow> (\<exists>p. s_devices s d = Some p \<and> dev_state p \<in> sts)"

fun transfers_svc ::
  "('o, 'a, 'p, 'c, 'q) service_config \<Rightarrow> ('a, 'p, 'c, 'q) service_state \<Rightarrow>
   ('o, 'a, 'p) service_input \<Rightarrow> 'a transfer list" where
  "transfers_svc cfg s (CallDone origin onoff) =
    (case ensure_signed cfg origin of
      Inr d \<Rightarrow> if has_state s d {Busy2} then pay_svc cfg s d @ fine_svc cfg s d else []
    | Inl _ \<Rightarrow> [])"
| "transfers_svc cfg s (CallAccept origin True onoff) =
    (case ensure_signed cfg origin of
      Inr d \<Rightarrow> if has_state s d {Busy, Busy2} then fine_svc cfg s d else []
    | Inl _ \<Rightarrow> [])"
| "transfers_svc cfg s (CallCancel origin d) =
    (case (ensure_signed cfg origin, s_orders s d) of
      (Inr who, Some od) \<Rightarrow> if o_client od = who then fine_svc cfg s d else []
    | _ \<Rightarrow> [])"
| "transfers_svc cfg s _ = []"

text \<open>A cancellation that touches anything is the one of the client of the order.\<close>

lemma cancel_party:
  assumes "cancel_svc cfg origin d s = (r, t)"
  shows "t = s \<or> (\<exists>od dev. s_orders s d = Some od \<and> s_devices s d = Some dev \<and>
    ensure_signed cfg origin = Inr (o_client od) \<and>
    order_reject_svc cfg (Some od) (h_now s) d dev False s = (r, t))"
  using assms
  by (auto simp: cancel_svc_def try_pure_def Let_def ok_or_def
      split: sum.splits option.splits if_splits)

context service_escrow
begin

lemma reject_within:
  assumes "order_reject_svc cfg (Some od) (h_now s) d dev onoff s = (r, t)"
    and "s_orders s d = Some od" and "s_devices s d = Some p" and "dev_penalty dev = dev_penalty p"
  shows "moves_within free reserved alive (fine_svc cfg s d) (h_currency s) (h_currency t)"
proof (cases "o_paraid od = self_para_id cfg")
  case False
  from reject_remote_currency [OF False assms(1)] False assms(2,3) show ?thesis
    by (simp add: fine_svc_def)
next
  case True
  note released = unreserve_within [of "h_currency s" "o_client od" "o_fee od"]
  from reject_currency [OF assms(1) True] show ?thesis
  proof (elim disjE conjE exE)
    assume "h_now s < o_until od" "h_currency t = snd (unreserve (currency_impl cfg) d (dev_penalty dev)
        (snd (unreserve (currency_impl cfg) (o_client od) (o_fee od) (h_currency s))))"
    with within_trans [OF released unreserve_within] assms(2,3) show ?thesis
      by (simp add: fine_svc_def not_le [symmetric])
  next
    fix r'
    assume "\<not> h_now s < o_until od" "repatriate_reserved (currency_impl cfg) d (o_client od)
        (dev_penalty dev) Free (snd (unreserve (currency_impl cfg) (o_client od) (o_fee od)
          (h_currency s))) = (r', h_currency t)"
    with within_trans [OF released repatriate_within] True assms(2-4) show ?thesis
      by (fastforce simp: fine_svc_def not_less)
  qed
qed

lemma done_within:
  assumes "order_done_svc cfg od (h_now s) d p onoff (remove_order_svc d s) = (r, t)"
    and "s_orders s d = Some od" and "s_devices s d = Some p"
  shows "moves_within free reserved alive (pay_svc cfg s d @ fine_svc cfg s d)
    (h_currency s) (h_currency t)"
proof (cases "o_paraid od = self_para_id cfg")
  case False
  from done_remote_currency [OF False assms(1)] False assms(2,3) show ?thesis
    by (simp add: fine_svc_def pay_svc_def)
next
  case True
  then have pay: "pay_svc cfg s d = [(o_client od, d, o_fee od)]"
    and fine: "fine_svc cfg s d =
      (if o_until od \<le> h_now s then [(d, o_client od, dev_penalty p)] else [])"
    using assms(2,3) by (simp_all add: pay_svc_def fine_svc_def)
  from done_currency [OF assms(1) True] obtain r1 c1 where fee:
    "repatriate_reserved (currency_impl cfg) (o_client od) d (o_fee od) Free (h_currency s) = (r1, c1)"
    and rest: "h_currency t = c1 \<or>
      h_now s < o_until od \<and> h_currency t = snd (unreserve (currency_impl cfg) d (dev_penalty p) c1) \<or>
      \<not> h_now s < o_until od \<and> (\<exists>r2. repatriate_reserved (currency_impl cfg) d (o_client od)
        (dev_penalty p) Free c1 = (r2, h_currency t))"
    by auto
  note paid = repatriate_within [OF fee]
  from rest show ?thesis
  proof (elim disjE conjE exE)
    assume "h_currency t = c1"
    with within_more [OF paid] show ?thesis by (simp only: pay)
  next
    assume "h_now s < o_until od" "h_currency t = snd (unreserve (currency_impl cfg) d (dev_penalty p) c1)"
    with within_trans [OF paid unreserve_within] show ?thesis
      by (simp add: pay fine not_le [symmetric])
  next
    fix r2
    assume "\<not> h_now s < o_until od" "repatriate_reserved (currency_impl cfg) d (o_client od)
        (dev_penalty p) Free c1 = (r2, h_currency t)"
    with within_trans [OF paid repatriate_within] show ?thesis by (simp add: pay fine not_less)
  qed
qed

lemma received_within:
  assumes "order_received_svc cfg od d s = (r, t)"
  shows "moves_within free reserved alive [] (h_currency s) (h_currency t)"
  using received_currency [OF assms] within_trans [OF reserve_within reserve_within]
  by (auto dest: reserve_within)

lemma dispatch_within:
  assumes "dispatch_svc cfg i s = (r, t)"
  shows "moves_within free reserved alive (transfers_svc cfg s i) (h_currency s) (h_currency t)"
proof (cases i)
  case (CallOrder origin ob)
  with assms show ?thesis
    by (auto simp: order_svc_def try_pure_def dest: received_within split: sum.splits)
next
  case (CallCancel origin d)
  with assms have "cancel_svc cfg origin d s = (r, t)" by simp
  from cancel_party [OF this] CallCancel show ?thesis
    by (elim disjE exE conjE) (use reject_within in \<open>simp_all\<close>)
next
  case (CallAccept origin rej onoff)
  with assms have "accept_svc cfg origin rej onoff s = (r, t)" by simp
  from accept_cases [OF this] consider (same) "h_currency t = h_currency s"
    | (reject) d dev where "ensure_signed cfg origin = Inr d" "s_devices s d = Some dev" "rej"
      "dev_state dev \<in> {Busy, Busy2}"
      "order_reject_svc cfg (s_orders s d) (h_now s) d (dev\<lparr>dev_state := state_of_onoff onoff\<rparr>)
        onoff s = (r, t)"
    by fastforce
  then show ?thesis
  proof cases
    case reject
    then have all: "transfers_svc cfg s i = fine_svc cfg s d"
      using CallAccept by (auto simp: has_state_def)
    show ?thesis
    proof (cases "s_orders s d")
      case None
      with reject(5) show ?thesis by (auto simp: order_reject_svc_def)
    next
      case (Some od)
      with reject(5) reject_within [OF _ Some reject(2)] all show ?thesis by simp
    qed
  qed simp
next
  case (CallDone origin onoff)
  with assms have "done_svc cfg origin onoff s = (r, t)" by simp
  from done_cases [OF this] CallDone show ?thesis
    by (elim disjE exE conjE) (use done_within in \<open>simp_all add: has_state_def\<close>)
next
  case (BlobMessage p n b)
  with assms show ?thesis
    by (auto simp: handle_blob_message_svc_def intro: received_within [OF prod.collapse [symmetric]]
        split: option.splits xcmp_message.splits)
qed (use assms other_inputs_keep [OF _ assms] in auto)

end

section \<open>The transfers of the client pallet\<close>

text \<open>
  On the client chain the reports of the service chain decide. A report names an account, and
  the pallet takes the fee from the account named; the penalty of a rejected or cancelled order
  goes to the client of the order, that of a completed one to the account named.
\<close>

definition fine_cli ::
  "('a, 'p, 'c, 'q) client_state \<Rightarrow> 'a \<Rightarrow> ('a, 'p) order \<Rightarrow> device_profile_cli \<Rightarrow> 'a \<Rightarrow> 'a transfer list"
  where
  "fine_cli s d od p who = (if o_until od \<le> h_now s then [(d, who, dvc_penalty p)] else [])"

fun transfers_of_report ::
  "('a, 'p, 'c, 'q) client_state \<Rightarrow> ('a, 'p) xcmp_message \<Rightarrow> 'a transfer list" where
  "transfers_of_report s (OrderDone who d onoff) =
    (case (c_orders s d, c_devices s d) of
      (Some od, Some p) \<Rightarrow> (who, d, o_fee od) # fine_cli s d od p who
    | _ \<Rightarrow> [])"
| "transfers_of_report s (OrderReject who d onoff) =
    (case (c_orders s d, c_devices s d) of
      (Some od, Some p) \<Rightarrow> fine_cli s d od p (o_client od)
    | _ \<Rightarrow> [])"
| "transfers_of_report s _ = []"

fun transfers_cli ::
  "('o, 'a, 'p, 'c, 'q) env \<Rightarrow> ('a, 'p, 'c, 'q) client_state \<Rightarrow> ('o, 'a, 'p) client_input \<Rightarrow>
   'a transfer list" where
  "transfers_cli cfg s (CliCancel origin d) =
    (case (ensure_signed cfg origin, c_orders s d, c_devices s d) of
      (Inr who, Some od, Some p) \<Rightarrow> if o_client od = who then fine_cli s d od p who else []
    | _ \<Rightarrow> [])"
| "transfers_cli cfg s (CliBlob p n b) =
    (case decode_with (message_impl cfg) b of
      Some m \<Rightarrow> transfers_of_report s m
    | None \<Rightarrow> [])"
| "transfers_cli cfg s _ = []"

context client_escrow
begin

lemma order_cli_within:
  assumes "order_cli cfg origin ob s = (r, t)"
  shows "moves_within free reserved alive [] (h_currency s) (h_currency t)"
  using order_cli_currency [OF assms] within_trans [OF reserve_within reserve_within]
  by (auto dest: reserve_within)

lemma reject_cli_within:
  assumes "order_reject_cli cfg who od (h_now s) d dev s = (r, t)"
    and "dvc_penalty dev = dvc_penalty p"
  shows "moves_within free reserved alive (fine_cli s d od p (o_client od)) (h_currency s) (h_currency t)"
proof -
  note released = unreserve_within [of "h_currency s" who "o_fee od"]
  from reject_cli_currency [OF assms(1)] show ?thesis
  proof (elim disjE conjE exE)
    assume "h_now s < o_until od" "h_currency t = snd (unreserve (currency_impl cfg) d (dvc_penalty dev)
        (snd (unreserve (currency_impl cfg) who (o_fee od) (h_currency s))))"
    with within_trans [OF released unreserve_within] show ?thesis
      by (simp add: fine_cli_def not_le [symmetric])
  next
    fix r'
    assume "\<not> h_now s < o_until od" "repatriate_reserved (currency_impl cfg) d (o_client od)
        (dvc_penalty dev) Free (snd (unreserve (currency_impl cfg) who (o_fee od)
          (h_currency s))) = (r', h_currency t)"
    with within_trans [OF released repatriate_within] assms(2) show ?thesis
      by (fastforce simp: fine_cli_def not_less)
  qed
qed

lemma on_reject_within:
  assumes "on_reject_cli cfg who d onoff s = (r, t)"
  shows "moves_within free reserved alive (transfers_of_report s (OrderReject who d onoff))
    (h_currency s) (h_currency t)"
  using on_reject_cases [OF assms]
proof (elim disjE exE conjE)
  fix od dev
  assume "c_orders s d = Some od" "c_devices s d = Some dev"
    "order_reject_cli cfg who od (h_now s) d (dev\<lparr>dvc_state := state_of_onoff onoff\<rparr>) s = (r, t)"
  with reject_cli_within [OF this(3), of dev] show ?thesis by simp
qed simp

lemma on_done_within:
  assumes "on_done_cli cfg who d onoff s = (r, t)"
  shows "moves_within free reserved alive (transfers_of_report s (OrderDone who d onoff))
    (h_currency s) (h_currency t)"
proof (cases "\<exists>od p. c_orders s d = Some od \<and> c_devices s d = Some p")
  case False
  with assms have "t = s"
    by (auto simp: on_done_cli_def try_pure_def ok_or_def Let_def split: option.splits)
  then show ?thesis by simp
next
  case True
  then obtain od p where od: "c_orders s d = Some od" "c_devices s d = Some p" by blast
  from on_done_currency [OF assms od] obtain r1 c1 where fee:
    "repatriate_reserved (currency_impl cfg) who d (o_fee od) Free (h_currency s) = (r1, c1)"
    and rest: "h_currency t = c1 \<or>
      h_now s < o_until od \<and> h_currency t = snd (unreserve (currency_impl cfg) d (dvc_penalty p) c1) \<or>
      \<not> h_now s < o_until od \<and> (\<exists>r2. repatriate_reserved (currency_impl cfg) d who
        (dvc_penalty p) Free c1 = (r2, h_currency t))"
    by auto
  note paid = repatriate_within [OF fee]
  have all: "transfers_of_report s (OrderDone who d onoff) = [(who, d, o_fee od)] @ fine_cli s d od p who"
    using od by simp
  from rest show ?thesis
  proof (elim disjE conjE exE)
    assume "h_currency t = c1"
    with within_more [OF paid] show ?thesis by (simp only: all)
  next
    assume "h_now s < o_until od" "h_currency t = snd (unreserve (currency_impl cfg) d (dvc_penalty p) c1)"
    with within_trans [OF paid unreserve_within] show ?thesis
      unfolding all by (simp add: fine_cli_def not_le [symmetric])
  next
    fix r2
    assume "\<not> h_now s < o_until od" "repatriate_reserved (currency_impl cfg) d who
        (dvc_penalty p) Free c1 = (r2, h_currency t)"
    with within_trans [OF paid repatriate_within] show ?thesis
      unfolding all by (simp add: fine_cli_def not_less)
  qed
qed

lemma dispatch_cli_within:
  assumes "dispatch_cli cfg i s = (r, t)"
  shows "moves_within free reserved alive (transfers_cli cfg s i) (h_currency s) (h_currency t)"
proof (cases i)
  case (CliOrder origin ob)
  with assms show ?thesis by (auto dest: order_cli_within)
next
  case (CliCancel origin d)
  with assms have "cancel_cli cfg origin d s = (r, t)" by simp
  from cancel_cli_cases [OF this] CliCancel show ?thesis
    by (elim disjE exE conjE) (use reject_cli_within in \<open>simp_all\<close>)
next
  case (CliBlob p n b)
  with assms show ?thesis
    using on_reject_within [OF prod.collapse [symmetric]] on_done_within [OF prod.collapse [symmetric]]
    by (auto simp: handle_blob_message_cli_def on_accept_cli_def storage_cli_defs
        simp del: transfers_of_report.simps(1,2) split: option.splits xcmp_message.splits)
next
  case (CliTest origin)
  with assms show ?thesis
    by (auto simp: test_cli_def send_blob_now_def split: prod.splits sum.splits)
qed (use assms in \<open>auto simp: register_cli_def try_pure_def storage_cli_defs
      on_killed_account_cli_def handle_xcm_message_cli_def Let_def
      split: sum.splits if_splits option.splits\<close>)

end

section \<open>The properties\<close>

text \<open>
  Claim C8. Who can be paid on the service chain, by whom and how much, whatever the input and
  also when it fails half way. A completion reported by a \<open>Busy2\<close> device of its local
  order may move the fee from the client to the device and, at or after the deadline, the penalty
  from the device to the client; a rejection by the busy device and a cancellation by the client
  may move the penalty to the client at or after the deadline; no other input moves anything. No
  account gains more than this list pays to it, no account that stays alive loses more than the
  list takes from it, and no account comes to life.
\<close>

theorem funds_follow_service_contract:
  assumes "currency (currency_impl cfg) free reserved alive ed"
    and "dispatch_svc cfg i s = (r, t)"
  shows "moves_within free reserved alive (transfers_svc cfg s i) (h_currency s) (h_currency t)"
proof -
  have "service_escrow cfg free reserved alive ed" using assms(1) by (simp add: service_escrow_def)
  from service_escrow.dispatch_within [OF this assms(2)] show ?thesis .
qed

text \<open>A late completion, where the list has both transfers, and one by a device not yet accepted.\<close>

theorem funds_follow_service_contract_witness:
  "moves_within ledger_free ledger_reserved ledger_alive [(200, 100, 100000), (100, 200, 10000)]
      (h_currency (sample_state 5000 Busy2 (Some (sample_order 200))))
      (h_currency (snd (done_svc sample_service (Some 100) True
        (sample_state 5000 Busy2 (Some (sample_order 200)))))) \<and>
    moves_within ledger_free ledger_reserved ledger_alive []
      (h_currency (sample_state 5000 Busy (Some (sample_order 200))))
      (h_currency (snd (done_svc sample_service (Some 100) True
        (sample_state 5000 Busy (Some (sample_order 200))))))"
proof -
  have late: "transfers_svc sample_service (sample_state 5000 Busy2 (Some (sample_order 200)))
      (CallDone (Some 100) True) = [(200, 100, 100000), (100, 200, 10000)]"
    and busy: "transfers_svc sample_service (sample_state 5000 Busy (Some (sample_order 200)))
      (CallDone (Some 100) True) = []"
    by (simp_all add: has_state_def pay_svc_def fine_svc_def sample_state_defs signed_by_def)
  note move = funds_follow_service_contract [OF sample_currency, where i = "CallDone (Some 100) True",
      OF prod.collapse [symmetric], unfolded dispatch_svc.simps]
  from move [of "sample_state 5000 Busy2 (Some (sample_order 200))"]
    move [of "sample_state 5000 Busy (Some (sample_order 200))"]
  show ?thesis unfolding late busy by (rule conjI)
qed

text \<open>
  Claim C37. Who can be paid on the client chain, by whom and how much, whatever the input and also
  when it fails half way. The report that an order is done may move the fee from the account it
  names to the device and, at or after the deadline, the penalty from the device to the account
  it names; the report of a rejection and a cancellation by the client may move the penalty to
  the client of the order at or after the deadline; no other input moves anything. No account
  gains more than this list pays to it, no account that stays alive loses more than the list takes
  from it, and no account comes to life.
\<close>

theorem funds_follow_desk_contract:
  assumes "currency (currency_impl cfg) free reserved alive ed"
    and "dispatch_cli cfg i s = (r, t)"
  shows "moves_within free reserved alive (transfers_cli cfg s i) (h_currency s) (h_currency t)"
proof -
  have "client_escrow cfg free reserved alive ed" using assms(1) by (simp add: client_escrow_def)
  from client_escrow.dispatch_cli_within [OF this assms(2)] show ?thesis .
qed

theorem funds_follow_desk_contract_witness:
  "moves_within ledger_free ledger_reserved ledger_alive [(100, 200, 10000)]
      (h_currency (sample_desk 5000 Busy (Some desk_order)))
      (h_currency (snd (cancel_cli sample_env (Some 200) 100 (sample_desk 5000 Busy (Some desk_order)))))"
proof -
  have fine: "transfers_cli sample_env (sample_desk 5000 Busy (Some desk_order)) (CliCancel (Some 200) 100)
      = [(100, 200, 10000)]"
    by (simp add: fine_cli_def desk_defs signed_by_def)
  have step: "dispatch_cli sample_env (CliCancel (Some 200) 100) (sample_desk 5000 Busy (Some desk_order))
      = (fst (cancel_cli sample_env (Some 200) 100 (sample_desk 5000 Busy (Some desk_order))),
         snd (cancel_cli sample_env (Some 200) 100 (sample_desk 5000 Busy (Some desk_order))))" by simp
  from funds_follow_desk_contract [OF desk_currency step] show ?thesis unfolding fine .
qed

end
