(* ===== verification/CodecProps.thy ===== *)
theory CodecProps
  imports Network
begin

text \<open>
  The properties of the encoding of the exchanged messages and of the stored order, at the widths
  of the runtime, and of the two bytes that the client pallet sends as a test.
\<close>

section \<open>Messages\<close>

text \<open>
  Claim C27. Every message the pallets send is read back as it was, whatever bytes follow it.
\<close>

theorem message_roundtrip:
  "decode_with (message_codec runtime_prims) (encode_with (message_codec runtime_prims) m @ rest) = Some m"
  by (rule runtime.decode_encode_message)

lemma decode_with_some:
  assumes "decode_with (message_codec runtime_prims) bs = Some m"
  obtains rest where "bs = encode_with (message_codec runtime_prims) m @ rest"
proof -
  from assms obtain rest where "dec (message_codec runtime_prims) bs = Some (m, rest)"
    by (auto simp: decode_with_def)
  from runtime.message.dec_some [OF this] show ?thesis
    by (intro that) (simp add: encode_with_def)
qed

lemma runtime_lengths:
  "length (enc (acct_c runtime_prims) a) = 32" "length (enc (payload_c runtime_prims) p) = 8"
  "length (enc (balance_c runtime_prims) b) = 16" "length (enc (moment_c runtime_prims) t) = 8"
  "length (enc (para_c runtime_prims) n) = 4" "length (enc (bool_c runtime_prims) x) = 1"
  by (simp_all add: runtime_prims_def uint_codec_def bool_codec_def)

fun message_length :: "('a, 'p) xcmp_message \<Rightarrow> nat" where
  "message_length (NewOrder _ _) = 97"
| "message_length (OrderAccept _ _) = 65"
| "message_length (OrderReject _ _ _) = 66"
| "message_length (OrderDone _ _ _) = 66"

lemma length_encode:
  "length (encode_with (message_codec runtime_prims) m) = message_length m"
  by (cases m)
    (simp_all add: encode_with_def message_codec_def enc_order_base_def runtime_lengths)

text \<open>
  The encoding is canonical and its length is fixed by the variant: bytes that decode to
  a message begin with the encoding of that message, and a blob shorter than the variant it
  announces, 97, 65 or 66 bytes, is not read as one.
\<close>

theorem message_canonical:
  assumes "decode_with (message_codec runtime_prims) bs = Some m"
  shows "take (message_length m) bs = encode_with (message_codec runtime_prims) m \<and>
    message_length m \<le> length bs"
proof -
  from assms obtain rest where "bs = encode_with (message_codec runtime_prims) m @ rest"
    by (rule decode_with_some)
  then show ?thesis by (simp add: length_encode)
qed

theorem message_canonical_witness:
  "take 66 (encode_with runtime_messages (OrderDone 200 100 True) @ [7])
    = encode_with runtime_messages (OrderDone 200 100 True)"
  using message_canonical [OF message_roundtrip [of "OrderDone 200 100 True" "[7]"]] by simp

text \<open>
  The blob of the \<^verbatim>\<open>test\<close> call is not a message: the service chain drops it, whatever
  chain sent it, and so does the client chain.
\<close>

theorem test_blob_is_ignored:
  assumes "message_impl cfg = message_codec runtime_prims"
  shows "handle_blob_message_svc (runtime_service cfg para) sender n [0x00, 0x20] s = s \<and>
    handle_blob_message_cli cfg sender n [0x00, 0x20] s' = s'"
proof -
  have "decode_with (message_codec runtime_prims) [0x00, 0x20] = None"
  proof (rule ccontr)
    assume "decode_with (message_codec runtime_prims) [0x00, 0x20] \<noteq> None"
    then obtain m where "decode_with (message_codec runtime_prims) [0x00, 0x20] = Some m" by blast
    then obtain rest where "[0x00, 0x20] = encode_with (message_codec runtime_prims) m @ rest"
      by (rule decode_with_some)
    then have "message_length m \<le> 2"
      using length_encode [of m] by (metis length_append le_add1 length_Cons list.size(3) numeral_2_eq_2)
    then show False by (cases m) simp_all
  qed
  with assms show ?thesis by (simp add: handle_blob_message_svc_def handle_blob_message_cli_def)
qed

theorem test_blob_is_ignored_witness:
  "\<exists>t. test_cli sample_env None (sample_desk 0 Ready None) = (Inr (), t) \<and>
    h_outbox t = [(200, [0x00, 0x20])] \<and>
    handle_blob_message_svc (runtime_service sample_env 200) 100 0 [0x00, 0x20]
      (sample_state 0 Ready None) = sample_state 0 Ready None"
proof -
  have impl: "message_impl sample_env = message_codec runtime_prims" by simp
  show ?thesis
    using test_blob_is_ignored [OF impl, of 200 100 0 "sample_state 0 Ready None"]
    by (simp add: test_cli_def send_blob_now_def queue_send_def sample_desk_def)
qed

section \<open>Stored orders\<close>

text \<open>
  An order a chain writes to its storage is read back with every field, whatever bytes
  follow it, and its stored form takes 68 bytes.
\<close>

theorem stored_order_roundtrip:
  "dec (order_codec runtime_prims) (enc (order_codec runtime_prims) od @ rest) = Some (od, rest) \<and>
    length (enc (order_codec runtime_prims) od) = 68"
  by (simp add: runtime.stored_order.dec_enc)
    (simp add: order_codec_def enc_order_def runtime_lengths)

end
