(* ===== verification/Node.thy ===== *)
theory Node
  imports Prelude
begin

text \<open>
  The crate \<^verbatim>\<open>parachain-collator\<close> as far as it decides anything itself: the chain specifications
  and the genesis they build (\<^verbatim>\<open>node/src/chain_spec.rs\<close>), the command line (\<^verbatim>\<open>node/src/cli.rs\<close>), and
  the choices of \<^verbatim>\<open>node/src/command.rs\<close>: which specification and which parachain id a command
  uses, what it exports, and what it passes to the relay chain node. Key derivation, the WASM
  blob, reading a specification from a file, building a block, compression and hexadecimal output
  are library or build products and parameters; \<^verbatim>\<open>node/src/service.rs\<close> only wires libraries.
\<close>

section \<open>Libraries\<close>

text \<open>What a specification of this chain adds to the format of the library.\<close>

record extensions =
  relay_chain :: string
  ext_para_id :: "32 word"

text \<open>
  \<open>pair_public\<close> makes a key pair from a secret and gives its public key, or the error of the library;
  \<open>into_account\<close> is the account of a public key; \<open>get_extension\<close> looks an extension up by its type.
\<close>

record ('acc, 'blk) node_libs =
  pair_public :: "string \<Rightarrow> string + byte list"
  into_account :: "byte list \<Rightarrow> 'acc"
  get_extension :: "extensions \<Rightarrow> extensions option"
  wasm_binary :: "byte list option"
  hex_debug :: "byte list \<Rightarrow> byte list"
  decompress_blob :: "byte list \<Rightarrow> string + byte list"

section \<open>Chain specifications\<close>

record 'acc genesis_config =
  system_code :: "byte list"
  endowed_balances :: "('acc \<times> balance) list"
  sudo_key :: 'acc
  info_parachain_id :: para_id

datatype chain_type = Development | Local

text \<open>The genesis is built when it is asked for; building it can panic.\<close>

record 'acc chain_spec =
  spec_label :: string
  spec_id :: string
  spec_type :: chain_type
  genesis :: "string + 'acc genesis_config"
  spec_extensions :: extensions

text \<open>\<^verbatim>\<open>try_get\<close> of \<^verbatim>\<open>Extensions\<close>.\<close>

definition try_get :: "('acc, 'blk) node_libs \<Rightarrow> 'acc chain_spec \<Rightarrow> extensions option" where
  "try_get libs spec = get_extension libs (spec_extensions spec)"

text \<open>Deriving a key panics when the library refuses the seed.\<close>

definition get_from_seed :: "('acc, 'blk) node_libs \<Rightarrow> string \<Rightarrow> string + byte list" where
  "get_from_seed libs seed =
    (case pair_public libs (''//'' @ seed) of
      Inl e \<Rightarrow> Inl (''static values are valid; qed: '' @ e)
    | Inr p \<Rightarrow> Inr p)"

definition get_account_id_from_seed :: "('acc, 'blk) node_libs \<Rightarrow> string \<Rightarrow> string + 'acc" where
  "get_account_id_from_seed libs seed =
    (case get_from_seed libs seed of Inl e \<Rightarrow> Inl e | Inr p \<Rightarrow> Inr (into_account libs p))"

fun account_ids_from_seeds :: "('acc, 'blk) node_libs \<Rightarrow> string list \<Rightarrow> string + 'acc list" where
  "account_ids_from_seeds libs [] = Inr []"
| "account_ids_from_seeds libs (seed # seeds) =
    (case get_account_id_from_seed libs seed of
      Inl e \<Rightarrow> Inl e
    | Inr a \<Rightarrow> (case account_ids_from_seeds libs seeds of
        Inl e \<Rightarrow> Inl e
      | Inr as \<Rightarrow> Inr (a # as)))"

definition testnet_genesis ::
  "('acc, 'blk) node_libs \<Rightarrow> 'acc \<Rightarrow> 'acc list \<Rightarrow> para_id \<Rightarrow> string + 'acc genesis_config" where
  "testnet_genesis libs root_key endowed_accounts i =
    (case wasm_binary libs of
      None \<Rightarrow> Inl ''WASM binary was not build, please build it!''
    | Some code \<Rightarrow> Inr
        \<lparr>system_code = code,
         endowed_balances = map (\<lambda>k. (k, 1000000000000000000)) endowed_accounts,
         sudo_key = root_key, info_parachain_id = i\<rparr>)"

text \<open>The arguments of \<^verbatim>\<open>testnet_genesis\<close> are computed first, in the order they are written.\<close>

definition genesis_from_seeds ::
  "('acc, 'blk) node_libs \<Rightarrow> string \<Rightarrow> string list \<Rightarrow> para_id \<Rightarrow> string + 'acc genesis_config" where
  "genesis_from_seeds libs root seeds i =
    (case get_account_id_from_seed libs root of
      Inl e \<Rightarrow> Inl e
    | Inr root_key \<Rightarrow> (case account_ids_from_seeds libs seeds of
        Inl e \<Rightarrow> Inl e
      | Inr endowed \<Rightarrow> testnet_genesis libs root_key endowed i))"

definition development_config :: "('acc, 'blk) node_libs \<Rightarrow> para_id \<Rightarrow> 'acc chain_spec" where
  "development_config libs i =
    \<lparr>spec_label = ''Development'', spec_id = ''dev'', spec_type = Local,
     genesis = genesis_from_seeds libs ''Alice''
       [''Alice'', ''Bob'', ''Alice//stash'', ''Bob//stash''] i,
     spec_extensions = \<lparr>relay_chain = ''rococo-dev'', ext_para_id = i\<rparr>\<rparr>"

definition local_testnet_config :: "('acc, 'blk) node_libs \<Rightarrow> para_id \<Rightarrow> 'acc chain_spec" where
  "local_testnet_config libs i =
    \<lparr>spec_label = ''Local Testnet'', spec_id = ''local_testnet'', spec_type = Local,
     genesis = genesis_from_seeds libs ''Alice''
       [''Alice'', ''Bob'', ''Charlie'', ''Dave'', ''Eve'', ''Ferdie'',
        ''Alice//stash'', ''Bob//stash'', ''Charlie//stash'', ''Dave//stash'', ''Eve//stash'',
        ''Ferdie//stash''] i,
     spec_extensions = \<lparr>relay_chain = ''rococo-local'', ext_para_id = i\<rparr>\<rparr>"

text \<open>\<^verbatim>\<open>load_spec\<close> of \<^verbatim>\<open>command.rs\<close>; \<open>from_file\<close> stands for \<^verbatim>\<open>ChainSpec::from_json_file\<close>.\<close>

definition load_spec ::
  "('acc, 'blk) node_libs \<Rightarrow> (string \<Rightarrow> string + 'acc chain_spec) \<Rightarrow> string \<Rightarrow> para_id \<Rightarrow>
   string + 'acc chain_spec" where
  "load_spec libs from_file i para_id =
    (if i = ''dev'' then Inr (development_config libs para_id)
     else if i = '''' \<or> i = ''local'' then Inr (local_testnet_config libs para_id)
     else from_file i)"

section \<open>The command line\<close>

record export_genesis_state_command =
  egs_output :: "string option"
  egs_parachain_id :: "32 word"
  egs_raw :: bool
  egs_chain :: "string option"

record export_genesis_wasm_command =
  egw_output :: "string option"
  egw_raw :: bool
  egw_decompress :: bool
  egw_chain :: "string option"

text \<open>The command as \<^verbatim>\<open>structopt\<close> fills it when only the defaults apply.\<close>

definition export_genesis_state_defaults :: export_genesis_state_command where
  "export_genesis_state_defaults =
    \<lparr>egs_output = None, egs_parachain_id = 100, egs_raw = False, egs_chain = None\<rparr>"

record cli =
  cli_parachain_id :: "32 word option"
  cli_validator :: bool
  cli_collator :: bool
  cli_relaychain_args :: "string list"

definition unwrap_or :: "'a option \<Rightarrow> 'a \<Rightarrow> 'a" where
  "unwrap_or x d = (case x of None \<Rightarrow> d | Some a \<Rightarrow> a)"

definition cli_load_spec ::
  "('acc, 'blk) node_libs \<Rightarrow> (string \<Rightarrow> string + 'acc chain_spec) \<Rightarrow> cli \<Rightarrow> string \<Rightarrow>
   string + 'acc chain_spec" where
  "cli_load_spec libs from_file c i = load_spec libs from_file i (unwrap_or (cli_parachain_id c) 200)"

section \<open>Exports\<close>

datatype destination = ToFile string "byte list" | ToStdout "byte list"

definition write_output :: "string option \<Rightarrow> byte list \<Rightarrow> destination" where
  "write_output dest buf = (case dest of None \<Rightarrow> ToStdout buf | Some f \<Rightarrow> ToFile f buf)"

definition hex_output :: "('acc, 'blk) node_libs \<Rightarrow> byte list \<Rightarrow> byte list" where
  "hex_output libs bs = [0x30, 0x78] @ hex_debug libs bs"

text \<open>\<open>genesis_header\<close> is the encoded header of the block \<^verbatim>\<open>generate_genesis_block\<close> makes.\<close>

definition export_genesis_state ::
  "('acc, 'blk) node_libs \<Rightarrow> (string \<Rightarrow> string + 'acc chain_spec) \<Rightarrow>
   ('acc chain_spec \<Rightarrow> string + byte list) \<Rightarrow> export_genesis_state_command \<Rightarrow> string + destination" where
  "export_genesis_state libs from_file genesis_header params =
    (case load_spec libs from_file (unwrap_or (egs_chain params) '''') (egs_parachain_id params) of
      Inl e \<Rightarrow> Inl e
    | Inr spec \<Rightarrow>
        (case genesis_header spec of
          Inl e \<Rightarrow> Inl e
        | Inr raw_header \<Rightarrow>
            Inr (write_output (egs_output params)
              (if egs_raw params then raw_header else hex_output libs raw_header))))"

text \<open>\<^verbatim>\<open>extract_genesis_wasm\<close> takes the code out of the genesis storage.\<close>

definition extract_genesis_wasm ::
  "('acc chain_spec \<Rightarrow> string + (string \<Rightarrow> byte list option)) \<Rightarrow> 'acc chain_spec \<Rightarrow> string + byte list"
  where
  "extract_genesis_wasm build_storage spec =
    (case build_storage spec of
      Inl e \<Rightarrow> Inl e
    | Inr storage_top \<Rightarrow> (case storage_top '':code'' of
        None \<Rightarrow> Inl ''Could not find wasm file in genesis state!''
      | Some code \<Rightarrow> Inr code))"

definition export_genesis_wasm ::
  "('acc, 'blk) node_libs \<Rightarrow> (string \<Rightarrow> string + 'acc chain_spec) \<Rightarrow>
   ('acc chain_spec \<Rightarrow> string + (string \<Rightarrow> byte list option)) \<Rightarrow> cli \<Rightarrow>
   export_genesis_wasm_command \<Rightarrow> string + destination" where
  "export_genesis_wasm libs from_file build_storage c params =
    (case cli_load_spec libs from_file c (unwrap_or (egw_chain params) '''') of
      Inl e \<Rightarrow> Inl e
    | Inr spec \<Rightarrow>
        (case extract_genesis_wasm build_storage spec of
          Inl e \<Rightarrow> Inl e
        | Inr raw_wasm_blob \<Rightarrow>
            (case (if egw_decompress params then decompress_blob libs raw_wasm_blob
                   else Inr raw_wasm_blob) of
              Inl e \<Rightarrow> Inl e
            | Inr wasm \<Rightarrow>
                Inr (write_output (egw_output params)
                  (if egw_raw params then wasm else hex_output libs wasm)))))"

section \<open>Running a collator\<close>

text \<open>What the run command settles before it starts the service.\<close>

definition run_para_id :: "cli \<Rightarrow> extensions option \<Rightarrow> para_id" where
  "run_para_id c ext =
    unwrap_or (case cli_parachain_id c of Some i \<Rightarrow> Some i | None \<Rightarrow> map_option ext_para_id ext) 100"

definition run_collator :: "cli \<Rightarrow> bool" where
  "run_collator c \<longleftrightarrow> cli_validator c \<or> cli_collator c"

section \<open>The relay chain's command line\<close>

text \<open>\<open>'base\<close> is the relay chain's own \<^verbatim>\<open>RunCmd\<close>, which the parser of that crate produces.\<close>

record 'base relay_chain_cli =
  rc_base :: 'base
  rc_chain_id :: "string option"
  rc_base_path :: "string option"

definition new_relay_chain_cli ::
  "(string list \<Rightarrow> 'base) \<Rightarrow> extensions option \<Rightarrow> string option \<Rightarrow> string list \<Rightarrow> 'base relay_chain_cli"
  where
  "new_relay_chain_cli from_iter ext base_path args =
    \<lparr>rc_base = from_iter args, rc_chain_id = map_option relay_chain ext,
     rc_base_path = map_option (\<lambda>p. p @ ''/polkadot'') base_path\<rparr>"

definition relay_base_path :: "('base \<Rightarrow> string option) \<Rightarrow> 'base relay_chain_cli \<Rightarrow> string option" where
  "relay_base_path shared_base_path c =
    (case shared_base_path (rc_base c) of Some p \<Rightarrow> Some p | None \<Rightarrow> rc_base_path c)"

definition relay_chain_id ::
  "('base \<Rightarrow> bool \<Rightarrow> string + string) \<Rightarrow> 'base relay_chain_cli \<Rightarrow> bool \<Rightarrow> string + string" where
  "relay_chain_id base_chain_id c is_dev =
    (case base_chain_id (rc_base c) is_dev of
      Inl e \<Rightarrow> Inl e
    | Inr chain_id \<Rightarrow> Inr (if chain_id = '''' then unwrap_or (rc_chain_id c) '''' else chain_id))"

definition p2p_listen_port :: "16 word" where "p2p_listen_port = 30334"
definition rpc_ws_listen_port :: "16 word" where "rpc_ws_listen_port = 9945"
definition rpc_http_listen_port :: "16 word" where "rpc_http_listen_port = 9934"
definition prometheus_listen_port :: "16 word" where "prometheus_listen_port = 9616"

section \<open>What the specifications agree on\<close>

lemma built_in_spec:
  assumes "i \<in> {''dev'', '''', ''local''}" and "cli_load_spec libs from_file c i = Inr spec"
  shows "spec \<in> {development_config libs (unwrap_or (cli_parachain_id c) 200),
    local_testnet_config libs (unwrap_or (cli_parachain_id c) 200)}"
  using assms by (auto simp: cli_load_spec_def load_spec_def)

lemma account_ids_length:
  "account_ids_from_seeds libs seeds = Inr as \<Longrightarrow> length as = length seeds"
  by (induction seeds arbitrary: as) (auto split: sum.splits)

lemma genesis_from_seeds_cases:
  assumes "genesis_from_seeds libs root (root # seeds) i = Inr g"
  shows "info_parachain_id g = i" and "length (endowed_balances g) = Suc (length seeds)"
    and "\<forall>(a, v) \<in> set (endowed_balances g). v = 1000000000000000000"
    and "sudo_key g \<in> fst ` set (endowed_balances g)"
  using assms
  by (auto simp: genesis_from_seeds_def testnet_genesis_def account_ids_length
      split: sum.splits option.splits)

lemma built_in_seeds:
  assumes "spec \<in> {development_config libs i, local_testnet_config libs i}"
  obtains seeds where "genesis spec = genesis_from_seeds libs ''Alice'' (''Alice'' # seeds) i"
    and "length seeds \<le> 11" and "ext_para_id (spec_extensions spec) = i"
  using assms by (fastforce simp: development_config_def local_testnet_config_def)

lemma built_in_genesis:
  assumes "spec \<in> {development_config libs i, local_testnet_config libs i}" and "genesis spec = Inr g"
  shows "ext_para_id (spec_extensions spec) = i" and "info_parachain_id g = i"
    and "\<forall>(a, v) \<in> set (endowed_balances g). v = 1000000000000000000"
    and "length (endowed_balances g) \<le> 12" and "sudo_key g \<in> fst ` set (endowed_balances g)"
proof -
  obtain seeds where gen: "genesis_from_seeds libs ''Alice'' (''Alice'' # seeds) i = Inr g"
    and "length seeds \<le> 11" and "ext_para_id (spec_extensions spec) = i"
    using built_in_seeds [OF assms(1)] assms(2) by metis
  with genesis_from_seeds_cases [OF gen]
  show "ext_para_id (spec_extensions spec) = i" and "info_parachain_id g = i"
    and "\<forall>(a, v) \<in> set (endowed_balances g). v = 1000000000000000000"
    and "length (endowed_balances g) \<le> 12" and "sudo_key g \<in> fst ` set (endowed_balances g)"
    by simp_all
qed

text \<open>When the library accepts every seed and the runtime was built, there is a genesis.\<close>

lemma genesis_exists:
  assumes "\<And>seed. pair_public libs seed = Inr (pub seed)" and "wasm_binary libs = Some code"
  obtains g where "genesis (local_testnet_config libs i) = Inr g" and "info_parachain_id g = i"
proof -
  have "\<exists>as. account_ids_from_seeds libs seeds = Inr as" for seeds
    by (induction seeds) (auto simp: get_account_id_from_seed_def get_from_seed_def assms(1))
  note seeds = this
  have "\<exists>g. genesis_from_seeds libs root seeds i = Inr g \<and> info_parachain_id g = i" for root seeds
    using assms(2) seeds [of seeds]
    by (auto simp: genesis_from_seeds_def testnet_genesis_def get_account_id_from_seed_def
        get_from_seed_def assms(1))
  then show ?thesis using that by (force simp: local_testnet_config_def)
qed

text \<open>
  Claim C38. A collator that runs one of the built-in chains collates for the parachain its genesis
  was built for: the id given on the command line or 200, never the fallback of 100; and in that
  genesis the root key is endowed, and all balances together fit a balance.
\<close>

theorem collator_id_matches_genesis:
  assumes "i \<in> {''dev'', '''', ''local''}" and "cli_load_spec libs from_file c i = Inr spec"
    and "genesis spec = Inr g" and "get_extension libs = Some"
  shows "run_para_id c (try_get libs spec) = info_parachain_id g \<and>
    info_parachain_id g = unwrap_or (cli_parachain_id c) 200 \<and>
    sudo_key g \<in> fst ` set (endowed_balances g) \<and>
    (\<Sum>(a, v)\<leftarrow>endowed_balances g. unat v) < 2 ^ 128"
proof -
  note spec = built_in_spec [OF assms(1,2)]
  note g = built_in_genesis [OF spec assms(3)]
  have "(\<Sum>(a, v)\<leftarrow>endowed_balances g. unat v) \<le> (\<Sum>x\<leftarrow>endowed_balances g. 1000000000000000000)"
    using g(3) by (intro sum_list_mono) (auto split: prod.splits)
  also have "\<dots> \<le> 12 * 1000000000000000000"
    using g(4) by (simp add: sum_list_triv)
  finally have "(\<Sum>(a, v)\<leftarrow>endowed_balances g. unat v) < 2 ^ 128" by simp
  with g assms(4) show ?thesis
    by (cases "cli_parachain_id c") (auto simp: run_para_id_def unwrap_or_def try_get_def)
qed

definition sample_libs :: "(byte list, unit) node_libs" where
  "sample_libs = \<lparr>pair_public = (\<lambda>s. Inr (map of_char s)), into_account = id,
    get_extension = Some, wasm_binary = Some [0], hex_debug = id, decompress_blob = Inr\<rparr>"

definition sample_cli :: cli where
  "sample_cli = \<lparr>cli_parachain_id = None, cli_validator = False, cli_collator = True,
    cli_relaychain_args = []\<rparr>"

theorem collator_id_matches_genesis_witness:
  "run_para_id sample_cli (try_get sample_libs (local_testnet_config sample_libs 200)) = 200"
proof -
  have load: "cli_load_spec sample_libs Inl sample_cli '''' = Inr (local_testnet_config sample_libs 200)"
    by (simp add: cli_load_spec_def load_spec_def sample_cli_def unwrap_or_def)
  obtain g where gen: "genesis (local_testnet_config sample_libs 200) = Inr g"
    by (rule genesis_exists [where libs = sample_libs and i = 200 and pub = "map of_char"
        and code = "[0]"]) (simp_all add: sample_libs_def)
  have "get_extension sample_libs = Some" by (simp add: sample_libs_def)
  from collator_id_matches_genesis [OF _ load gen this] show ?thesis
    by (simp add: sample_cli_def unwrap_or_def)
qed

text \<open>
  With nothing but defaults the exported genesis state is that of another parachain than
  the one the node runs and the exported code belongs to: the state is built for parachain 100,
  everything else for parachain 200.
\<close>

theorem default_export_is_for_another_parachain:
  assumes "\<And>seed. pair_public libs seed = Inr (pub seed)" and "wasm_binary libs = Some code"
    and "get_extension libs = Some" and "cli_parachain_id c = None"
  shows "\<exists>exported running g g'.
    load_spec libs from_file (unwrap_or (egs_chain export_genesis_state_defaults) '''')
      (egs_parachain_id export_genesis_state_defaults) = Inr exported \<and>
    cli_load_spec libs from_file c '''' = Inr running \<and>
    genesis exported = Inr g \<and> genesis running = Inr g' \<and>
    info_parachain_id g = 100 \<and> info_parachain_id g' = 200 \<and>
    run_para_id c (try_get libs running) = 200"
proof -
  obtain g where "genesis (local_testnet_config libs 100) = Inr g" "info_parachain_id g = 100"
    by (rule genesis_exists [OF assms(1,2)])
  moreover obtain g' where "genesis (local_testnet_config libs 200) = Inr g'" "info_parachain_id g' = 200"
    by (rule genesis_exists [OF assms(1,2)])
  moreover have "ext_para_id (spec_extensions (local_testnet_config libs i)) = i" for i
    by (simp add: local_testnet_config_def)
  ultimately show ?thesis
    using assms(3,4)
    by (simp add: export_genesis_state_defaults_def unwrap_or_def load_spec_def cli_load_spec_def
        run_para_id_def try_get_def)
qed

theorem default_export_is_for_another_parachain_witness:
  "\<exists>exported. load_spec sample_libs Inl (unwrap_or (egs_chain export_genesis_state_defaults) '''')
      (egs_parachain_id export_genesis_state_defaults) = Inr exported \<and>
    ext_para_id (spec_extensions exported) = 100"
proof -
  have "wasm_binary sample_libs = Some [0]" "cli_parachain_id sample_cli = None"
    "get_extension sample_libs = Some"
    by (simp_all add: sample_libs_def sample_cli_def)
  from default_export_is_for_another_parachain [OF _ this(1,3,2), of "map of_char" Inl] show ?thesis
    by (auto simp: load_spec_def unwrap_or_def export_genesis_state_defaults_def
        local_testnet_config_def sample_libs_def)
qed

end
