(* ===== verification/RelayCli.thy ===== *)
theory RelayCli
  imports Node
begin

text \<open>
  The configuration of the relay chain node inside the collator (\<^verbatim>\<open>CliConfiguration for
  RelayChainCli\<close>, \<^verbatim>\<open>node/src/command.rs\<close>): every question is passed on to the relay chain's own
  command line, except the base path, which falls back to the collator's, and the chain id, which
  falls back to the one the parachain's specification names. The answers the code passes on
  untouched have one type, \<open>'v\<close>.
\<close>

record 'v cli_configuration =
  shared_params :: 'v
  import_params :: 'v
  network_params :: 'v
  keystore_params :: 'v
  configured_base_path :: "string + string option"
  rpc_http :: "16 word \<Rightarrow> 'v"
  rpc_ipc :: 'v
  rpc_ws :: "16 word \<Rightarrow> 'v"
  prometheus_config :: "16 word \<Rightarrow> 'v"
  configured_chain_id :: "bool \<Rightarrow> string + string"
  configured_role :: "bool \<Rightarrow> 'v"
  transaction_pool :: 'v
  state_cache_child_ratio :: 'v
  rpc_methods :: 'v
  rpc_ws_max_connections :: 'v
  rpc_cors :: "bool \<Rightarrow> 'v"
  telemetry_external_transport :: 'v
  default_heap_pages :: 'v
  force_authoring :: 'v
  disable_grandpa :: 'v
  max_runtime_instances :: 'v
  configured_announce_block :: 'v
  configured_telemetry_endpoints :: "string \<Rightarrow> 'v"

text \<open>
  \<open>shared_base_path\<close> is \<^verbatim>\<open>SharedParams::base_path\<close>, \<open>base_chain_id\<close> the \<^verbatim>\<open>chain_id\<close> of the relay
  chain's command line.
\<close>

definition relay_configuration ::
  "('v \<Rightarrow> string option) \<Rightarrow> 'v cli_configuration relay_chain_cli \<Rightarrow> 'v cli_configuration" where
  "relay_configuration shared_base_path c =
    (let base = rc_base c in
     \<lparr>shared_params = shared_params base,
      import_params = import_params base,
      network_params = network_params base,
      keystore_params = keystore_params base,
      configured_base_path =
        Inr (relay_base_path (\<lambda>base. shared_base_path (shared_params base)) c),
      rpc_http = (\<lambda>default_listen_port. rpc_http base default_listen_port),
      rpc_ipc = rpc_ipc base,
      rpc_ws = (\<lambda>default_listen_port. rpc_ws base default_listen_port),
      prometheus_config = (\<lambda>default_listen_port. prometheus_config base default_listen_port),
      configured_chain_id = (\<lambda>is_dev. relay_chain_id configured_chain_id c is_dev),
      configured_role = (\<lambda>is_dev. configured_role base is_dev),
      transaction_pool = transaction_pool base,
      state_cache_child_ratio = state_cache_child_ratio base,
      rpc_methods = rpc_methods base,
      rpc_ws_max_connections = rpc_ws_max_connections base,
      rpc_cors = (\<lambda>is_dev. rpc_cors base is_dev),
      telemetry_external_transport = telemetry_external_transport base,
      default_heap_pages = default_heap_pages base,
      force_authoring = force_authoring base,
      disable_grandpa = disable_grandpa base,
      max_runtime_instances = max_runtime_instances base,
      configured_announce_block = configured_announce_block base,
      configured_telemetry_endpoints = (\<lambda>spec. configured_telemetry_endpoints base spec)\<rparr>)"

text \<open>\<^verbatim>\<open>init\<close> is never called: the collator's own command line initialises the process.\<close>

definition relay_init :: "string + unit" where
  "relay_init = Inl ''PolkadotCli is never initialized; qed''"

section \<open>The properties\<close>

lemma relay_configuration_base:
  "relay_configuration shared_base_path c = (rc_base c)
    \<lparr>configured_base_path := Inr (case shared_base_path (shared_params (rc_base c)) of
        Some p \<Rightarrow> Some p | None \<Rightarrow> rc_base_path c),
     configured_chain_id := relay_chain_id configured_chain_id c\<rparr>"
  by (simp add: relay_configuration_def relay_base_path_def Let_def)

text \<open>
  The relay chain inside a collator is configured by the arguments after the double dash
  alone, with two defaults taken from the parachain: without \<^verbatim>\<open>--base-path\<close> it stores under
  \<^verbatim>\<open>polkadot\<close> in the collator's directory, and without \<^verbatim>\<open>--chain\<close> it joins the relay chain that the
  built-in specification names, \<^verbatim>\<open>rococo-dev\<close> or \<^verbatim>\<open>rococo-local\<close>, whatever the parachain id.
\<close>

theorem relay_chain_follows_specification:
  fixes from_iter :: "string list \<Rightarrow> 'v cli_configuration"
  assumes "cli_load_spec libs from_file c i = Inr spec" and "i \<in> {''dev'', '''', ''local''}"
    and "configured_chain_id (from_iter args) is_dev = Inr ''''"
    and "shared_base_path (shared_params (from_iter args)) = None"
  shows "let relay = relay_configuration shared_base_path
        (new_relay_chain_cli from_iter (Some (spec_extensions spec)) (Some dir) args)
    in configured_chain_id relay is_dev
        = Inr (if i = ''dev'' then ''rococo-dev'' else ''rococo-local'') \<and>
      configured_base_path relay = Inr (Some (dir @ ''/polkadot'')) \<and>
      relay\<lparr>configured_chain_id := configured_chain_id (from_iter args),
            configured_base_path := configured_base_path (from_iter args)\<rparr> = from_iter args"
proof -
  have "relay_chain (spec_extensions spec) = (if i = ''dev'' then ''rococo-dev'' else ''rococo-local'')"
    using assms(1,2)
    by (auto simp: cli_load_spec_def load_spec_def development_config_def local_testnet_config_def)
  with assms(3,4) show ?thesis
    by (simp add: relay_configuration_base new_relay_chain_cli_def relay_chain_id_def Let_def
        unwrap_or_def)
qed

definition sample_relay :: "string list \<Rightarrow> unit cli_configuration" where
  "sample_relay args = \<lparr>shared_params = (), import_params = (), network_params = (),
    keystore_params = (), configured_base_path = Inr None, rpc_http = (\<lambda>_. ()), rpc_ipc = (),
    rpc_ws = (\<lambda>_. ()), prometheus_config = (\<lambda>_. ()), configured_chain_id = (\<lambda>_. Inr ''''),
    configured_role = (\<lambda>_. ()), transaction_pool = (), state_cache_child_ratio = (),
    rpc_methods = (), rpc_ws_max_connections = (), rpc_cors = (\<lambda>_. ()),
    telemetry_external_transport = (), default_heap_pages = (), force_authoring = (),
    disable_grandpa = (), max_runtime_instances = (), configured_announce_block = (),
    configured_telemetry_endpoints = (\<lambda>_. ())\<rparr>"

theorem relay_chain_follows_specification_witness:
  "configured_chain_id (relay_configuration (\<lambda>_. None)
      (new_relay_chain_cli sample_relay (Some (spec_extensions (local_testnet_config sample_libs 200)))
        (Some ''/data'') [])) False = Inr ''rococo-local''"
proof -
  have load: "cli_load_spec sample_libs Inl sample_cli '''' = Inr (local_testnet_config sample_libs 200)"
    by (simp add: cli_load_spec_def load_spec_def sample_cli_def unwrap_or_def)
  have chain: "configured_chain_id (sample_relay []) False = Inr ''''" by (simp add: sample_relay_def)
  from relay_chain_follows_specification [where from_iter = sample_relay and args = "[]"
      and is_dev = False and shared_base_path = "\<lambda>_. None" and dir = "''/data''", OF load _ chain]
  show ?thesis
    by (simp add: Let_def)
qed

end
