(* ===== verification/NodeRun.thy ===== *)
theory NodeRun
  imports RelayCli NodeService
begin

text \<open>
  The program \<^verbatim>\<open>parachain-collator\<close>: the features its build requires (\<^verbatim>\<open>node/src/main.rs\<close>) and the
  dispatch of its command line (\<^verbatim>\<open>run\<close> of \<^verbatim>\<open>node/src/command.rs\<close>). The commands of the library are
  opaque; the model says what each is given, which components are built for it, what is written,
  and which node is started. A run is its result with the list of what it did.
\<close>

section \<open>Commands\<close>

datatype 'cmd subcommand =
    ExportGenesisState export_genesis_state_command
  | ExportGenesisWasm export_genesis_wasm_command
  | BuildSpec 'cmd
  | CheckBlock 'cmd
  | ExportBlocks 'cmd
  | ExportState 'cmd
  | ImportBlocks 'cmd
  | PurgeChain 'cmd
  | Revert 'cmd

text \<open>What a command of the library is run with.\<close>

datatype 'relay command_input =
    SpecAndNetwork
  | ClientAndImportQueue
  | ClientAndDatabase
  | ClientAndSpec
  | OwnAndRelayConfiguration 'relay
  | ClientAndBackend

datatype ('cmd, 'relay) action =
    Called service_call
  | Ran 'cmd "'relay command_input"
  | Wrote destination

type_synonym ('cmd, 'relay, 'r) run = "(stop, 'r, ('cmd, 'relay) action list) outcome"

text \<open>
  The configuration a runner hands to the command, as far as \<^verbatim>\<open>run\<close> reads it: what the assembly of
  the node reads, the chain specification and the base path.
\<close>

record 'acc run_configuration =
  run_node_configuration :: node_configuration
  run_chain_spec :: "'acc chain_spec"
  run_base_path :: "string option"

record ('acc, 'blk, 'cmd, 'v, 'relay) run_libs =
  node_libs_of :: "('acc, 'blk) node_libs"
  spec_from_file :: "string \<Rightarrow> string + 'acc chain_spec"
  build_storage :: "'acc chain_spec \<Rightarrow> string + (string \<Rightarrow> byte list option)"
  genesis_header :: "'acc chain_spec \<Rightarrow> string + byte list"
  create_runner :: "'cmd option \<Rightarrow> string + 'acc run_configuration"
  run_command :: "'cmd \<Rightarrow> 'relay command_input \<Rightarrow> string + unit"
  write_to :: "destination \<Rightarrow> string option"
  executable_name :: string
  relay_from_iter :: "string list \<Rightarrow> 'v cli_configuration"
  create_configuration :: "'v cli_configuration relay_chain_cli \<Rightarrow> string + 'relay"
  service_fails :: "service_call \<Rightarrow> string option"
  prepare_configuration :: "node_configuration \<Rightarrow> node_configuration"

definition failing :: "string + 'a \<Rightarrow> stop + 'a" where
  "failing r = (case r of Inl e \<Rightarrow> Inl (Failed e) | Inr a \<Rightarrow> Inr a)"

lemma failing_simps [simp]: "failing (Inl e) = Inl (Failed e)" "failing (Inr a) = Inr a"
  by (simp_all add: failing_def)

lemma failing_eq_Inr [simp]: "failing r = Inr a \<longleftrightarrow> r = Inr a"
  by (cases r) simp_all

section \<open>Steps of a run\<close>

definition run_library_command ::
  "('acc, 'blk, 'cmd, 'v, 'relay) run_libs \<Rightarrow> 'cmd \<Rightarrow> 'relay command_input \<Rightarrow>
   ('cmd, 'relay) action list \<Rightarrow> ('cmd, 'relay, unit) run" where
  "run_library_command libs cmd input log =
    (failing (run_command libs cmd input), log @ [Ran cmd input])"

text \<open>The assemblies of the node service, recorded in the log of the run.\<close>

definition in_service ::
  "('r assembly) \<Rightarrow> ('cmd, 'relay) action list \<Rightarrow> ('cmd, 'relay, 'r) run" where
  "in_service a log = (fst a, log @ map Called (snd a))"

definition with_partial ::
  "('acc, 'blk, 'cmd, 'v, 'relay) run_libs \<Rightarrow> 'cmd \<Rightarrow> 'relay command_input \<Rightarrow>
   ('cmd, 'relay) action list \<Rightarrow> ('cmd, 'relay, unit) run" where
  "with_partial libs cmd input log =
    try_pure (failing (create_runner libs (Some cmd))) log (\<lambda>config.
      and_then (in_service (new_partial (service_fails libs) (run_node_configuration config) []) log)
        (\<lambda>_. run_library_command libs cmd input))"

definition write_out ::
  "('acc, 'blk, 'cmd, 'v, 'relay) run_libs \<Rightarrow> string + destination \<Rightarrow>
   ('cmd, 'relay) action list \<Rightarrow> ('cmd, 'relay, unit) run" where
  "write_out libs r log = try_pure (failing r) log (\<lambda>d.
    ((case write_to libs d of None \<Rightarrow> Inr () | Some e \<Rightarrow> Inl (Failed e)), log @ [Wrote d]))"

text \<open>The relay chain's command line and its configuration, as two of the commands need them.\<close>

definition polkadot_cli ::
  "('acc, 'blk, 'cmd, 'v, 'relay) run_libs \<Rightarrow> cli \<Rightarrow> 'acc run_configuration \<Rightarrow>
   'v cli_configuration relay_chain_cli" where
  "polkadot_cli libs c config =
    new_relay_chain_cli (relay_from_iter libs)
      (try_get (node_libs_of libs) (run_chain_spec config)) (run_base_path config)
      (executable_name libs # cli_relaychain_args c)"

definition polkadot_config ::
  "('acc, 'blk, 'cmd, 'v, 'relay) run_libs \<Rightarrow> cli \<Rightarrow> 'acc run_configuration \<Rightarrow> stop + 'relay" where
  "polkadot_config libs c config =
    (case create_configuration libs (polkadot_cli libs c config) of
      Inl err \<Rightarrow> Inl (Failed (''Relay chain argument error: '' @ err))
    | Inr r \<Rightarrow> Inr r)"

section \<open>The dispatch\<close>

definition run_purge_chain ::
  "('acc, 'blk, 'cmd, 'v, 'relay) run_libs \<Rightarrow> cli \<Rightarrow> 'cmd \<Rightarrow>
   ('cmd, 'relay) action list \<Rightarrow> ('cmd, 'relay, unit) run" where
  "run_purge_chain libs c cmd log =
    try_pure (failing (create_runner libs (Some cmd))) log (\<lambda>config.
      try_pure (polkadot_config libs c config) log (\<lambda>relay.
        run_library_command libs cmd (OwnAndRelayConfiguration relay) log))"

definition run_collating_node ::
  "('acc, 'blk, 'cmd, 'v, 'relay) run_libs \<Rightarrow> cli \<Rightarrow>
   ('cmd, 'relay) action list \<Rightarrow> ('cmd, 'relay, unit) run" where
  "run_collating_node libs c log =
    try_pure (failing (create_runner libs None)) log (\<lambda>config.
      let i = run_para_id c (try_get (node_libs_of libs) (run_chain_spec config))
      in try_pure (failing (genesis_header libs (run_chain_spec config))) log (\<lambda>block.
         try_pure (polkadot_config libs c config) log (\<lambda>relay.
           in_service (start_node (service_fails libs) (prepare_configuration libs)
             (run_node_configuration config) i (run_collator c) []) log)))"

fun run_node_program ::
  "('acc, 'blk, 'cmd, 'v, 'relay) run_libs \<Rightarrow> cli \<Rightarrow> 'cmd subcommand option \<Rightarrow>
   ('cmd, 'relay) action list \<Rightarrow> ('cmd, 'relay, unit) run" where
  "run_node_program libs c (Some (BuildSpec cmd)) log =
    try_pure (failing (create_runner libs (Some cmd))) log (\<lambda>config.
      run_library_command libs cmd SpecAndNetwork log)"
| "run_node_program libs c (Some (CheckBlock cmd)) log =
    with_partial libs cmd ClientAndImportQueue log"
| "run_node_program libs c (Some (ExportBlocks cmd)) log =
    with_partial libs cmd ClientAndDatabase log"
| "run_node_program libs c (Some (ExportState cmd)) log =
    with_partial libs cmd ClientAndSpec log"
| "run_node_program libs c (Some (ImportBlocks cmd)) log =
    with_partial libs cmd ClientAndImportQueue log"
| "run_node_program libs c (Some (PurgeChain cmd)) log = run_purge_chain libs c cmd log"
| "run_node_program libs c (Some (Revert cmd)) log =
    with_partial libs cmd ClientAndBackend log"
| "run_node_program libs c (Some (ExportGenesisState params)) log =
    write_out libs (export_genesis_state (node_libs_of libs) (spec_from_file libs)
      (genesis_header libs) params) log"
| "run_node_program libs c (Some (ExportGenesisWasm params)) log =
    write_out libs (export_genesis_wasm (node_libs_of libs) (spec_from_file libs)
      (build_storage libs) c params) log"
| "run_node_program libs c None log = run_collating_node libs c log"

text \<open>\<^verbatim>\<open>main\<close>: a build with both pallets or with neither does not compile.\<close>

definition node_builds :: "bool \<Rightarrow> bool \<Rightarrow> bool" where
  "node_builds service client \<longleftrightarrow> \<not> (service \<and> client) \<and> (service \<or> client)"

definition main_node ::
  "('acc, 'blk, 'cmd, 'v, 'relay) run_libs \<Rightarrow> cli \<Rightarrow> 'cmd subcommand option \<Rightarrow>
   ('cmd, 'relay, unit) run" where
  "main_node libs c sub = run_node_program libs c sub []"

section \<open>The properties\<close>

lemma partial_calls_quiet:
  "StartNetwork \<notin> set (partial_calls config)" "StartCollator i \<notin> set (partial_calls config)"
  "StartFullNode i \<notin> set (partial_calls config)"
  by (auto simp: partial_calls_def)

lemma new_partial_calls:
  "new_partial fails config [] = (r, calls) \<Longrightarrow> set calls \<subseteq> set (partial_calls config)"
  by (auto simp: new_partial_performs and_then_def dest!: perform_log dest: in_set_takeD
      split: prod.splits sum.splits)

text \<open>What each kind of command can have in its log.\<close>

lemma library_command_log:
  "run_library_command libs cmd input log = (r, log') \<Longrightarrow> log' = log @ [Ran cmd input]"
  by (simp add: run_library_command_def)

lemma with_partial_log:
  assumes "with_partial libs cmd input [] = (r, log)" and "Called x \<in> set log"
  shows "\<exists>config. x \<in> set (partial_calls config)"
proof (cases "create_runner libs (Some cmd)")
  case (Inl e)
  with assms show ?thesis by (auto simp: with_partial_def)
next
  case (Inr config)
  obtain q calls where part: "new_partial (service_fails libs) (run_node_configuration config) []
      = (q, calls)" by fastforce
  from assms Inr part have "x \<in> set calls"
    by (cases q) (auto simp: with_partial_def in_service_def run_library_command_def)
  with new_partial_calls [OF part] show ?thesis by blast
qed

lemma collating_node_log:
  assumes "run_collating_node libs c [] = (r, log)"
  shows "log = [] \<and> r \<noteq> Inr () \<or> (\<exists>config. create_runner libs None = Inr config \<and>
    (let node = start_node (service_fails libs) (prepare_configuration libs)
       (run_node_configuration config) (run_para_id c (try_get (node_libs_of libs) (run_chain_spec config))) (run_collator c) []
     in r = fst node \<and> log = map Called (snd node)))"
  using assms
  by (auto simp: run_collating_node_def try_pure_def Let_def in_service_def failing_def
      split: sum.splits)

lemma no_node_started:
  assumes "main_node libs c (Some sub) = (r, log)"
  shows "Called StartNetwork \<notin> set log \<and> (\<forall>i. Called (StartCollator i) \<notin> set log \<and>
    Called (StartFullNode i) \<notin> set log)"
proof -
  have partial: "Called StartNetwork \<notin> set l \<and> (\<forall>i. Called (StartCollator i) \<notin> set l \<and>
      Called (StartFullNode i) \<notin> set l)" if "with_partial libs cmd input [] = (q, l)" for cmd input q l
    using with_partial_log [OF that] partial_calls_quiet by blast
  show ?thesis
    using assms partial
    by (cases sub)
      (auto simp: main_node_def run_purge_chain_def run_library_command_def write_out_def try_pure_def
        split: sum.splits)
qed

lemma collating_node_succeeds:
  assumes "run_collating_node libs c [] = (r, log)" and "create_runner libs None = Inr config"
    and "genesis_header libs (run_chain_spec config) = Inr block"
    and "polkadot_config libs c config = Inr relay" and "\<not> is_light (run_node_configuration config)"
    and "\<And>x. service_fails libs x = None"
  shows "r = Inr ()"
proof -
  obtain q calls where node: "start_node (service_fails libs) (prepare_configuration libs)
      (run_node_configuration config) (run_para_id c (try_get (node_libs_of libs) (run_chain_spec config)))
      (run_collator c) [] = (q, calls)" by fastforce
  from network_starts_last [OF node] assms(5,6) have "q = Inr ()" by (cases q) auto
  with assms(1-4) node show ?thesis
    by (auto simp: run_collating_node_def in_service_def failing_def)
qed

text \<open>
  Claim C39. Only the plain command runs a node, and it does run one. No subcommand starts a
  collator, a full node or the network. When the plain command ends well it has started a collator
  if \<^verbatim>\<open>--validator\<close> or \<^verbatim>\<open>--collator\<close> is given and
  a full node otherwise, never the other kind, for the parachain of the command line, of the
  specification, or 100, in this order, and then, as its last call, the network; when it ends with
  an error the network was not started. It does end well when the runner, the genesis header and
  the relay chain configuration can be built, the configuration is not that of a light client and
  no call to the node libraries fails.
\<close>

theorem only_plain_run_starts_node:
  assumes "main_node libs c sub = (r, log)"
  defines "i_of \<equiv> \<lambda>config. run_para_id c (try_get (node_libs_of libs) (run_chain_spec config))"
  shows "(\<forall>i. Called (StartCollator i) \<in> set log \<or> Called (StartFullNode i) \<in> set log \<longrightarrow>
      sub = None \<and> (Called (StartCollator i) \<in> set log \<longleftrightarrow> run_collator c) \<and>
      (Called (StartFullNode i) \<in> set log \<longleftrightarrow> \<not> run_collator c) \<and>
      (\<exists>config. create_runner libs None = Inr config \<and> i = i_of config)) \<and>
    (Called StartNetwork \<in> set log \<longleftrightarrow> sub = None \<and> r = Inr ()) \<and>
    (sub = None \<and> r = Inr () \<longrightarrow> log \<noteq> [] \<and> last log = Called StartNetwork \<and>
      (\<exists>config. create_runner libs None = Inr config \<and>
        Called (if run_collator c then StartCollator (i_of config) else StartFullNode (i_of config))
          \<in> set log)) \<and>
    (\<forall>config block relay. sub = None \<and> create_runner libs None = Inr config \<and>
      genesis_header libs (run_chain_spec config) = Inr block \<and>
      polkadot_config libs c config = Inr relay \<and> \<not> is_light (run_node_configuration config) \<and>
      (\<forall>x. service_fails libs x = None) \<longrightarrow> r = Inr ())"
proof (cases sub)
  case (Some x)
  with no_node_started assms show ?thesis by blast
next
  case None
  with assms have run: "run_collating_node libs c [] = (r, log)" by (simp add: main_node_def)
  from collating_node_log [OF this] show ?thesis
  proof (elim disjE exE conjE)
    fix config
    assume config: "create_runner libs None = Inr config"
      and run: "let node = start_node (service_fails libs) (prepare_configuration libs)
        (run_node_configuration config) (run_para_id c (try_get (node_libs_of libs) (run_chain_spec config))) (run_collator c) []
        in r = fst node \<and> log = map Called (snd node)"
    obtain q calls where node: "start_node (service_fails libs) (prepare_configuration libs)
        (run_node_configuration config) (i_of config) (run_collator c) [] = (q, calls)" by fastforce
    with run have "q = r" and log: "log = map Called calls" by (simp_all add: i_of_def)
    note facts = network_starts_last [OF node]
    have called: "Called x \<in> set log \<longleftrightarrow> x \<in> set calls" for x using log by auto
    have kind: "(StartCollator i \<in> set calls \<longleftrightarrow> run_collator c) \<and>
        (StartFullNode i \<in> set calls \<longleftrightarrow> \<not> run_collator c)"
      if "StartCollator i \<in> set calls \<or> StartFullNode i \<in> set calls" for i
      using facts that by blast
    have last: "log \<noteq> [] \<and> last log = Called StartNetwork" if "r = Inr ()"
      using facts that log \<open>q = r\<close> by (cases calls rule: rev_cases) auto
    have ends: "r = Inr ()" if "\<forall>x. service_fails libs x = None"
        "\<not> is_light (run_node_configuration config)"
      using facts that \<open>q = r\<close> by (cases r) auto
    from facts kind last ends config None \<open>q = r\<close> show ?thesis unfolding called by auto
  next
    assume none: "log = []" "r \<noteq> Inr ()"
    have "\<forall>config block relay. \<not> (create_runner libs None = Inr config \<and>
        genesis_header libs (run_chain_spec config) = Inr block \<and>
        polkadot_config libs c config = Inr relay \<and> \<not> is_light (run_node_configuration config) \<and>
        (\<forall>x. service_fails libs x = None))"
      using collating_node_succeeds [OF run] none(2) by blast
    with none show ?thesis by simp
  qed
qed

definition sample_run_libs :: "(byte list, unit, unit, unit, unit) run_libs" where
  "sample_run_libs =
    \<lparr>node_libs_of = sample_libs, spec_from_file = Inl, build_storage = (\<lambda>_. Inl ''''),
     genesis_header = (\<lambda>_. Inr [1]),
     create_runner = (\<lambda>_. Inr \<lparr>run_node_configuration = sample_configuration,
       run_chain_spec = local_testnet_config sample_libs 200,
       run_base_path = None\<rparr>),
     run_command = (\<lambda>_ _. Inr ()), write_to = (\<lambda>_. None), executable_name = ''collator'',
     relay_from_iter = sample_relay, create_configuration = (\<lambda>_. Inr ()),
     service_fails = (\<lambda>_. None), prepare_configuration = id\<rparr>"

theorem only_plain_run_starts_node_witness:
  "Called (StartCollator 200) \<in> set (snd (main_node sample_run_libs sample_cli None)) \<and>
    run_para_id sample_cli (try_get sample_libs (local_testnet_config sample_libs 200)) = 200"
proof -
  have op: "main_node sample_run_libs sample_cli None
      = (Inr (), snd (main_node sample_run_libs sample_cli None))"
    and in_log: "Called (StartCollator 200) \<in> set (snd (main_node sample_run_libs sample_cli None))"
    by (simp_all add: main_node_def run_collating_node_def sample_run_libs_def polkadot_config_def
        in_service_def start_node_def start_node_impl_def new_partial_def uses_telemetry_def
        sample_configuration_def try_call_def unwrap_call_def do_call_def sample_cli_def
        run_para_id_def run_collator_def unwrap_or_def local_testnet_config_def try_get_def sample_libs_def)
  have "\<exists>config. create_runner sample_run_libs None = Inr config \<and>
      200 = run_para_id sample_cli (try_get (node_libs_of sample_run_libs) (run_chain_spec config))"
    using only_plain_run_starts_node [OF op] in_log by blast
  with in_log show ?thesis by (simp add: sample_run_libs_def)
qed

end
