(* ===== verification/NodeInfo.thy ===== *)
theory NodeInfo
  imports NodeRun RuntimeConfig
begin

text \<open>
  What the two command lines of the collator say about themselves (\<^verbatim>\<open>SubstrateCli\<close> for \<^verbatim>\<open>Cli\<close> and
  \<^verbatim>\<open>RelayChainCli\<close>, \<^verbatim>\<open>node/src/command.rs\<close>) and the executor of the node (\<^verbatim>\<open>node/src/service.rs\<close>). The
  strings the build sets in the environment and the command line of the relay chain's own crate
  are parameters.
\<close>

section \<open>The command lines\<close>

record build_strings =
  substrate_cli_impl_version :: string
  cargo_pkg_authors :: string

record 'spec cli_info =
  cli_impl_name :: string
  cli_impl_version :: string
  cli_description :: string
  cli_author :: string
  cli_support_url :: string
  cli_copyright_start_year :: int
  cli_native_runtime_version :: "'spec \<Rightarrow> runtime_version"

definition newlines :: string where "newlines = [CHR 0x0A, CHR 0x0A]"

text \<open>\<open>executable\<close> is the name of the program, \<^verbatim>\<open>executable_name()\<close>.\<close>

definition node_cli_info :: "build_strings \<Rightarrow> string \<Rightarrow> 'spec cli_info" where
  "node_cli_info env executable =
    \<lparr>cli_impl_name = ''Parachain Collator Template'',
     cli_impl_version = substrate_cli_impl_version env,
     cli_description =
       ''Parachain Collator Template'' @ newlines @
       ''The command-line arguments provided first will be '' @
       ''passed to the parachain node, while the arguments provided after -- will be passed '' @
       ''to the relaychain node.'' @ newlines @
       executable @ '' [parachain-args] -- [relaychain-args]'',
     cli_author = cargo_pkg_authors env,
     cli_support_url =
       ''https://github.com/substrate-developer-hub/substrate-parachain-template/issues/new'',
     cli_copyright_start_year = 2017,
     cli_native_runtime_version = (\<lambda>_. VERSION)\<rparr>"

text \<open>\<open>polkadot_version\<close> is \<^verbatim>\<open>polkadot_cli::Cli::native_runtime_version\<close>.\<close>

definition relay_cli_info :: "build_strings \<Rightarrow> ('spec \<Rightarrow> runtime_version) \<Rightarrow> 'spec cli_info" where
  "relay_cli_info env polkadot_version =
    \<lparr>cli_impl_name = ''Parachain Collator Template'',
     cli_impl_version = substrate_cli_impl_version env,
     cli_description =
       ''Parachain Collator Template'' @ newlines @
       ''The command-line arguments provided first will be '' @
       ''passed to the parachain node, while the arguments provided after -- will be passed '' @
       ''to the relaychain node.'' @ newlines @
       ''rococo-collator [parachain-args] -- [relaychain-args]'',
     cli_author = cargo_pkg_authors env,
     cli_support_url =
       ''https://github.com/substrate-developer-hub/substrate-parachain-template/issues/new'',
     cli_copyright_start_year = 2017,
     cli_native_runtime_version = (\<lambda>chain_spec. polkadot_version chain_spec)\<rparr>"

text \<open>
  The relay chain's specification is found by the relay chain's own command line, which is given the
  name of the program and no argument.
\<close>

definition relay_load_spec ::
  "(string list \<Rightarrow> 'pcli) \<Rightarrow> ('pcli \<Rightarrow> string \<Rightarrow> string + 'spec) \<Rightarrow> string \<Rightarrow> string \<Rightarrow> string + 'spec"
  where
  "relay_load_spec from_iter polkadot_load_spec executable i =
    polkadot_load_spec (from_iter [executable]) i"

section \<open>The executor\<close>

record 's executor =
  dispatch_native :: "api_call \<Rightarrow> 's \<Rightarrow> api_answer \<times> 's"
  executor_version :: "runtime_version \<times> nat set"

definition Executor :: "'s api_libs \<Rightarrow> 's executor" where
  "Executor libs = \<lparr>dispatch_native = runtime_api libs, executor_version = native_version\<rparr>"

text \<open>
  The version the command line reports, the version of the executor, and the version the executed
  runtime answers are the same, whatever the chain; and the two command lines differ only in the
  description, which for the relay chain names a program of another name, and the version.
\<close>

lemma versions_agree:
  "cli_native_runtime_version (node_cli_info env executable) spec = fst (executor_version (Executor libs))"
  "dispatch_native (Executor libs) Core_version s
    = (Version_answer (cli_native_runtime_version (node_cli_info env executable) spec), s)"
  by (simp_all add: node_cli_info_def Executor_def native_version_def)

lemma descriptions_differ:
  "node_cli_info env executable
    = (relay_cli_info env v)\<lparr>cli_description := cli_description (node_cli_info env executable),
        cli_native_runtime_version := (\<lambda>_. VERSION)\<rparr>"
  "cli_description (node_cli_info env ''rococo-collator'') = cli_description (relay_cli_info env v)"
  by (simp_all add: node_cli_info_def relay_cli_info_def)

end
