(* ===== verification/Keytool.thy ===== *)
theory Keytool
  imports Prelude
begin

text \<open>
  The crate \<^verbatim>\<open>keytool\<close> (\<^verbatim>\<open>keytool/src/main.rs\<close>): it prints the accounts a parachain controls, as
  a child of the relay chain and as a sibling of another parachain. What it prints is modelled as
  text; the derivation of the accounts and their address formats are library code and parameters.
\<close>

section \<open>Numbers as text\<close>

fun show_nat :: "nat \<Rightarrow> string" where
  "show_nat n = (if n < 10 then [char_of (48 + n)] else show_nat (n div 10) @ [char_of (48 + n mod 10)])"

declare show_nat.simps [simp del]

definition digit_of :: "char \<Rightarrow> nat option" where
  "digit_of c = (let n = of_char c in if 48 \<le> n \<and> n \<le> 57 then Some (n - 48) else None)"

text \<open>\<^verbatim>\<open>str::parse::<u32>\<close>: an optional plus sign, at least one digit, no overflow.\<close>

fun parse_digits :: "nat \<Rightarrow> string \<Rightarrow> nat option" where
  "parse_digits n [] = Some n"
| "parse_digits n (c # cs) =
    (case digit_of c of
      None \<Rightarrow> None
    | Some d \<Rightarrow> if n * 10 + d < 2 ^ 32 then parse_digits (n * 10 + d) cs else None)"

definition parse_u32 :: "string \<Rightarrow> (32 word) option" where
  "parse_u32 s =
    (let t = (case s of c # cs \<Rightarrow> if c = CHR ''+'' then cs else s | [] \<Rightarrow> [])
     in if t = [] then None else map_option word_of_nat (parse_digits 0 t))"

section \<open>The program\<close>

record 'acc key_type =
  TYPE_ID :: string
  into_account :: "32 word \<Rightarrow> 'acc"

record 'acc account_format =
  to_ss58check :: "'acc \<Rightarrow> string"
  to_hex :: "'acc \<Rightarrow> string"

definition newline :: string where "newline = [char_of (10 :: nat)]"

definition print_paraid :: "'acc account_format \<Rightarrow> 'acc key_type \<Rightarrow> 32 word \<Rightarrow> string" where
  "print_paraid fmt T paraid =
    (let account = into_account T paraid
     in TYPE_ID T @ '' '' @ show_nat (unat paraid) @ newline @
        ''address '' @ to_ss58check fmt account @ newline @
        to_hex fmt account @ newline @ newline)"

text \<open>
  The program returns what it has printed; a panic is an error with its message. The arguments
  begin with the name of the program.
\<close>

definition main_keytool ::
  "'acc account_format \<Rightarrow> 'acc key_type \<Rightarrow> 'acc key_type \<Rightarrow> string list \<Rightarrow>
   (string, unit, string) outcome" where
  "main_keytool fmt child sibling args =
    (let out = ''Parachain address'' @ newline
     in case args of
          [] \<Rightarrow> (Inl ''called `Option::unwrap()` on a `None` value'', out)
        | [program_name] \<Rightarrow>
            (Inr (), out @ concat (map (\<lambda>paraid.
               print_paraid fmt child paraid @ print_paraid fmt sibling paraid) [100, 200, 300]))
        | program_name # arg # rest \<Rightarrow>
            if arg = ''--help'' then (Inr (), out @ program_name @ '' [parachain-id]'' @ newline)
            else (case parse_u32 arg of
                None \<Rightarrow> (Inl ''parachain id'', out)
              | Some paraid \<Rightarrow>
                  (Inr (), out @ print_paraid fmt child paraid @ print_paraid fmt sibling paraid)))"

section \<open>Reading back a number\<close>

lemma digit_of_char: "n < 10 \<Longrightarrow> digit_of (char_of (48 + n)) = Some n"
  by (simp add: digit_of_def)

lemma parse_digits_append:
  "parse_digits n (s @ t) = (case parse_digits n s of None \<Rightarrow> None | Some m \<Rightarrow> parse_digits m t)"
  by (induction s arbitrary: n) (auto split: option.splits)

lemma parse_show_nat: "parse_digits 0 (show_nat n) = (if n < 2 ^ 32 then Some n else None)"
proof (induction n rule: show_nat.induct)
  case (1 n)
  show ?case
  proof (cases "n < 10")
    case True
    then show ?thesis by (subst show_nat.simps) (simp add: digit_of_char)
  next
    case False
    have "n div 10 * 10 + n mod 10 = n" by (rule div_mult_mod_eq)
    with 1 False show ?thesis
      by (subst show_nat.simps) (auto simp: parse_digits_append digit_of_char)
  qed
qed

lemma show_nat_first: "\<exists>c cs. show_nat n = c # cs \<and> c \<noteq> CHR ''+''"
proof (induction n rule: show_nat.induct)
  case (1 n)
  show ?case
  proof (cases "n < 10")
    case True
    have "char_of (48 + n) \<noteq> CHR ''+''"
    proof
      assume "char_of (48 + n) = CHR ''+''"
      then have "of_char (char_of (48 + n) :: char) = (of_char (CHR ''+'') :: nat)" by simp
      then show False using True by simp
    qed
    with True show ?thesis by (subst show_nat.simps) simp
  next
    case False
    with 1 obtain c cs where "show_nat (n div 10) = c # cs" "c \<noteq> CHR ''+''" by blast
    with False show ?thesis by (subst show_nat.simps) simp
  qed
qed

lemma parse_u32_show:
  "parse_u32 (show_nat n) = (if n < 2 ^ 32 then Some (word_of_nat n) else None)"
proof -
  obtain c cs where "show_nat n = c # cs" "c \<noteq> CHR ''+''" using show_nat_first by blast
  with parse_show_nat [of n] show ?thesis by (simp add: parse_u32_def)
qed

lemma show_nat_not_help: "show_nat n \<noteq> ''--help''"
proof (induction n rule: show_nat.induct)
  case (1 n)
  have "char_of (48 + n mod 10) \<noteq> CHR ''p''"
  proof
    assume "char_of (48 + n mod 10) = CHR ''p''"
    then have "of_char (char_of (48 + n mod 10) :: char) = (of_char (CHR ''p'') :: nat)" by simp
    moreover have "n mod 10 < 10" by simp
    ultimately show False by simp
  qed
  then have "last (show_nat n) \<noteq> CHR ''p''" by (subst show_nat.simps) auto
  then show ?case by auto
qed

section \<open>The property\<close>

text \<open>
  Claim C40. Given the decimal form of a number, the tool prints the two accounts of the parachain
  with that id, the child's and the sibling's, each under the same decimal form; a number of more
  than 32 bits stops it after the heading with the message of the \<^verbatim>\<open>expect\<close>.
\<close>

theorem keytool_reads_ids:
  "main_keytool fmt child sibling [p, show_nat n] =
    (let heading = ''Parachain address'' @ newline;
         block = (\<lambda>T. TYPE_ID T @ '' '' @ show_nat n @ newline @
           ''address '' @ to_ss58check fmt (into_account T (word_of_nat n)) @ newline @
           to_hex fmt (into_account T (word_of_nat n)) @ newline @ newline)
     in if n < 2 ^ 32 then (Inr (), heading @ block child @ block sibling)
        else (Inl ''parachain id'', heading))"
  using show_nat_not_help [of n] parse_u32_show [of n]
  by (simp add: main_keytool_def print_paraid_def Let_def unat_of_nat)

end
