(* ===== verification/Spec2Isabelle.thy ===== *)
theory Spec2Isabelle
  imports PatienceEnds Contract BuildTools NodeHandles Mocks Transfers Scenarios NetworkProps CodecProps NodeInfo Keytool
begin

text \<open>
  A verification library for the Robobank prototype: two Substrate parachains, a client chain on
  which people order services of devices and a service chain on which the devices live, that talk
  through the message channels of the relay chain. An order carries two deposits, the fee of the
  client and the penalty of the device; how it ends decides who gets them.

  \<^bold>\<open>The program.\<close> The crate \<^verbatim>\<open>pallets/common\<close> holds
  the types both chains share and the messages they exchange.
  \<^verbatim>\<open>pallets/service\<close> keeps the devices of the service chain and the orders
  they work on; it takes orders from its own chain, whose deposits it holds, and from other
  chains, to which it only reports. \<^verbatim>\<open>pallets/client\<close> keeps a profile of
  remote devices and the orders placed with them, holds both deposits, sends each order to the
  chain of the device and settles it when a report comes back or when the client cancels after the
  deadline. \<^verbatim>\<open>runtime\<close> builds one chain or the other around one of the
  pallets. \<^verbatim>\<open>node\<close> is the collator program that runs either, and
  \<^verbatim>\<open>keytool\<close> prints the accounts of a parachain.

  \<^bold>\<open>How the code is represented.\<close> A runtime function that changes storage is a
  function from the chain state to a result and the state it leaves, also when the result is an
  error: the dispatchables of this FRAME version are not transactional, so writes made before an
  early return stay. The operator \<^verbatim>\<open>?\<close> is \<open>and_then\<close> on a
  call that changes the state and \<open>try_pure\<close> on one that does not. The result of a
  message handler or hook is dropped as the code drops it, the state is not. Storage maps are
  partial functions, \<^verbatim>\<open>Moment\<close>, \<^verbatim>\<open>Balance\<close> and
  \<^verbatim>\<open>ParaId\<close> are words of 64, 128 and 32 bits whose sums wrap as in a
  release build. Storage, the clock, the balances and the outbound queues are one record per
  chain; what the pallets call (currency, message sender, origin check, codec, hash) are the
  fields of a record \<open>env\<close> that every operation takes.

  \<^bold>\<open>The theories, in the order of the code.\<close>
  \<^item> \<open>Prelude\<close>: machine types, results, reachable states, the contract
    \<open>invariant_system\<close> of an invariant and a step relation, sums over finite maps.
  \<^item> \<open>Common\<close> (\<^verbatim>\<open>pallets/common/src/lib.rs\<close>): device
    states, the two forms of an order with their conversions, the message type.
    \<open>Codec\<close>: the derived encoders and decoders over the contracts
    \<open>prefix_codec\<close> and \<open>canonical_codec\<close>; \<open>Scale\<close>
    instantiates the field codecs at the widths of the runtime, \<open>CodecProps\<close> states
    what follows.
  \<^item> \<open>Frame\<close>: the libraries as parameters. \<open>Currency\<close>: the
    contract of \<^verbatim>\<open>ReservableCurrency\<close> as the locale
    \<open>currency\<close>, with a ledger that meets it. \<open>Escrow\<close>: the book of
    deposits both pallets keep, and what opening and closing an entry does to the reserves that
    cover it. \<open>Instance\<close>: concrete libraries for examples.
  \<^item> \<open>Service\<close> (\<^verbatim>\<open>pallets/service/src/lib.rs\<close>): one
    definition per dispatchable, shared function, hook and handler, named after the function with
    the suffix \<open>svc\<close>, joined by \<open>dispatch_svc\<close>.
    \<open>ServiceSafety\<close> has the life cycle of a device and well-formed storage,
    \<open>ServiceEscrow\<close> the solvency invariant, \<open>ServiceSettle\<close> and
    \<open>ServiceRules\<close> what single calls do; \<open>ServiceProps\<close> and
    \<open>ServiceRuleProps\<close> state the properties. \<open>ServiceHistory\<close> labels the
    life cycle with the events and shows that the events of a run follow the order protocol.
  \<^item> \<open>Client\<close> (\<^verbatim>\<open>pallets/client/src/lib.rs\<close>): the same
    with the suffix \<open>cli\<close>, followed by \<open>ClientSafety\<close>,
    \<open>ClientEscrow\<close>, \<open>ClientSettle\<close>, \<open>ClientProps\<close>,
    \<open>ClientRuleProps\<close> and \<open>ClientHistory\<close>, which counts the events of a
    run against the open orders.
  \<^item> \<open>Runtime\<close> (\<^verbatim>\<open>runtime/src/lib.rs\<close>): constants,
    block limits, the two builds, the hook \<^verbatim>\<open>AcceptOnReceive\<close> and the
    configurations of the pallets. \<open>RuntimeConfig\<close>: the configuration of the library
    pallets and of the XCM executor as data, and the runtime APIs over them.
  \<^item> \<open>Network\<close>, \<open>NetworkProps\<close>: the two chains with their queues
    and the relay chain between them, and an order followed through both. \<open>Talk\<close>,
    \<open>NetworkHistory\<close>: what each side says, and the invariant of all runs of the pair.
    \<open>Transfers\<close>: which transfers each input of either pallet may cause, read off the
    open orders, and that it causes no others. \<open>Recovery\<close>: ways out of a stuck order,
    and the hook as an immediate acceptance.
  \<^item> \<open>Contract\<close>: the escrow contract behind both pallets, as operations of its
    own, for every hook that takes all orders, the locale \<open>contract_desk\<close> of a pallet
    that carries it out, and its two interpretations.
  \<^item> \<open>Agreement\<close>: where an order can be between the call and its settlement,
    and how each chain moves it. \<open>Patience\<close>: the runs in which clients wait before
    they cancel, the stages an order passes through in them, the agreement of both chains on their
    orders, and the solvency of the client chain that follows from it.
    \<open>PatienceEnds\<close>: what a waiting client does (\<open>client_waits\<close>), and
    that it ends an overdue order on both chains.
  \<^item> \<open>Scenarios\<close> (\<^verbatim>\<open>pallets/service/src/tests.rs\<close> and
    \<^verbatim>\<open>mock.rs\<close>): the unit tests of the service pallet, run on the model.
    \<open>Mocks\<close>: the configuration of both mock runtimes, compared with that of the
    runtime.
  \<^item> \<open>Node\<close> (\<^verbatim>\<open>node/src/chain_spec.rs\<close>,
    \<^verbatim>\<open>cli.rs\<close>, \<^verbatim>\<open>command.rs\<close>): chain
    specifications, the choice of parachain id and the exports. \<open>RelayCli\<close>: the
    configuration of the embedded relay chain node. \<open>NodeService\<close>
    (\<^verbatim>\<open>node/src/service.rs\<close>): the assembly of a node as a sequence of
    library calls, and \<open>NodeHandles\<close> the objects they pass on.
    \<open>NodeRun\<close>: the dispatch of the command line over all of these.
    \<open>NodeInfo\<close>: what the command lines report about themselves, and the executor.
  \<^item> \<open>Keytool\<close> (\<^verbatim>\<open>keytool/src/main.rs\<close>): the whole
    tool. \<open>BuildTools\<close>: the benchmark interface of the runtime and the build scripts
    (\<^verbatim>\<open>node/build.rs\<close>, \<^verbatim>\<open>runtime/build.rs\<close>).

  \<^bold>\<open>What is proved.\<close> Each pallet keeps its storage well formed, moves one
  device at a time along the edges of a state diagram, announces it in the order of the protocol,
  never owes more than is reserved, and moves funds only as the open orders say: the list of
  transfers of an input bounds what every account gains and loses. Every way an order can end pays
  whom it should, and nobody but the parties can end it; where an account does not survive a
  payment, the theorems on late completions say what is left behind; an overdue order can always
  be ended by its client. On the orders whose deposits they hold, the two pallets are one escrow
  contract: the same actions have the same outcomes and move the same funds. As long as clients do
  not cancel what the other chain still works on, an order passes through its stages one by one,
  both chains agree on its terms and its client whatever other chains order, the reports of the
  service chain cannot make the client chain insolvent, and waiting never leaves a client whose
  account exists without a way to end an overdue order, by deliveries and its own cancellations
  alone. Over a run of both chains, with other chains ordering as they like, every report answers
  an order that was placed, every order announced by the client chain is settled once or open,
  every open order is one that a signed call submitted, and the exchange of messages runs dry.
  Messages are read back as written. Calls that fail leave the pallet as it was, with the
  exceptions the code has; those exceptions, the checks the code leaves out and the wrap-around of
  the work cycle check are theorems as well. The node takes the parachain id its genesis was built
  for; only the plain command starts one, and it does when nothing fails.

  \<^bold>\<open>Hypotheses.\<close> The currency satisfies \<open>currency\<close>, and
  \<open>strict_currency\<close> where a payment may meet a reaped account; the theory
  \<open>Currency\<close> gives a ledger for which the laws are proved. Other pallets may change
  balances between two inputs, but solvency is stated for changes that respect reserves
  (\<open>outside_change\<close>): funding a reaped account again while the book lists a deposit
  of it breaks it, since its reserve is lost. Exact payments are stated for accounts that exist
  and keep the existential deposit; the late completions also for a client that does not. Solvency
  of the client chain alone is stated for runs whose reports name the client of the order they
  settle, because the pallet does not check it; a theorem shows what happens otherwise. For both
  chains together that follows from \<open>well_linked\<close> (one message format, ordered
  queues, different parachain ids), the fact that no third chain sends reports to the client
  chain, and the patience of the clients; other chains may send any message to the service chain:
  \<open>patient_step\<close> lets a client cancel on the client chain only when the order is in
  no message and not on the service chain. Without patience a late report can settle the next
  order of the device, which is a theorem of \<open>NetworkProps\<close>. That the library finds
  the extension of a chain specification by its type is the hypothesis \<open>get_extension libs =
  Some\<close> on the node. In the theorems on runs of the service pallet
  \<open>receiver_ok\<close> says that the hook answers \<open>Busy\<close> or
  \<open>Busy2\<close>, which the code states as a debug assertion. The comparison of the two
  pallets takes the same currency and origins on both, messages of the client chain that leave,
  and a hook that takes every order (\<open>hook_takes_all\<close>), which both hooks of the
  sources do. Channels may refuse a message; where a theorem needs that they do not,
  \<open>sends_ok\<close> says so.

  \<^bold>\<open>Bounds.\<close> No definition uses fuel: the operations do not loop, the
  recursions of the codecs and of the number parser are structural. The length of an exchange is
  bounded by twice the messages waiting on the client chain plus those waiting on the service
  chain, since a message to the service chain is answered at most once and a report not at all.

  \<^bold>\<open>Not modelled.\<close> The pallets of FRAME, the executive, the relay chain and
  the XCM executor, of which only the configuration is represented. Key pairs, address formats and
  the benchmarks themselves are parameters. Log output, weights of extrinsics and metadata have no
  effect on the state. The client pallet's tests are those of the pallet template and call
  functions the pallet does not have; of its mock, the configuration is modelled. The shell and
  Python helpers and the data files are not Rust code of the program. Of the node service, the
  tasks that the library calls spawn are left out.
\<close>

end
